(* ===== verification/Prelude.thy ===== *)
theory Prelude
  imports Main "HOL-Library.Word" "HOL-Library.Char_ord" "HOL-Library.List_Lexorder"
    "HOL-Library.Finite_Map" "HOL-Library.Sublist"
begin

text \<open>
  The shared vocabulary of the development.

  A Go \<^verbatim>\<open>string\<close> and a Go \<^verbatim>\<open>[]byte\<close> are both sequences of bytes, and a \<^typ>\<open>char\<close> of
  Isabelle is exactly one byte, so both are modelled as \<^typ>\<open>char list\<close>; the theories
  \<open>Char_ord\<close> and \<open>List_Lexorder\<close> give them the bytewise lexicographic order that Go's \<^verbatim>\<open><\<close> on
  strings and the key order of the database have.  Machine integers keep their width
  (\<^typ>\<open>64 word\<close>); a signed integer is read with \<^const>\<open>sint\<close>.  A Go map is a finite map
  (\<^typ>\<open>('k, 'v) fmap\<close>), so that its \<^verbatim>\<open>len\<close> is defined and computes.  A \<^verbatim>\<open>time.Time\<close> is the
  unbounded number of nanoseconds since the Unix epoch.
\<close>

type_synonym bytes = "char list"
type_synonym gostring = "char list"
type_synonym u8 = "8 word"
type_synonym u16 = "16 word"
type_synonym u32 = "32 word"
type_synonym u64 = "64 word"
type_synonym i64 = "64 word"
type_synonym gotime = int
type_synonym addr = nat

abbreviation slash :: char where
  "slash \<equiv> CHR ''/''"

named_theorems list_simps \<open>facts on splitting and comparing byte strings\<close>
named_theorems ring_simps \<open>facts on the links of an intrusive list\<close>
named_theorems codec_simps \<open>facts on reading back what was written into a byte buffer\<close>
named_theorems fmap_simps \<open>facts on finite maps used as Go maps\<close>

text \<open>
  \<^verbatim>\<open>len(m)\<close> of a Go map, and the test \<^verbatim>\<open>atime+int64(delay) < now\<close> that every expiry in the
  cache uses, on signed 64-bit integers whose sum wraps.
\<close>

definition map_len :: "('k, 'v) fmap \<Rightarrow> int" where
  "map_len m = int (fcard (fmdom m))"

definition expired :: "i64 \<Rightarrow> i64 \<Rightarrow> i64 \<Rightarrow> bool" where
  "expired atime delay now \<longleftrightarrow> sint (atime + delay) < sint now"

text \<open>Dropping a key from a list of pairs.\<close>

definition del_key :: "'k \<Rightarrow> ('k \<times> 'v) list \<Rightarrow> ('k \<times> 'v) list" where
  "del_key k xs = filter (\<lambda>x. fst x \<noteq> k) xs"

lemma expired_no_overflow:
  assumes "- (2 ^ 63) \<le> sint atime + sint delay" and "sint atime + sint delay < 2 ^ 63"
  shows "expired atime delay now \<longleftrightarrow> sint atime + sint delay < sint now"
proof -
  have "sint (atime + delay) = sint atime + sint delay"
    using assms by (simp add: sint_word_ariths signed_take_bit_int_eq_self)
  then show ?thesis
    by (simp add: expired_def)
qed

subsection \<open>Lists\<close>

lemma distinct_remove1_split:
  "distinct (xs @ a # ys) \<Longrightarrow> remove1 a (xs @ a # ys) = xs @ ys"
  by (simp add: remove1_append)

lemma filter_neq_remove1:
  "distinct (map f xs) \<Longrightarrow> a \<in> set xs \<Longrightarrow> filter (\<lambda>x. f x \<noteq> f a) xs = remove1 a xs"
proof (induction xs)
  case (Cons x xs)
  show ?case
  proof (cases "x = a")
    case True
    with Cons.prems have "\<forall>y \<in> set xs. f y \<noteq> f a"
      by (auto simp: image_iff)
    with True show ?thesis
      by (simp add: filter_id_conv)
  next
    case False
    with Cons.prems have "a \<in> set xs" by simp
    with Cons.prems have "f x \<noteq> f a" by force
    with False Cons show ?thesis
      by simp
  qed
qed simp

lemma map_of_del_key: "map_of (del_key k xs) k' = (if k' = k then None else map_of xs k')"
  by (induction xs) (auto simp: del_key_def)

lemma set_del_key: "set (del_key k xs) \<subseteq> set xs" "length (del_key k xs) \<le> length xs"
  by (auto simp: del_key_def)

lemma keys_del_key [simp]: "fst ` set (del_key k xs) = fst ` set xs - {k}"
  by (auto simp: del_key_def)

lemma distinct_del_key: "distinct (map fst xs) \<Longrightarrow> distinct (map fst (del_key k xs))"
  by (simp add: del_key_def distinct_map_filter)

lemma del_key_id: "k \<notin> fst ` set xs \<Longrightarrow> del_key k xs = xs"
  by (force simp: del_key_def filter_id_conv)

text \<open>Dropping the key of one element, where the keys are distinct, is removing that element.\<close>

lemma del_key_map:
  assumes "distinct as" and "inj_on f (set as)" and "a \<in> set as"
  shows "del_key (f a) (map (\<lambda>b. (f b, g b)) as) = map (\<lambda>b. (f b, g b)) (remove1 a as)"
proof -
  have "filter (\<lambda>b. f b \<noteq> f a) as = remove1 a as"
    using assms by (intro filter_neq_remove1) (simp_all add: distinct_map)
  then show ?thesis
    by (simp add: del_key_def filter_map o_def)
qed

subsection \<open>Finite maps\<close>

lemma fcard_none [simp]: "fcard {||} = 0"
  by (simp add: fcard.rep_eq)

lemma map_len_empty [fmap_simps]: "map_len fmempty = 0"
  by (simp add: map_len_def)

lemma map_len_nonneg [simp]: "0 \<le> map_len m"
  by (simp add: map_len_def)

text \<open>A map whose values are in one-to-one correspondence with a list has that list's length.\<close>

lemma map_len_bij:
  assumes "\<And>k a. fmlookup m k = Some a \<longleftrightarrow> a \<in> set as \<and> f a = k" and "distinct as"
  shows "map_len m = int (length as)"
proof -
  have dom: "fset (fmdom m) = f ` set as"
  proof (intro set_eqI iffI)
    fix k
    assume "k \<in> fset (fmdom m)"
    then obtain a where "fmlookup m k = Some a"
      by (meson fmdomE)
    then show "k \<in> f ` set as"
      using assms(1) by auto
  next
    fix k
    assume "k \<in> f ` set as"
    then obtain a where "a \<in> set as" "f a = k" by auto
    then have "fmlookup m k = Some a"
      using assms(1) by simp
    then show "k \<in> fset (fmdom m)"
      by (rule fmdomI)
  qed
  have "inj_on f (set as)"
  proof (rule inj_onI)
    fix a b
    assume "a \<in> set as" "b \<in> set as" "f a = f b"
    then have "fmlookup m (f a) = Some a" "fmlookup m (f a) = Some b"
      using assms(1) by auto
    then show "a = b" by simp
  qed
  then have "card (f ` set as) = length as"
    using assms(2) by (simp add: card_image distinct_card)
  then show ?thesis
    using dom by (simp add: map_len_def fcard.rep_eq)
qed

end
