(* ===== verification/Errno.thy ===== *)
theory Errno
  imports Prelude
begin

text \<open>
  Error numbers and error values: \<^verbatim>\<open>src/errno/errno.go\<close> and \<^verbatim>\<open>src/fs/errc.go\<close>.

  \<open>errno\<close> is the source's \<^verbatim>\<open>type Errno int\<close>, with the constants numbered by \<^verbatim>\<open>iota\<close>; \<open>Errno 0\<close> is the
  value no constant names.  An \<open>error\<close> is what a Go variable of type \<^verbatim>\<open>error\<close> can hold in this
  program: an \<^verbatim>\<open>Errno\<close>, the variable \<^verbatim>\<open>io.EOF\<close>, an error of the package \<^verbatim>\<open>os\<close>
  that the program can tell apart or run into, or a value made by code outside the repository (the
  object storage, the database, the error package, a failing disk), known only by a number.  The
  error package of golib is a parameter, a record of the functions the source calls.

  \<open>res\<close> is the result of a fallible operation: a value, an error return, or a panic, which is
  kept apart from an error because no \<^verbatim>\<open>if nil != err\<close> catches it.  A panic carries the error number
  the code panics with, or is one of the Go runtime (an index out of range, a nil dereference).
\<close>

datatype errno = Errno int

abbreviation E2BIG :: errno where "E2BIG \<equiv> Errno 1"
abbreviation EACCES :: errno where "EACCES \<equiv> Errno 2"
abbreviation EADDRINUSE :: errno where "EADDRINUSE \<equiv> Errno 3"
abbreviation EADDRNOTAVAIL :: errno where "EADDRNOTAVAIL \<equiv> Errno 4"
abbreviation EAFNOSUPPORT :: errno where "EAFNOSUPPORT \<equiv> Errno 5"
abbreviation EAGAIN :: errno where "EAGAIN \<equiv> Errno 6"
abbreviation EALREADY :: errno where "EALREADY \<equiv> Errno 7"
abbreviation EBADF :: errno where "EBADF \<equiv> Errno 8"
abbreviation EBADMSG :: errno where "EBADMSG \<equiv> Errno 9"
abbreviation EBUSY :: errno where "EBUSY \<equiv> Errno 10"
abbreviation ECANCELED :: errno where "ECANCELED \<equiv> Errno 11"
abbreviation ECHILD :: errno where "ECHILD \<equiv> Errno 12"
abbreviation ECONNABORTED :: errno where "ECONNABORTED \<equiv> Errno 13"
abbreviation ECONNREFUSED :: errno where "ECONNREFUSED \<equiv> Errno 14"
abbreviation ECONNRESET :: errno where "ECONNRESET \<equiv> Errno 15"
abbreviation EDEADLK :: errno where "EDEADLK \<equiv> Errno 16"
abbreviation EDESTADDRREQ :: errno where "EDESTADDRREQ \<equiv> Errno 17"
abbreviation EDOM :: errno where "EDOM \<equiv> Errno 18"
abbreviation EEXIST :: errno where "EEXIST \<equiv> Errno 19"
abbreviation EFAULT :: errno where "EFAULT \<equiv> Errno 20"
abbreviation EFBIG :: errno where "EFBIG \<equiv> Errno 21"
abbreviation EHOSTUNREACH :: errno where "EHOSTUNREACH \<equiv> Errno 22"
abbreviation EIDRM :: errno where "EIDRM \<equiv> Errno 23"
abbreviation EILSEQ :: errno where "EILSEQ \<equiv> Errno 24"
abbreviation EINPROGRESS :: errno where "EINPROGRESS \<equiv> Errno 25"
abbreviation EINTR :: errno where "EINTR \<equiv> Errno 26"
abbreviation EINVAL :: errno where "EINVAL \<equiv> Errno 27"
abbreviation EIO :: errno where "EIO \<equiv> Errno 28"
abbreviation EISCONN :: errno where "EISCONN \<equiv> Errno 29"
abbreviation EISDIR :: errno where "EISDIR \<equiv> Errno 30"
abbreviation ELOOP :: errno where "ELOOP \<equiv> Errno 31"
abbreviation EMFILE :: errno where "EMFILE \<equiv> Errno 32"
abbreviation EMLINK :: errno where "EMLINK \<equiv> Errno 33"
abbreviation EMSGSIZE :: errno where "EMSGSIZE \<equiv> Errno 34"
abbreviation ENAMETOOLONG :: errno where "ENAMETOOLONG \<equiv> Errno 35"
abbreviation ENETDOWN :: errno where "ENETDOWN \<equiv> Errno 36"
abbreviation ENETRESET :: errno where "ENETRESET \<equiv> Errno 37"
abbreviation ENETUNREACH :: errno where "ENETUNREACH \<equiv> Errno 38"
abbreviation ENFILE :: errno where "ENFILE \<equiv> Errno 39"
abbreviation ENOATTR :: errno where "ENOATTR \<equiv> Errno 40"
abbreviation ENOBUFS :: errno where "ENOBUFS \<equiv> Errno 41"
abbreviation ENODATA :: errno where "ENODATA \<equiv> Errno 42"
abbreviation ENODEV :: errno where "ENODEV \<equiv> Errno 43"
abbreviation ENOENT :: errno where "ENOENT \<equiv> Errno 44"
abbreviation ENOEXEC :: errno where "ENOEXEC \<equiv> Errno 45"
abbreviation ENOLCK :: errno where "ENOLCK \<equiv> Errno 46"
abbreviation ENOLINK :: errno where "ENOLINK \<equiv> Errno 47"
abbreviation ENOMEM :: errno where "ENOMEM \<equiv> Errno 48"
abbreviation ENOMSG :: errno where "ENOMSG \<equiv> Errno 49"
abbreviation ENOPROTOOPT :: errno where "ENOPROTOOPT \<equiv> Errno 50"
abbreviation ENOSPC :: errno where "ENOSPC \<equiv> Errno 51"
abbreviation ENOSR :: errno where "ENOSR \<equiv> Errno 52"
abbreviation ENOSTR :: errno where "ENOSTR \<equiv> Errno 53"
abbreviation ENOSYS :: errno where "ENOSYS \<equiv> Errno 54"
abbreviation ENOTCONN :: errno where "ENOTCONN \<equiv> Errno 55"
abbreviation ENOTDIR :: errno where "ENOTDIR \<equiv> Errno 56"
abbreviation ENOTEMPTY :: errno where "ENOTEMPTY \<equiv> Errno 57"
abbreviation ENOTRECOVERABLE :: errno where "ENOTRECOVERABLE \<equiv> Errno 58"
abbreviation ENOTSOCK :: errno where "ENOTSOCK \<equiv> Errno 59"
abbreviation ENOTSUP :: errno where "ENOTSUP \<equiv> Errno 60"
abbreviation ENOTTY :: errno where "ENOTTY \<equiv> Errno 61"
abbreviation ENXIO :: errno where "ENXIO \<equiv> Errno 62"
abbreviation EOPNOTSUPP :: errno where "EOPNOTSUPP \<equiv> Errno 63"
abbreviation EOVERFLOW :: errno where "EOVERFLOW \<equiv> Errno 64"
abbreviation EOWNERDEAD :: errno where "EOWNERDEAD \<equiv> Errno 65"
abbreviation EPERM :: errno where "EPERM \<equiv> Errno 66"
abbreviation EPIPE :: errno where "EPIPE \<equiv> Errno 67"
abbreviation EPROTO :: errno where "EPROTO \<equiv> Errno 68"
abbreviation EPROTONOSUPPORT :: errno where "EPROTONOSUPPORT \<equiv> Errno 69"
abbreviation EPROTOTYPE :: errno where "EPROTOTYPE \<equiv> Errno 70"
abbreviation ERANGE :: errno where "ERANGE \<equiv> Errno 71"
abbreviation EROFS :: errno where "EROFS \<equiv> Errno 72"
abbreviation ESPIPE :: errno where "ESPIPE \<equiv> Errno 73"
abbreviation ESRCH :: errno where "ESRCH \<equiv> Errno 74"
abbreviation ETIME :: errno where "ETIME \<equiv> Errno 75"
abbreviation ETIMEDOUT :: errno where "ETIMEDOUT \<equiv> Errno 76"
abbreviation ETXTBSY :: errno where "ETXTBSY \<equiv> Errno 77"
abbreviation EWOULDBLOCK :: errno where "EWOULDBLOCK \<equiv> Errno 78"
abbreviation EXDEV :: errno where "EXDEV \<equiv> Errno 79"

datatype oserr = NotExist | Exist | NotDir | NegativeOffset | InvalidSize | SizeOverflow

datatype error = ErrnoErr errno | ErrEOF | OsErr oserr | ExtErr nat

datatype iface = IErr error | IOther nat

datatype panic = PanicErrno errno | PanicRuntime

datatype 'a res = Ok 'a | Err error | Panic panic

text \<open>Sequencing of fallible stateful steps: \<open>bindr\<close> is \<^verbatim>\<open>x, err := f(); if nil != err { return }\<close>.\<close>

definition bindr :: "'a res \<times> 's \<Rightarrow> ('a \<Rightarrow> 's \<Rightarrow> 'b res \<times> 's) \<Rightarrow> 'b res \<times> 's" where
  "bindr m f =
     (case m of (Ok a, s) \<Rightarrow> f a s | (Err e, s) \<Rightarrow> (Err e, s) | (Panic q, s) \<Rightarrow> (Panic q, s))"

record golib =
  errors_Cause :: "error \<Rightarrow> error option"
  errors_Attachment :: "error \<Rightarrow> iface option"
  errors_HasAttachment :: "error \<Rightarrow> errno \<Rightarrow> bool"

definition errno_consts :: "errno list" where
  "errno_consts =
     [E2BIG, EACCES, EADDRINUSE, EADDRNOTAVAIL, EAFNOSUPPORT, EAGAIN, EALREADY, EBADF,
      EBADMSG, EBUSY, ECANCELED, ECHILD, ECONNABORTED, ECONNREFUSED, ECONNRESET, EDEADLK,
      EDESTADDRREQ, EDOM, EEXIST, EFAULT, EFBIG, EHOSTUNREACH, EIDRM, EILSEQ, EINPROGRESS,
      EINTR, EINVAL, EIO, EISCONN, EISDIR, ELOOP, EMFILE, EMLINK, EMSGSIZE, ENAMETOOLONG,
      ENETDOWN, ENETRESET, ENETUNREACH, ENFILE, ENOATTR, ENOBUFS, ENODATA, ENODEV, ENOENT,
      ENOEXEC, ENOLCK, ENOLINK, ENOMEM, ENOMSG, ENOPROTOOPT, ENOSPC, ENOSR, ENOSTR, ENOSYS,
      ENOTCONN, ENOTDIR, ENOTEMPTY, ENOTRECOVERABLE, ENOTSOCK, ENOTSUP, ENOTTY, ENXIO,
      EOPNOTSUPP, EOVERFLOW, EOWNERDEAD, EPERM, EPIPE, EPROTO, EPROTONOSUPPORT, EPROTOTYPE,
      ERANGE, EROFS, ESPIPE, ESRCH, ETIME, ETIMEDOUT, ETXTBSY, EWOULDBLOCK, EXDEV]"

text \<open>
  \<^verbatim>\<open>ErrnoFromErr\<close>: the type assertion \<^verbatim>\<open>a.(Errno)\<close> on the attachment of an error, or on the error
  itself when it has none, and the loop over the causes.  The loop is the code's: nothing bounds
  it but the end of the chain of causes, so it is a partial function.
\<close>

definition as_Errno :: "iface \<Rightarrow> errno option" where
  "as_Errno a = (case a of IErr (ErrnoErr i) \<Rightarrow> Some i | _ \<Rightarrow> None)"

definition specific_errno :: "golib \<Rightarrow> error \<Rightarrow> errno option" where
  "specific_errno G e =
     (let a = (case errors_Attachment G e of None \<Rightarrow> IErr e | Some a \<Rightarrow> a)
      in case as_Errno a of
           None \<Rightarrow> None
         | Some i \<Rightarrow> if EIO \<noteq> i then Some i else None)"

partial_function (option) errno_loop :: "golib \<Rightarrow> error \<Rightarrow> errno option" where
  "errno_loop G e =
     (case specific_errno G e of
        Some i \<Rightarrow> Some i
      | None \<Rightarrow> (case errors_Cause G e of None \<Rightarrow> Some EIO | Some e' \<Rightarrow> errno_loop G e'))"

definition ErrnoFromErr :: "golib \<Rightarrow> error option \<Rightarrow> errno option" where
  "ErrnoFromErr G err =
     (case err of None \<Rightarrow> Some (Errno 0) | Some e \<Rightarrow> errno_loop G e)"

text \<open>
  \<^verbatim>\<open>errnomap\<close> and \<^verbatim>\<open>FuseErrc\<close>.  The numeric values of the FUSE constants belong to cgofuse, so
  they are the parameter \<open>fuse\<close>: \<open>fuse E\<close> is \<^verbatim>\<open>fuse.E\<close>.  The map has an entry for every constant
  but \<^verbatim>\<open>EIO\<close>, whose line is commented out, and none for 0.
\<close>

definition errnomap :: "(errno \<Rightarrow> int) \<Rightarrow> errno \<Rightarrow> int option" where
  "errnomap fuse = map_of
     [(E2BIG, - fuse E2BIG), (EACCES, - fuse EACCES), (EADDRINUSE, - fuse EADDRINUSE),
      (EADDRNOTAVAIL, - fuse EADDRNOTAVAIL), (EAFNOSUPPORT, - fuse EAFNOSUPPORT), (EAGAIN, - fuse EAGAIN),
      (EALREADY, - fuse EALREADY), (EBADF, - fuse EBADF), (EBADMSG, - fuse EBADMSG),
      (EBUSY, - fuse EBUSY), (ECANCELED, - fuse ECANCELED), (ECHILD, - fuse ECHILD),
      (ECONNABORTED, - fuse ECONNABORTED), (ECONNREFUSED, - fuse ECONNREFUSED), (ECONNRESET, - fuse ECONNRESET),
      (EDEADLK, - fuse EDEADLK), (EDESTADDRREQ, - fuse EDESTADDRREQ), (EDOM, - fuse EDOM),
      (EEXIST, - fuse EEXIST), (EFAULT, - fuse EFAULT), (EFBIG, - fuse EFBIG),
      (EHOSTUNREACH, - fuse EHOSTUNREACH), (EIDRM, - fuse EIDRM), (EILSEQ, - fuse EILSEQ),
      (EINPROGRESS, - fuse EINPROGRESS), (EINTR, - fuse EINTR), (EINVAL, - fuse EINVAL),
      (EISCONN, - fuse EISCONN), (EISDIR, - fuse EISDIR), (ELOOP, - fuse ELOOP),
      (EMFILE, - fuse EMFILE), (EMLINK, - fuse EMLINK), (EMSGSIZE, - fuse EMSGSIZE),
      (ENAMETOOLONG, - fuse ENAMETOOLONG), (ENETDOWN, - fuse ENETDOWN), (ENETRESET, - fuse ENETRESET),
      (ENETUNREACH, - fuse ENETUNREACH), (ENFILE, - fuse ENFILE), (ENOATTR, - fuse ENOATTR),
      (ENOBUFS, - fuse ENOBUFS), (ENODATA, - fuse ENODATA), (ENODEV, - fuse ENODEV),
      (ENOENT, - fuse ENOENT), (ENOEXEC, - fuse ENOEXEC), (ENOLCK, - fuse ENOLCK),
      (ENOLINK, - fuse ENOLINK), (ENOMEM, - fuse ENOMEM), (ENOMSG, - fuse ENOMSG),
      (ENOPROTOOPT, - fuse ENOPROTOOPT), (ENOSPC, - fuse ENOSPC), (ENOSR, - fuse ENOSR),
      (ENOSTR, - fuse ENOSTR), (ENOSYS, - fuse ENOSYS), (ENOTCONN, - fuse ENOTCONN),
      (ENOTDIR, - fuse ENOTDIR), (ENOTEMPTY, - fuse ENOTEMPTY), (ENOTRECOVERABLE, - fuse ENOTRECOVERABLE),
      (ENOTSOCK, - fuse ENOTSOCK), (ENOTSUP, - fuse ENOTSUP), (ENOTTY, - fuse ENOTTY),
      (ENXIO, - fuse ENXIO), (EOPNOTSUPP, - fuse EOPNOTSUPP), (EOVERFLOW, - fuse EOVERFLOW),
      (EOWNERDEAD, - fuse EOWNERDEAD), (EPERM, - fuse EPERM), (EPIPE, - fuse EPIPE),
      (EPROTO, - fuse EPROTO), (EPROTONOSUPPORT, - fuse EPROTONOSUPPORT), (EPROTOTYPE, - fuse EPROTOTYPE),
      (ERANGE, - fuse ERANGE), (EROFS, - fuse EROFS), (ESPIPE, - fuse ESPIPE),
      (ESRCH, - fuse ESRCH), (ETIME, - fuse ETIME), (ETIMEDOUT, - fuse ETIMEDOUT),
      (ETXTBSY, - fuse ETXTBSY), (EWOULDBLOCK, - fuse EWOULDBLOCK), (EXDEV, - fuse EXDEV)]"

definition FuseErrc :: "golib \<Rightarrow> (errno \<Rightarrow> int) \<Rightarrow> error option \<Rightarrow> int option" where
  "FuseErrc G fuse err =
     (case ErrnoFromErr G err of
        None \<Rightarrow> None
      | Some e \<Rightarrow> Some (case errnomap fuse e of None \<Rightarrow> - fuse EIO | Some rc \<Rightarrow> rc))"

text \<open>The chain of an error: the error, its cause, the cause of that, to the last one.\<close>

fun cause_chain :: "golib \<Rightarrow> error \<Rightarrow> error list \<Rightarrow> bool" where
  "cause_chain G e [] \<longleftrightarrow> False"
| "cause_chain G e [x] \<longleftrightarrow> x = e \<and> errors_Cause G e = None"
| "cause_chain G e (x # y # es) \<longleftrightarrow>
     x = e \<and> errors_Cause G e = Some y \<and> cause_chain G y (y # es)"

definition first_specific :: "golib \<Rightarrow> error list \<Rightarrow> errno" where
  "first_specific G es =
     (case List.map_filter (specific_errno G) es of [] \<Rightarrow> EIO | i # _ \<Rightarrow> i)"

text \<open>A concrete error package, for the witnesses.\<close>

definition demo_golib :: golib where
  "demo_golib =
     \<lparr>errors_Cause = (\<lambda>e. case e of ExtErr n \<Rightarrow> if n = 0 then None else Some (ExtErr (n - 1)) | _ \<Rightarrow> None),
      errors_Attachment = (\<lambda>e. if e = ExtErr 1 then Some (IErr (ErrnoErr EIO))
                               else if e = ExtErr 0 then Some (IErr (ErrnoErr ENOENT)) else None),
      errors_HasAttachment = (\<lambda>e i. case e of ErrnoErr j \<Rightarrow> False | ExtErr n \<Rightarrow> n = 0 \<and> i = ENOENT | _ \<Rightarrow> False)\<rparr>"

subsection \<open>Sequencing\<close>

lemma bindr_simps [simp]:
  "bindr (Ok a, s) f = f a s" "bindr (Err e, s) f = (Err e, s)" "bindr (Panic q, s) f = (Panic q, s)"
  by (simp_all add: bindr_def)

lemma bindr_OkE:
  assumes "bindr m f = (Ok b, s')"
  obtains a s where "m = (Ok a, s)" "f a s = (Ok b, s')"
  using assms by (cases m; cases "fst m") (auto simp: bindr_def)

subsection \<open>The loop over the causes\<close>

lemma errno_loop_chain:
  "cause_chain G e es \<Longrightarrow> errno_loop G e = Some (first_specific G es)"
proof (induction G e es rule: cause_chain.induct)
  case (2 G e x)
  then show ?case
    by (subst errno_loop.simps)
      (simp add: first_specific_def List.map_filter_def split: option.splits)
next
  case (3 G e x y es)
  then have IH: "errno_loop G y = Some (first_specific G (y # es))"
    by simp
  from 3 IH show ?case
    by (subst errno_loop.simps)
      (auto simp: first_specific_def List.map_filter_def split: option.splits)
qed simp

lemma errnomap_EIO [simp]: "errnomap fuse EIO = None"
  by (simp add: errnomap_def)

lemma errnomap_0 [simp]: "errnomap fuse (Errno 0) = None"
  by (simp add: errnomap_def)

text \<open>Every constant of the source but \<^verbatim>\<open>EIO\<close> is mapped to its own FUSE constant.\<close>

lemma errnomap_Some:
  assumes "i \<in> set errno_consts" and "i \<noteq> EIO"
  shows "errnomap fuse i = Some (- fuse i)"
  using assms by (auto simp: errno_consts_def errnomap_def)

subsection \<open>Properties\<close>

text \<open>
  \<^verbatim>\<open>ErrnoFromErr\<close> returns for every error whose chain of causes ends: it is the first error
  number other than \<^verbatim>\<open>EIO\<close> found along the chain (in the attachment of an error, or in the error
  itself when nothing is attached), and \<^verbatim>\<open>EIO\<close> when the chain has none.
\<close>

theorem ErrnoFromErr_first:
  assumes "cause_chain G e es"
  shows "ErrnoFromErr G (Some e) = Some (first_specific G es)"
  using errno_loop_chain[OF assms] by (simp add: ErrnoFromErr_def)

theorem ErrnoFromErr_first_witness:
  "ErrnoFromErr demo_golib (Some (ExtErr 2)) =
     Some (first_specific demo_golib [ExtErr 2, ExtErr 1, ExtErr 0])"
  by (rule ErrnoFromErr_first) (simp add: demo_golib_def)

text \<open>
  C21. \<^verbatim>\<open>FuseErrc\<close> turns an error into the negated FUSE constant of the same name, for every constant
  the source defines: the first specific error number of the chain, or \<^verbatim>\<open>-EIO\<close>.
\<close>

theorem FuseErrc_chain:
  assumes "cause_chain G e es" and "first_specific G es \<in> set errno_consts"
  shows "FuseErrc G fuse (Some e) = Some (- fuse (first_specific G es))"
  using errno_loop_chain[OF assms(1)] errnomap_Some[OF assms(2)]
  by (cases "first_specific G es = EIO") (simp_all add: FuseErrc_def ErrnoFromErr_def)

theorem FuseErrc_chain_witness:
  "FuseErrc demo_golib (\<lambda>e. case e of Errno n \<Rightarrow> 100 + n) (Some (ExtErr 1)) =
     Some (- (case first_specific demo_golib [ExtErr 1, ExtErr 0] of Errno n \<Rightarrow> 100 + n))"
  by (rule FuseErrc_chain)
    (simp_all add: demo_golib_def first_specific_def specific_errno_def as_Errno_def
      List.map_filter_def errno_consts_def)

text \<open>
  Contrary to its comment ("If err is nil then FuseErrc is 0"), \<^verbatim>\<open>FuseErrc\<close> of a nil error is
  \<^verbatim>\<open>-EIO\<close>: the error number 0 has no entry in \<^verbatim>\<open>errnomap\<close>.
\<close>

theorem FuseErrc_nil: "FuseErrc G fuse None = Some (- fuse EIO)"
  by (simp add: FuseErrc_def ErrnoFromErr_def)

end
