(* ===== verification/Paths.thy ===== *)
theory Paths
  imports Errno
begin

text \<open>
  The path functions of \<^verbatim>\<open>src/cache/cache.go\<close> (\<^verbatim>\<open>partialPaths\<close>, \<^verbatim>\<open>pathKeyHasPrefix\<close>, \<^verbatim>\<open>filePath\<close>,
  \<^verbatim>\<open>parseIno\<close>), with what they use of the packages \<^verbatim>\<open>path\<close>, \<^verbatim>\<open>filepath\<close>, \<^verbatim>\<open>fmt\<close> and \<^verbatim>\<open>strconv\<close> on a
  system whose path separator is the slash.

  A loop that advances an index through a path is modelled on the part of the path the index has
  not reached.  \<open>mkpath cs\<close> is the path \<^verbatim>\<open>/c1/c2/.../cn\<close> of a list of names and \<open>absolute cs\<close> adds the
  case of the root, \<^verbatim>\<open>/\<close>.
\<close>

definition skip_slashes :: "gostring \<Rightarrow> gostring" where
  "skip_slashes p = dropWhile (\<lambda>c. c = slash) p"

definition first_comp :: "gostring \<Rightarrow> gostring" where
  "first_comp p = takeWhile (\<lambda>c. c \<noteq> slash) p"

definition after_comp :: "gostring \<Rightarrow> gostring" where
  "after_comp p = skip_slashes (dropWhile (\<lambda>c. c \<noteq> slash) p)"

lemma after_comp_shorter: "first_comp p \<noteq> [] \<Longrightarrow> length (after_comp p) < length p"
proof -
  assume "first_comp p \<noteq> []"
  then obtain c r where p: "p = c # r" "c \<noteq> slash"
    by (cases p) (auto simp: first_comp_def split: if_splits)
  have "length (after_comp p) \<le> length (dropWhile (\<lambda>c. c \<noteq> slash) p)"
    by (simp add: after_comp_def skip_slashes_def length_dropWhile_le)
  also have "\<dots> \<le> length r"
    using p by (simp add: length_dropWhile_le)
  finally show ?thesis using p by simp
qed

function partial_loop :: "gostring \<Rightarrow> gostring \<Rightarrow> gostring list" where
  "partial_loop partial p =
     (let comp = first_comp p; p = after_comp p
      in if comp = '''' then []
         else (let partial = partial @ ''/'' @ comp in partial # partial_loop partial p))"
  by pat_completeness auto
termination
  by (relation "measure (\<lambda>(partial, p). length p)") (auto intro: after_comp_shorter)

declare partial_loop.simps [simp del]

definition partialPaths :: "gostring \<Rightarrow> gostring list" where
  "partialPaths p = ''/'' # partial_loop '''' (skip_slashes p)"

definition pathKeyHasPrefix :: "bytes \<Rightarrow> bytes \<Rightarrow> bool" where
  "pathKeyHasPrefix a b =
     (let alen = length a; blen = length b
      in alen \<ge> blen \<and> take blen a = b \<and>
         (alen = blen \<or> (1 = blen \<and> slash = b ! 0) \<or> slash = a ! blen))"

text \<open>
  The scan of a subtree that \<^verbatim>\<open>removeNode\<close>, \<^verbatim>\<open>renameNode\<close> and \<^verbatim>\<open>readdirNode\<close> share: seek to the key
  and go on while the keys have it as a prefix, over the sorted keys of the catalogue.
\<close>

definition scan_subtree :: "bytes \<Rightarrow> bytes list \<Rightarrow> bytes list" where
  "scan_subtree k ks = takeWhile (\<lambda>i. pathKeyHasPrefix i k) (dropWhile (\<lambda>i. i < k) ks)"

text \<open>\<^verbatim>\<open>path.Clean\<close>, \<^verbatim>\<open>path.Join\<close> and \<^verbatim>\<open>path.Base\<close>.\<close>

function components :: "gostring \<Rightarrow> gostring list" where
  "components p =
     (let p = skip_slashes p
      in if p = [] then [] else first_comp p # components (dropWhile (\<lambda>c. c \<noteq> slash) p))"
  by pat_completeness auto
termination
proof (relation "measure length", goal_cases)
  case (2 p x)
  then have "hd x \<noteq> slash"
    using hd_dropWhile[of "\<lambda>c. c = slash" p] by (simp add: skip_slashes_def)
  moreover obtain c r where x: "x = c # r"
    using 2 by (meson neq_Nil_conv)
  ultimately have "c \<noteq> slash"
    by simp
  moreover have "length x \<le> length p"
    using 2 by (simp add: skip_slashes_def length_dropWhile_le)
  moreover have "length (dropWhile (\<lambda>c. c \<noteq> slash) r) \<le> length r"
    by (rule length_dropWhile_le)
  ultimately show ?case using x by simp
qed simp

declare components.simps [simp del]

definition clean_step :: "bool \<Rightarrow> gostring list \<Rightarrow> gostring \<Rightarrow> gostring list" where
  "clean_step rooted out c =
     (if c = ''.'' then out
      else if c = ''..'' then
        (if out \<noteq> [] \<and> last out \<noteq> ''..'' then butlast out
         else if rooted then out else out @ [c])
      else out @ [c])"

definition mkpath :: "gostring list \<Rightarrow> gostring" where
  "mkpath cs = concat (map (\<lambda>c. ''/'' @ c) cs)"

definition path_Clean :: "gostring \<Rightarrow> gostring" where
  "path_Clean p =
     (let rooted = (p \<noteq> [] \<and> hd p = slash);
          out = foldl (clean_step rooted) [] (components p)
      in if rooted then (if out = [] then ''/'' else mkpath out)
         else (if out = [] then ''.'' else tl (mkpath out)))"

definition path_Join :: "gostring \<Rightarrow> gostring \<Rightarrow> gostring" where
  "path_Join a b =
     (if a = '''' then (if b = '''' then '''' else path_Clean b)
      else if b = '''' then path_Clean a else path_Clean (a @ ''/'' @ b))"

definition path_Base :: "gostring \<Rightarrow> gostring" where
  "path_Base p =
     (if p = '''' then ''.''
      else
        (let p = rev (dropWhile (\<lambda>c. c = slash) (rev p));
             p = rev (takeWhile (\<lambda>c. c \<noteq> slash) (rev p))
         in if p = '''' then ''/'' else p))"

text \<open>\<^verbatim>\<open>%02x\<close>-style formatting, \<^verbatim>\<open>strconv.ParseUint(s, 16, 64)\<close>, and the two functions on local paths.\<close>

definition hex_digit :: "nat \<Rightarrow> char" where
  "hex_digit d = (if d < 10 then char_of (48 + d) else char_of (87 + d))"

fun fmt_hex :: "nat \<Rightarrow> gostring" where
  "fmt_hex n = (if n < 16 then [hex_digit n] else fmt_hex (n div 16) @ [hex_digit (n mod 16)])"

declare fmt_hex.simps [simp del]

definition fmt_hex_pad :: "nat \<Rightarrow> nat \<Rightarrow> gostring" where
  "fmt_hex_pad w n = (let s = fmt_hex n in replicate (w - length s) CHR ''0'' @ s)"

definition hex_val :: "char \<Rightarrow> nat option" where
  "hex_val c =
     (let n = of_char c :: nat
      in if 48 \<le> n \<and> n \<le> 57 then Some (n - 48)
         else if 97 \<le> n \<and> n \<le> 102 then Some (n - 87)
         else if 65 \<le> n \<and> n \<le> 70 then Some (n - 55) else None)"

fun parse_hex :: "nat \<Rightarrow> gostring \<Rightarrow> nat option" where
  "parse_hex n [] = Some n"
| "parse_hex n (c # cs) =
     (case hex_val c of
        None \<Rightarrow> None
      | Some d \<Rightarrow> if n * 16 + d < 2 ^ 64 then parse_hex (n * 16 + d) cs else None)"

definition ParseUint_hex :: "gostring \<Rightarrow> u64 option" where
  "ParseUint_hex s = (if s = '''' then None else map_option of_nat (parse_hex 0 s))"

definition filePath :: "gostring \<Rightarrow> u64 \<Rightarrow> gostring" where
  "filePath dir ino =
     path_Join dir (fmt_hex_pad 2 (unat (and ino 0xff)) @ ''/'' @
                    fmt_hex_pad 14 (unat (drop_bit 8 ino)))"

definition parseIno :: "gostring \<Rightarrow> gostring \<Rightarrow> u64 option" where
  "parseIno self_path p =
     (let p = (if prefix self_path p then
                 (let p = drop (length self_path) p
                  in if prefix ''/'' p then drop 1 p else p)
               else ''INV'');
          base = rev (takeWhile (\<lambda>c. c \<noteq> slash) (rev p));
          dir = rev (dropWhile (\<lambda>c. c \<noteq> slash) (rev p));
          dir = (if suffix ''/'' dir then butlast dir else dir)
      in ParseUint_hex (base @ dir))"

text \<open>Names of one path component, and the path of a list of them.\<close>

definition is_name :: "gostring \<Rightarrow> bool" where
  "is_name c \<longleftrightarrow> c \<noteq> '''' \<and> slash \<notin> set c"

definition absolute :: "gostring list \<Rightarrow> gostring" where
  "absolute cs = (if cs = [] then ''/'' else mkpath cs)"

definition plain_name :: "gostring \<Rightarrow> bool" where
  "plain_name c \<longleftrightarrow> is_name c \<and> c \<noteq> ''.'' \<and> c \<noteq> ''..''"

text \<open>
  A catalogue in which no key extends a key with a byte below the slash (such as the minus or the
  full stop of a sibling's name).
\<close>

definition no_low_sibling :: "bytes \<Rightarrow> bytes list \<Rightarrow> bool" where
  "no_low_sibling k ks \<longleftrightarrow>
     k = ''/'' \<or> (\<forall>i \<in> set ks. prefix k i \<and> length k < length i \<longrightarrow> slash \<le> i ! length k)"

subsection \<open>Components\<close>

lemma mkpath_simps [simp]:
  "mkpath [] = ''''" "mkpath (c # cs) = slash # c @ mkpath cs" "mkpath (cs @ ds) = mkpath cs @ mkpath ds"
  by (simp_all add: mkpath_def)

lemma comp_mkpath:
  assumes "is_name c" and "list_all is_name cs"
  shows "takeWhile (\<lambda>c. c \<noteq> slash) (c @ mkpath cs) = c"
    and "dropWhile (\<lambda>c. c \<noteq> slash) (c @ mkpath cs) = mkpath cs"
    and "skip_slashes (mkpath (c # cs)) = c @ mkpath cs"
    and "skip_slashes (c @ mkpath cs) = c @ mkpath cs"
proof -
  have all: "\<forall>x \<in> set c. x \<noteq> slash"
    using assms(1) by (auto simp: is_name_def)
  have hd: "mkpath cs = [] \<or> hd (mkpath cs) = slash"
    by (cases cs) simp_all
  from all show "takeWhile (\<lambda>c. c \<noteq> slash) (c @ mkpath cs) = c"
    by (subst takeWhile_append2) (use hd in \<open>cases cs; auto\<close>)+
  from all show "dropWhile (\<lambda>c. c \<noteq> slash) (c @ mkpath cs) = mkpath cs"
    by (subst dropWhile_append2) (use hd in \<open>cases cs; auto\<close>)+
  show "skip_slashes (mkpath (c # cs)) = c @ mkpath cs" "skip_slashes (c @ mkpath cs) = c @ mkpath cs"
    using all assms(1) by (cases c; auto simp: skip_slashes_def is_name_def)+
qed

lemma components_mkpath: "list_all is_name cs \<Longrightarrow> components (mkpath cs) = cs"
proof (induction cs)
  case Nil
  then show ?case by (subst components.simps) (simp add: skip_slashes_def)
next
  case (Cons c cs)
  then have "is_name c" "list_all is_name cs" by simp_all
  note M = comp_mkpath[OF this]
  have "c \<noteq> ''''"
    using \<open>is_name c\<close> by (simp add: is_name_def)
  then show ?case
    using Cons M by (subst components.simps) (simp add: first_comp_def del: mkpath_simps(2))
qed

text \<open>
  \<^verbatim>\<open>partialPaths\<close> of any string: the root, then the path of every non-empty prefix of its components.
\<close>

lemma components_skip: "components (skip_slashes p) = components p"
proof -
  have "skip_slashes (skip_slashes p) = skip_slashes p"
    by (simp add: skip_slashes_def)
  then show ?thesis
    by (simp add: components.simps[of "skip_slashes p"] components.simps[of p])
qed

lemma components_nonslash:
  assumes "p = [] \<or> hd p \<noteq> slash"
  shows "components p = (if first_comp p = '''' then [] else first_comp p # components (after_comp p))"
proof (cases p)
  case Nil
  then show ?thesis
    by (simp add: components.simps[of "[]"] skip_slashes_def first_comp_def)
next
  case (Cons c r)
  with assms have "c \<noteq> slash" by simp
  with Cons have "skip_slashes p = p" "first_comp p \<noteq> []"
    by (simp_all add: skip_slashes_def first_comp_def)
  moreover from this have "components p = first_comp p # components (dropWhile (\<lambda>c. c \<noteq> slash) p)"
    using Cons by (subst components.simps) (simp only: Let_def, simp)
  ultimately show ?thesis
    by (simp add: after_comp_def components_skip)
qed

lemma hd_skip_slashes: "skip_slashes p = [] \<or> hd (skip_slashes p) \<noteq> slash"
  using hd_dropWhile[of "\<lambda>c. c = slash" p] by (auto simp: skip_slashes_def)

lemma partial_loop_components:
  assumes "p = [] \<or> hd p \<noteq> slash"
  shows "partial_loop (mkpath ds) p =
           map (\<lambda>n. mkpath (ds @ take (Suc n) (components p))) [0..<length (components p)]"
  using assms
proof (induction p arbitrary: ds rule: measure_induct_rule[of length])
  case (less p)
  show ?case
  proof (cases "first_comp p = ''''")
    case True
    then show ?thesis
      using components_nonslash[OF less.prems] by (subst partial_loop.simps) simp
  next
    case False
    have cs: "components p = first_comp p # components (after_comp p)"
      using components_nonslash[OF less.prems] False by simp
    have hd: "after_comp p = [] \<or> hd (after_comp p) \<noteq> slash"
      unfolding after_comp_def by (rule hd_skip_slashes)
    have "partial_loop (mkpath ds) p = mkpath (ds @ [first_comp p]) #
        partial_loop (mkpath (ds @ [first_comp p])) (after_comp p)"
      using False by (subst partial_loop.simps) (simp add: Let_def)
    also have "partial_loop (mkpath (ds @ [first_comp p])) (after_comp p) =
        map (\<lambda>n. mkpath (ds @ [first_comp p] @ take (Suc n) (components (after_comp p))))
          [0..<length (components (after_comp p))]"
      using less.IH[OF after_comp_shorter[OF False] hd, of "ds @ [first_comp p]"] by simp
    finally show ?thesis
      by (simp add: cs upt_conv_Cons map_Suc_upt[symmetric] del: upt_Suc)
  qed
qed

lemma partialPaths_components:
  "partialPaths p =
     ''/'' # map (\<lambda>n. mkpath (take (Suc n) (components p))) [0..<length (components p)]"
  using partial_loop_components[OF hd_skip_slashes, of "[]" p]
  by (simp add: partialPaths_def components_skip)

subsection \<open>Prefixes\<close>

lemma mkpath_prefix_iff:
  assumes "list_all is_name cs" "list_all is_name ds" "ds \<noteq> []"
  shows "(\<exists>r. mkpath cs = mkpath ds @ r \<and> (r = '''' \<or> hd r = slash)) \<longleftrightarrow> prefix ds cs"
  using assms
proof (induction ds arbitrary: cs)
  case (Cons d ds)
  note ds = Cons
  show ?case
  proof (cases cs)
    case Nil
    then show ?thesis by simp
  next
    case (Cons c cs')
    have names: "is_name c" "is_name d" "list_all is_name cs'" "list_all is_name ds"
      using ds(2,3) Cons by simp_all
    show ?thesis
    proof
      assume "\<exists>r. mkpath cs = mkpath (d # ds) @ r \<and> (r = '''' \<or> hd r = slash)"
      then obtain r where r: "c @ mkpath cs' = d @ mkpath ds @ r" "r = '''' \<or> hd r = slash"
        using Cons by auto
      have tail: "mkpath ds @ r = '''' \<or> hd (mkpath ds @ r) = slash"
        using r(2) by (cases ds) auto
      have "takeWhile (\<lambda>x. x \<noteq> slash) (d @ mkpath ds @ r) = d"
        using names(2) tail by (cases "mkpath ds @ r") (auto simp: is_name_def takeWhile_append)
      then have "c = d"
        using comp_mkpath(1)[OF names(1,3)] r(1) by simp
      with r have eq: "mkpath cs' = mkpath ds @ r" by simp
      show "prefix (d # ds) cs"
      proof (cases "ds = []")
        case False
        then have "prefix ds cs'"
          using ds(1)[OF names(3,4)] eq r(2) by blast
        with \<open>c = d\<close> Cons show ?thesis by simp
      qed (use \<open>c = d\<close> Cons in simp)
    next
      assume "prefix (d # ds) cs"
      then obtain es where "cs = (d # ds) @ es"
        by (auto simp: prefix_def)
      then show "\<exists>r. mkpath cs = mkpath (d # ds) @ r \<and> (r = '''' \<or> hd r = slash)"
        by (intro exI[of _ "mkpath es"]) (cases es; simp)
    qed
  qed
qed simp

lemma pathKeyHasPrefix_append:
  "pathKeyHasPrefix a b \<longleftrightarrow>
     (\<exists>r. a = b @ r \<and> (r = '''' \<or> b = ''/'' \<or> hd r = slash))"
proof
  assume P: "pathKeyHasPrefix a b"
  then have eq: "take (length b) a = b" and len: "length b \<le> length a"
    by (simp_all add: pathKeyHasPrefix_def Let_def)
  have a: "a = b @ drop (length b) a"
    using append_take_drop_id[of "length b" a] eq by simp
  have "b = ''/''" if "length b = 1" "b ! 0 = slash"
    using that by (cases b) auto
  moreover have "hd (drop (length b) a) = a ! length b" if "length b < length a"
    using that by (rule hd_drop_conv_nth)
  ultimately have "drop (length b) a = '''' \<or> b = ''/'' \<or> hd (drop (length b) a) = slash"
    using P len by (auto simp: pathKeyHasPrefix_def Let_def)
  with a show "\<exists>r. a = b @ r \<and> (r = '''' \<or> b = ''/'' \<or> hd r = slash)"
    by blast
next
  assume "\<exists>r. a = b @ r \<and> (r = '''' \<or> b = ''/'' \<or> hd r = slash)"
  then obtain r where "a = b @ r" "r = '''' \<or> b = ''/'' \<or> hd r = slash"
    by blast
  then show "pathKeyHasPrefix a b"
    by (cases r) (auto simp: pathKeyHasPrefix_def Let_def nth_append)
qed

lemma pathKeyHasPrefix_refl: "pathKeyHasPrefix k k"
  by (simp add: pathKeyHasPrefix_append)

subsection \<open>Scanning a subtree\<close>

text \<open>In the order of the keys, whatever lies between a key and an extension of it extends it too.\<close>

lemma lex_between:
  fixes k i s :: "'a::linorder list"
  assumes "k \<le> i" and "i \<le> k @ s"
  shows "\<exists>t. i = k @ t \<and> t \<le> s"
  using assms
proof (induction k arbitrary: i)
  case (Cons c k)
  from Cons.prems obtain d j where i: "i = d # j"
    by (cases i) auto
  with Cons.prems have "c = d" "k \<le> j" "j \<le> k @ s"
    by (auto simp: order.antisym split: if_splits)
  with Cons.IH i show ?case by auto
qed simp

lemma lex_prefix_le:
  fixes k r :: "'a::linorder list"
  shows "k \<le> k @ r"
  by (induction k) simp_all

lemma takeWhile_dropWhile_sorted:
  fixes ks :: "'a::linorder list"
  assumes "sorted ks" and "\<And>i. i \<in> set ks \<Longrightarrow> P i \<Longrightarrow> k \<le> i"
    and "\<And>i j. i \<in> set ks \<Longrightarrow> j \<in> set ks \<Longrightarrow> k \<le> i \<Longrightarrow> i \<le> j \<Longrightarrow> P j \<Longrightarrow> P i"
  shows "takeWhile P (dropWhile (\<lambda>i. i < k) ks) = filter P ks"
  using assms
proof (induction ks)
  case (Cons a ks)
  have sorted: "sorted ks" "\<forall>x \<in> set ks. a \<le> x"
    using Cons.prems(1) by simp_all
  have IH: "takeWhile P (dropWhile (\<lambda>i. i < k) ks) = filter P ks"
    using Cons.prems(2,3) by (intro Cons.IH sorted(1)) auto
  show ?case
  proof (cases "a < k")
    case True
    then have "\<not> P a"
      using Cons.prems(2)[of a] by auto
    with True IH show ?thesis by simp
  next
    case False
    then have ge: "k \<le> a" "\<forall>x \<in> set ks. k \<le> x"
      using sorted(2) by auto
    then have drop: "dropWhile (\<lambda>i. i < k) ks = ks"
      by (metis dropWhile_eq_self_iff hd_in_set linorder_not_less)
    show ?thesis
    proof (cases "P a")
      case True
      with False drop IH show ?thesis by simp
    next
      case notP: False
      then have "\<forall>x \<in> set ks. \<not> P x"
        using Cons.prems(3)[of a] ge sorted(2) by auto
      with False notP show ?thesis by simp
    qed
  qed
qed simp

lemma scan_subtree_complete:
  assumes "sorted ks" and "no_low_sibling k ks"
  shows "scan_subtree k ks = filter (\<lambda>i. pathKeyHasPrefix i k) ks"
  unfolding scan_subtree_def
proof (rule takeWhile_dropWhile_sorted[OF assms(1)])
  show "k \<le> i" if "pathKeyHasPrefix i k" for i
    using that lex_prefix_le by (auto simp: pathKeyHasPrefix_append)
next
  fix i j
  assume i: "i \<in> set ks" "k \<le> i" "i \<le> j" and j: "pathKeyHasPrefix j k"
  from j obtain s where s: "j = k @ s" "s = '''' \<or> k = ''/'' \<or> hd s = slash"
    by (auto simp: pathKeyHasPrefix_append)
  obtain t where t: "i = k @ t" "t \<le> s"
    using lex_between[of k i s] i s(1) by auto
  show "pathKeyHasPrefix i k"
  proof (cases "t = '''' \<or> k = ''/''")
    case True
    with t(1) show ?thesis by (auto simp: pathKeyHasPrefix_append)
  next
    case False
    then obtain c r where c: "t = c # r"
      by (cases t) auto
    with assms(2) i(1) t(1) False have "slash \<le> c"
      by (force simp: no_low_sibling_def)
    moreover have "c \<le> slash"
      using t(2) s(2) c False by (cases s) (auto split: if_splits)
    ultimately show ?thesis
      using t(1) c by (auto simp: pathKeyHasPrefix_append)
  qed
qed

subsection \<open>Local file names\<close>

lemma parse_hex_append:
  "parse_hex n (xs @ ys) = (case parse_hex n xs of None \<Rightarrow> None | Some m \<Rightarrow> parse_hex m ys)"
  by (induction xs arbitrary: n) (auto split: option.splits)

lemma hex_val_digit: "d < 16 \<Longrightarrow> hex_val (hex_digit d) = Some d"
  by (simp add: hex_val_def hex_digit_def Let_def)

lemma length_fmt_hex: "m < 16 ^ w \<Longrightarrow> 0 < w \<Longrightarrow> length (fmt_hex m) \<le> w"
proof (induction m arbitrary: w rule: fmt_hex.induct)
  case (1 m)
  show ?case
  proof (cases "m < 16")
    case True
    with 1(3) show ?thesis by (subst fmt_hex.simps) simp
  next
    case False
    obtain v where v: "w = Suc v"
      using 1(3) by (cases w) auto
    with 1(2) False have "0 < v"
      by (cases v) auto
    from v 1(2) have "m div 16 < 16 ^ v" by simp
    with 1(1)[OF False, of v] \<open>0 < v\<close> have "length (fmt_hex (m div 16)) \<le> v" by simp
    with False v show ?thesis by (subst fmt_hex.simps) simp
  qed
qed

lemma parse_fmt_hex:
  "n * 16 ^ length (fmt_hex m) + m < 2 ^ 64 \<Longrightarrow>
   parse_hex n (fmt_hex m) = Some (n * 16 ^ length (fmt_hex m) + m)"
proof (induction m arbitrary: n rule: fmt_hex.induct)
  case (1 m)
  show ?case
  proof (cases "m < 16")
    case True
    then have "fmt_hex m = [hex_digit m]"
      by (subst fmt_hex.simps) simp
    with True 1(2) show ?thesis by (simp add: hex_val_digit)
  next
    case False
    let ?L = "length (fmt_hex (m div 16))"
    have f: "fmt_hex m = fmt_hex (m div 16) @ [hex_digit (m mod 16)]"
      using False by (subst fmt_hex.simps) simp
    have eq: "(n * 16 ^ ?L + m div 16) * 16 + m mod 16 = n * 16 ^ length (fmt_hex m) + m"
      by (simp add: f algebra_simps)
    have "n * 16 ^ ?L + m div 16 \<le> (n * 16 ^ ?L + m div 16) * 16 + m mod 16"
      by simp
    also have "\<dots> < 2 ^ 64"
      using 1(2) by (simp only: eq)
    finally have "parse_hex n (fmt_hex (m div 16)) = Some (n * 16 ^ ?L + m div 16)"
      by (rule 1(1)[OF False])
    with 1(2) eq show ?thesis
      by (simp add: f parse_hex_append hex_val_digit)
  qed
qed

lemma parse_zeros: "n * 16 ^ z < 2 ^ 64 \<Longrightarrow> parse_hex n (replicate z CHR ''0'') = Some (n * 16 ^ z)"
proof (induction z arbitrary: n)
  case (Suc z)
  have "hex_val CHR ''0'' = Some 0"
    by (simp add: hex_val_def)
  moreover have "n * 16 \<le> n * 16 ^ Suc z"
    by simp
  then have "n * 16 < 2 ^ 64"
    using Suc.prems by (rule le_less_trans)
  ultimately show ?case
    using Suc.IH[of "n * 16"] Suc.prems by (simp add: mult.assoc)
qed simp

lemma parse_fmt_hex_pad:
  assumes "m < 16 ^ w" "0 < w" "n * 16 ^ w + m < 2 ^ 64"
  shows "parse_hex n (fmt_hex_pad w m) = Some (n * 16 ^ w + m)" and "length (fmt_hex_pad w m) = w"
proof -
  let ?L = "length (fmt_hex m)"
  have L: "?L \<le> w"
    using assms(1,2) by (rule length_fmt_hex)
  then have w: "n * 16 ^ w = n * 16 ^ (w - ?L) * 16 ^ ?L"
    by (simp add: mult.assoc power_add[symmetric])
  have "n * 16 ^ (w - ?L) \<le> n * 16 ^ w"
    by (simp add: power_increasing)
  then have "parse_hex n (replicate (w - ?L) CHR ''0'') = Some (n * 16 ^ (w - ?L))"
    using assms(3) by (intro parse_zeros) linarith
  moreover have "parse_hex (n * 16 ^ (w - ?L)) (fmt_hex m) = Some (n * 16 ^ w + m)"
    using parse_fmt_hex[of "n * 16 ^ (w - ?L)" m] assms(3) by (simp only: w)
  ultimately show "parse_hex n (fmt_hex_pad w m) = Some (n * 16 ^ w + m)"
    by (simp add: fmt_hex_pad_def Let_def parse_hex_append)
  show "length (fmt_hex_pad w m) = w"
    using L by (simp add: fmt_hex_pad_def Let_def)
qed


lemma hex_digit_plain: "d < 16 \<Longrightarrow> hex_digit d \<noteq> slash \<and> hex_digit d \<noteq> CHR ''.''"
proof -
  assume "d < 16"
  then have "hex_val (hex_digit d) = Some d" by (rule hex_val_digit)
  moreover have "hex_val slash = None" "hex_val CHR ''.'' = None"
    by (simp_all add: hex_val_def)
  ultimately show ?thesis by auto
qed

lemma fmt_hex_plain: "\<forall>c \<in> set (fmt_hex n). c \<noteq> slash \<and> c \<noteq> CHR ''.''"
proof (induction n rule: fmt_hex.induct)
  case (1 n)
  show ?case
  proof (cases "n < 16")
    case True
    then show ?thesis
      by (subst fmt_hex.simps) (simp add: hex_digit_plain)
  next
    case False
    have "fmt_hex n = fmt_hex (n div 16) @ [hex_digit (n mod 16)]"
      using False by (subst fmt_hex.simps) simp
    then show ?thesis
      using 1[OF False] by (simp add: hex_digit_plain)
  qed
qed

lemma fmt_hex_nonempty: "fmt_hex n \<noteq> ''''"
  by (subst fmt_hex.simps) simp

lemma plain_fmt_hex_pad: "plain_name (fmt_hex_pad w n)"
proof -
  have c: "\<forall>c \<in> set (fmt_hex_pad w n). c \<noteq> slash \<and> c \<noteq> CHR ''.''"
    using fmt_hex_plain[of n] by (simp add: fmt_hex_pad_def Let_def ball_Un)
  have "fmt_hex_pad w n \<noteq> ''''"
    by (simp add: fmt_hex_pad_def Let_def fmt_hex_nonempty)
  moreover from c have "slash \<notin> set (fmt_hex_pad w n)" "CHR ''.'' \<notin> set (fmt_hex_pad w n)"
    by auto
  moreover from this(2) have "fmt_hex_pad w n \<noteq> ''.''" "fmt_hex_pad w n \<noteq> ''..''"
    by auto
  ultimately show ?thesis
    by (simp add: plain_name_def is_name_def)
qed

lemma plain_is_name: "list_all plain_name cs \<Longrightarrow> list_all is_name cs"
  by (auto simp: list_all_iff plain_name_def)

lemma foldl_clean_step: "list_all plain_name cs \<Longrightarrow> foldl (clean_step r) out cs = out @ cs"
  by (induction cs arbitrary: out) (auto simp: clean_step_def plain_name_def)

lemma components_slash: "components (slash # p) = components p"
  using components_skip[of "slash # p"] components_skip[of p] by (simp add: skip_slashes_def)

lemma components_names: "list_all is_name (components p)"
proof (induction p rule: components.induct)
  case (1 p)
  have "is_name (first_comp (skip_slashes p))" if "skip_slashes p \<noteq> []"
  proof -
    have "first_comp (skip_slashes p) \<noteq> []"
      using hd_skip_slashes[of p] that by (cases "skip_slashes p") (simp_all add: first_comp_def)
    then show ?thesis
      by (auto simp: is_name_def first_comp_def dest: set_takeWhileD)
  qed
  with 1 show ?case
    by (subst components.simps) (simp add: Let_def)
qed

lemma clean_step_names: "is_name c \<Longrightarrow> list_all is_name out \<Longrightarrow> list_all is_name (clean_step rooted out c)"
  by (auto simp: clean_step_def list_all_iff dest: in_set_butlastD)

lemma clean_names:
  "list_all is_name cs \<Longrightarrow> list_all is_name out \<Longrightarrow> list_all is_name (foldl (clean_step rooted) out cs)"
  by (induction cs arbitrary: out) (simp_all add: clean_step_names)

lemma path_Clean_nonempty: "path_Clean p \<noteq> []"
proof -
  have "tl (mkpath cs) \<noteq> []" if "cs \<noteq> []" "list_all is_name cs" for cs
    using that by (cases cs) (auto simp: mkpath_def is_name_def)
  then have "tl (mkpath cs) \<noteq> [] \<and> mkpath cs \<noteq> []" if "cs \<noteq> []" "list_all is_name cs" for cs
    using that by force
  then show ?thesis
    using clean_names[OF components_names, of "[]"] by (auto simp: path_Clean_def Let_def)
qed

lemma path_Join_nonempty: "b \<noteq> [] \<Longrightarrow> path_Join a b \<noteq> []"
  by (simp add: path_Join_def path_Clean_nonempty)

lemma path_Clean_components:
  assumes "components p = cs" "list_all plain_name cs" "p \<noteq> ''''" "hd p = slash"
  shows "path_Clean p = absolute cs"
  using foldl_clean_step[OF assms(2), of True "[]"] assms(1,3,4)
  by (simp add: path_Clean_def absolute_def Let_def)

lemma path_Join_absolute:
  assumes "list_all plain_name cs" "list_all plain_name ds" "ds \<noteq> []"
  shows "path_Join (absolute cs) (tl (mkpath ds)) = absolute (cs @ ds)"
proof -
  obtain d ds' where ds: "ds = d # ds'"
    using assms(3) by (cases ds) auto
  with assms(2) have nonempty: "tl (mkpath ds) \<noteq> ''''"
    by (auto simp: plain_name_def is_name_def)
  have hd: "hd (absolute cs @ ''/'' @ tl (mkpath ds)) = slash"
    by (cases cs) (simp_all add: absolute_def)
  have "absolute cs @ ''/'' @ tl (mkpath ds) =
      (if cs = [] then slash # mkpath (cs @ ds) else mkpath (cs @ ds))"
    using ds by (simp add: absolute_def)
  moreover have "components (mkpath (cs @ ds)) = cs @ ds"
    by (rule components_mkpath, rule plain_is_name) (use assms in simp)
  ultimately have "components (absolute cs @ ''/'' @ tl (mkpath ds)) = cs @ ds"
    by (cases "cs = []") (simp_all only: components_slash if_True if_False refl)
  then have "path_Clean (absolute cs @ ''/'' @ tl (mkpath ds)) = absolute (cs @ ds)"
    using assms hd by (intro path_Clean_components) simp_all
  moreover have "absolute cs \<noteq> ''''"
    by (cases cs) (simp_all add: absolute_def)
  ultimately show ?thesis
    using nonempty by (simp add: path_Join_def)
qed

lemma filePath_absolute:
  assumes "list_all plain_name cs"
  shows "filePath (absolute cs) ino =
    absolute (cs @ [fmt_hex_pad 2 (unat (and ino 0xff)), fmt_hex_pad 14 (unat (drop_bit 8 ino))])"
  using path_Join_absolute[of cs
      "[fmt_hex_pad 2 (unat (and ino 0xff)), fmt_hex_pad 14 (unat (drop_bit 8 ino))]"] assms
  by (simp add: filePath_def plain_fmt_hex_pad)

lemma unat_low_high:
  fixes w :: u64
  shows "unat (drop_bit 8 w) * 256 + unat (and w 0xff) = unat w"
    and "unat (drop_bit 8 w) < 16 ^ 14" and "unat (and w 0xff) < 16 ^ 2"
proof -
  have hi: "unat (drop_bit 8 w) = unat w div 256"
    by (simp add: drop_bit_eq_div unat_div)
  have "and w 0xff = take_bit 8 w"
    by (simp add: take_bit_eq_mask mask_eq_exp_minus_1)
  then have lo: "unat (and w 0xff) = unat w mod 256"
    by (simp add: take_bit_eq_mod unat_mod)
  show "unat (drop_bit 8 w) * 256 + unat (and w 0xff) = unat w"
    by (simp add: hi lo)
  have "unat w < 2 ^ 64"
    using unsigned_less[of w] by simp
  then show "unat (drop_bit 8 w) < 16 ^ 14"
    by (simp add: hi)
  show "unat (and w 0xff) < 16 ^ 2"
    by (simp add: lo)
qed

lemma split_last_slash:
  assumes "slash \<notin> set b"
  shows "takeWhile (\<lambda>c. c \<noteq> slash) (rev (a @ slash # b)) = rev b"
    and "dropWhile (\<lambda>c. c \<noteq> slash) (rev (a @ slash # b)) = slash # rev a"
proof -
  have b: "\<forall>c \<in> set (rev b). c \<noteq> slash"
    using assms by auto
  show "takeWhile (\<lambda>c. c \<noteq> slash) (rev (a @ slash # b)) = rev b"
    using b by (simp add: takeWhile_append)
  show "dropWhile (\<lambda>c. c \<noteq> slash) (rev (a @ slash # b)) = slash # rev a"
    using b by (simp add: dropWhile_append)
qed

lemma parse_ino_digits:
  "ParseUint_hex (fmt_hex_pad 14 (unat (drop_bit 8 ino)) @ fmt_hex_pad 2 (unat (and ino 0xff))) =
     Some (ino :: u64)"
proof -
  note u = unat_low_high[of ino]
  have lt: "unat ino < 2 ^ 64"
    using unsigned_less[of ino] by simp
  have "unat (drop_bit 8 ino) * 16 ^ 2 + unat (and ino 0xff) = unat ino"
    using u(1) by simp
  with lt have "parse_hex (unat (drop_bit 8 ino)) (fmt_hex_pad 2 (unat (and ino 0xff))) = Some (unat ino)"
    using parse_fmt_hex_pad(1)[OF u(3), of "unat (drop_bit 8 ino)"] by simp
  moreover have "parse_hex 0 (fmt_hex_pad 14 (unat (drop_bit 8 ino))) = Some (unat (drop_bit 8 ino))"
    using parse_fmt_hex_pad(1)[OF u(2), of 0] u(2) by simp
  moreover have "fmt_hex_pad 14 (unat (drop_bit 8 ino)) \<noteq> ''''"
    using plain_fmt_hex_pad[of 14 "unat (drop_bit 8 ino)"] by (simp add: plain_name_def is_name_def)
  ultimately show ?thesis
    by (simp add: ParseUint_hex_def parse_hex_append)
qed

lemma absolute_snoc: "absolute (cs @ [c]) = mkpath cs @ slash # c"
  by (simp add: absolute_def)

lemma parseIno_split:
  assumes "is_name a" "is_name b"
  shows "parseIno (absolute cs) (absolute (cs @ [a, b])) = ParseUint_hex (b @ a)"
proof -
  have names: "a \<noteq> ''''" "slash \<notin> set a" "slash \<notin> set b"
    using assms by (simp_all add: is_name_def)
  then have "\<not> prefix ''/'' (a @ slash # b)"
    by (cases a) auto
  then have strip: "(let p = drop (length (absolute cs)) (absolute (cs @ [a, b]))
                     in if prefix ''/'' p then drop 1 p else p) = a @ slash # b"
    by (cases cs) (simp_all add: absolute_def Let_def)
  have pre: "prefix (absolute cs) (absolute (cs @ [a, b]))"
    by (cases cs) (simp_all add: absolute_def)
  have "suffix ''/'' (a @ ''/'')"
    by (simp add: suffix_def)
  then show ?thesis
    using pre strip split_last_slash[OF names(3), of a] by (simp add: parseIno_def Let_def)
qed

lemma parseIno_own:
  assumes "list_all plain_name cs"
  shows "parseIno (absolute cs) (filePath (absolute cs) ino) = Some ino"
  using parseIno_split[of "fmt_hex_pad 2 (unat (and ino 0xff))" "fmt_hex_pad 14 (unat (drop_bit 8 ino))" cs]
    plain_fmt_hex_pad
  by (simp add: filePath_absolute[OF assms] parse_ino_digits plain_name_def)

subsection \<open>Properties\<close>

text \<open>
  C27. A local cache file name determines its inode: for a cache directory given by a clean absolute
  path, \<^verbatim>\<open>parseIno\<close> reads back from \<^verbatim>\<open>filePath(ino)\<close> exactly the 64-bit inode number, for every one of
  them.  This is what the start-up walk relies on to decide which local files to keep.
\<close>

theorem parseIno_filePath:
  assumes "list_all plain_name cs"
  shows "parseIno (absolute cs) (filePath (absolute cs) ino) = Some ino"
  by (rule parseIno_own[OF assms])

theorem parseIno_filePath_witness:
  "list_all plain_name [''var'', ''cache''] \<and>
   parseIno (absolute [''var'', ''cache'']) (filePath (absolute [''var'', ''cache'']) 0x1234567) = Some 0x1234567"
  using parseIno_filePath[of "[''var'', ''cache'']" "0x1234567"]
  by (simp add: plain_name_def is_name_def)

text \<open>
  \<^verbatim>\<open>partialPaths\<close> lists, for any string, the root and then the path of every prefix of the
  string's components, shortest first: the locks that \<^verbatim>\<open>lockPath\<close> takes are the ancestors of the path
  in top-down order, and the path itself last, however many slashes the string has.
\<close>

theorem partialPaths_prefixes:
  "partialPaths p = map absolute (prefixes (components p)) \<and>
   last (partialPaths p) = absolute (components p)"
proof -
  have nth: "prefixes cs = map (\<lambda>n. take n cs) [0..<Suc (length cs)]" for cs :: "gostring list"
    by (induction cs rule: rev_induct) (auto simp: prefixes_snoc)
  have "partialPaths p = map absolute (map (\<lambda>n. take n (components p)) [0..<Suc (length (components p))])"
    by (subst upt_conv_Cons)
      (auto simp: partialPaths_components absolute_def map_Suc_upt[symmetric] simp del: upt_Suc)
  then have eq: "partialPaths p = map absolute (prefixes (components p))"
    by (simp only: nth)
  then have "last (partialPaths p) = absolute (components p)"
    by (simp add: last_map nth)
  with eq show ?thesis by blast
qed

text \<open>
  \<^verbatim>\<open>pathKeyHasPrefix\<close> decides the ancestor relation of paths: on absolute paths it holds exactly
  when the components of the second path are a prefix of those of the first, the root included; a
  sibling whose name merely begins with the same bytes is not mistaken for a descendant.
\<close>

theorem pathKeyHasPrefix_ancestor:
  assumes "list_all is_name cs" "list_all is_name ds"
  shows "pathKeyHasPrefix (absolute cs) (absolute ds) \<longleftrightarrow> prefix ds cs"
proof (cases "ds = []")
  case True
  then show ?thesis
    by (cases cs) (simp_all add: absolute_def pathKeyHasPrefix_append)
next
  case False
  then obtain d ds' where ds: "ds = d # ds'" "d \<noteq> ''''"
    using assms(2) by (cases ds) (auto simp: is_name_def)
  then have "mkpath ds \<noteq> ''/''" "\<not> (\<exists>r. ''/'' = mkpath ds @ r)"
    by auto
  then show ?thesis
    using mkpath_prefix_iff[OF assms False] False
    by (cases "cs = []") (simp_all add: absolute_def pathKeyHasPrefix_append)
qed

theorem pathKeyHasPrefix_ancestor_witness:
  "list_all is_name [''foo.txt''] \<and> list_all is_name [''foo''] \<and>
   \<not> pathKeyHasPrefix (absolute [''foo.txt'']) (absolute [''foo''])"
  using pathKeyHasPrefix_ancestor[of "[''foo.txt'']" "[''foo'']"] by (simp add: is_name_def)

end
