(* ===== verification/LocalFs.thy ===== *)
theory LocalFs
  imports Paths
begin

text \<open>
  What the cache uses of the packages \<^verbatim>\<open>os\<close>, \<^verbatim>\<open>io\<close> and \<^verbatim>\<open>time\<close>: the local files below the cache
  directory and the clock.

  A name leads to a file number and the number to the data, so that an open file (a \<^verbatim>\<open>*os.File\<close> is
  its file number) keeps its data when its name is removed.  Any call may fail: \<open>os_fault n\<close> says how
  the \<open>n\<close>-th call to the operating system fails, and after how many bytes when it is a write.
  \<open>os_clock n\<close> is what the clock shows at the \<open>n\<close>-th call.  Both are arbitrary, so a theorem that does
  not restrict them holds for every sequence of failures and every clock.

  The position of an open file is not kept: the code reads and writes sequentially only on a file it
  has just opened, from its start.
\<close>

type_synonym fileno = nat

record filedata =
  fd_bytes :: bytes
  fd_mtime :: gotime

record osstate =
  os_files :: "(gostring, fileno) fmap"
  os_dirs :: "gostring fset"
  os_data :: "fileno \<Rightarrow> filedata"
  os_next :: fileno
  os_fault :: "nat \<Rightarrow> (nat \<times> error) option"
  os_clock :: "nat \<Rightarrow> gotime"
  os_calls :: nat

record FileInfo =
  fi_Size :: i64
  fi_ModTime :: gotime

definition os_tick :: "osstate \<Rightarrow> osstate" where
  "os_tick w = w\<lparr>os_calls := Suc (os_calls w)\<rparr>"

definition os_fails :: "osstate \<Rightarrow> error option" where
  "os_fails w = map_option snd (os_fault w (os_calls w))"

definition time_Now :: "osstate \<Rightarrow> gotime \<times> osstate" where
  "time_Now w = (os_clock w (os_calls w), os_tick w)"

definition UnixNano :: "gotime \<Rightarrow> i64" where
  "UnixNano t = word_of_int t"

definition os_IsNotExist :: "error \<Rightarrow> bool" where
  "os_IsNotExist e \<longleftrightarrow> e = OsErr NotExist"

definition filepath_Dir :: "gostring \<Rightarrow> gostring" where
  "filepath_Dir p = path_Clean (rev (dropWhile (\<lambda>c. c \<noteq> slash) (rev p)))"

text \<open>\<^verbatim>\<open>openFile\<close> of an existing file, and with \<^verbatim>\<open>O_CREATE|O_EXCL\<close>.\<close>

definition openFile :: "gostring \<Rightarrow> osstate \<Rightarrow> fileno res \<times> osstate" where
  "openFile p w =
     (case os_fails w of
        Some e \<Rightarrow> (Err e, os_tick w)
      | None \<Rightarrow>
          (case fmlookup (os_files w) p of
             None \<Rightarrow> (Err (OsErr NotExist), os_tick w)
           | Some f \<Rightarrow> (Ok f, os_tick w)))"

definition createFile :: "gostring \<Rightarrow> osstate \<Rightarrow> fileno res \<times> osstate" where
  "createFile p w =
     (case os_fails w of
        Some e \<Rightarrow> (Err e, os_tick w)
      | None \<Rightarrow>
          if fmlookup (os_files w) p \<noteq> None then (Err (OsErr Exist), os_tick w)
          else if filepath_Dir p |\<notin>| os_dirs w then (Err (OsErr NotExist), os_tick w)
          else
            (let f = os_next w;
                 w' = w\<lparr>os_files := fmupd p f (os_files w), os_next := Suc f,
                        os_data := (os_data w)(f := \<lparr>fd_bytes = [], fd_mtime = os_clock w (os_calls w)\<rparr>)\<rparr>
             in (Ok f, os_tick w')))"

definition os_MkdirAll :: "gostring \<Rightarrow> osstate \<Rightarrow> unit res \<times> osstate" where
  "os_MkdirAll p w =
     (case os_fails w of
        Some e \<Rightarrow> (Err e, os_tick w)
      | None \<Rightarrow>
          if list_ex (\<lambda>d. fmlookup (os_files w) d \<noteq> None) (partialPaths p) then (Err (OsErr NotDir), os_tick w)
          else (Ok (), os_tick (w\<lparr>os_dirs := os_dirs w |\<union>| fset_of_list (partialPaths p)\<rparr>)))"

definition os_Remove :: "gostring \<Rightarrow> osstate \<Rightarrow> unit res \<times> osstate" where
  "os_Remove p w =
     (case os_fails w of
        Some e \<Rightarrow> (Err e, os_tick w)
      | None \<Rightarrow>
          if fmlookup (os_files w) p = None then (Err (OsErr NotExist), os_tick w)
          else (Ok (), os_tick (w\<lparr>os_files := fmdrop p (os_files w)\<rparr>)))"

definition os_Chtimes :: "gostring \<Rightarrow> gotime \<Rightarrow> osstate \<Rightarrow> unit res \<times> osstate" where
  "os_Chtimes p mtime w =
     (case os_fails w of
        Some e \<Rightarrow> (Err e, os_tick w)
      | None \<Rightarrow>
          (case fmlookup (os_files w) p of
             None \<Rightarrow> (Err (OsErr NotExist), os_tick w)
           | Some f \<Rightarrow>
               (Ok (), os_tick (w\<lparr>os_data := (os_data w)(f := (os_data w f)\<lparr>fd_mtime := mtime\<rparr>)\<rparr>))))"

text \<open>Writing bytes at an offset of some data: a gap is filled with zero bytes.\<close>

definition write_bytes :: "bytes \<Rightarrow> nat \<Rightarrow> bytes \<Rightarrow> bytes" where
  "write_bytes old off new =
     (if new = [] then old
      else take off old @ replicate (off - length old) (CHR 0x00) @ new @ drop (off + length new) old)"

definition set_data :: "fileno \<Rightarrow> bytes \<Rightarrow> osstate \<Rightarrow> osstate" where
  "set_data f b w =
     w\<lparr>os_data := (os_data w)(f := \<lparr>fd_bytes = b, fd_mtime = os_clock w (os_calls w)\<rparr>)\<rparr>"

text \<open>
  The methods of an open file; \<^verbatim>\<open>ReadAt\<close> and \<^verbatim>\<open>WriteAt\<close> return a count beside the error.  The system call
  below \<^verbatim>\<open>Stat\<close> reports an overflow when the size does not fit a signed 64-bit number.  \<^verbatim>\<open>Read\<close> has the
  position of the file as an argument, and reports the end of the file when there is nothing to read.
\<close>

definition file_Stat :: "fileno \<Rightarrow> osstate \<Rightarrow> FileInfo res \<times> osstate" where
  "file_Stat f w =
     (case os_fails w of
        Some e \<Rightarrow> (Err e, os_tick w)
      | None \<Rightarrow>
          (let n = length (fd_bytes (os_data w f))
           in (if n < 2 ^ 63 then Ok \<lparr>fi_Size = of_nat n, fi_ModTime = fd_mtime (os_data w f)\<rparr>
               else Err (OsErr SizeOverflow),
               os_tick w)))"

definition file_Read :: "fileno \<Rightarrow> nat \<Rightarrow> nat \<Rightarrow> osstate \<Rightarrow> bytes res \<times> osstate" where
  "file_Read f len pos w =
     (case os_fails w of
        Some e \<Rightarrow> (Err e, os_tick w)
      | None \<Rightarrow>
          (let got = take len (drop pos (fd_bytes (os_data w f)))
           in (if got = [] \<and> 0 < len then Err ErrEOF else Ok got, os_tick w)))"

definition file_ReadAt :: "fileno \<Rightarrow> nat \<Rightarrow> i64 \<Rightarrow> osstate \<Rightarrow> (bytes \<times> error option) \<times> osstate" where
  "file_ReadAt f len off w =
     (if sint off < 0 then (([], Some (OsErr NegativeOffset)), w)
      else
        (case os_fails w of
           Some e \<Rightarrow> (([], Some e), os_tick w)
         | None \<Rightarrow>
             (let got = take len (drop (unat off) (fd_bytes (os_data w f)))
              in ((got, if length got < len then Some ErrEOF else None), os_tick w))))"

definition file_WriteAt :: "fileno \<Rightarrow> bytes \<Rightarrow> i64 \<Rightarrow> osstate \<Rightarrow> (nat \<times> error option) \<times> osstate" where
  "file_WriteAt f buf off w =
     (if sint off < 0 then ((0, Some (OsErr NegativeOffset)), w)
      else
        (case os_fault w (os_calls w) of
           Some (k, e) \<Rightarrow>
             ((min k (length buf), Some e),
              os_tick (set_data f (write_bytes (fd_bytes (os_data w f)) (unat off) (take k buf)) w))
         | None \<Rightarrow>
             ((length buf, None),
              os_tick (set_data f (write_bytes (fd_bytes (os_data w f)) (unat off) buf) w))))"

definition file_Truncate :: "fileno \<Rightarrow> i64 \<Rightarrow> osstate \<Rightarrow> unit res \<times> osstate" where
  "file_Truncate f sz w =
     (case os_fails w of
        Some e \<Rightarrow> (Err e, os_tick w)
      | None \<Rightarrow>
          if sint sz < 0 then (Err (OsErr InvalidSize), os_tick w)
          else
            (let b = fd_bytes (os_data w f); n = unat sz
             in (Ok (), os_tick (set_data f (take n b @ replicate (n - length b) (CHR 0x00)) w))))"

definition file_Sync :: "fileno \<Rightarrow> osstate \<Rightarrow> unit res \<times> osstate" where
  "file_Sync f w = (case os_fails w of Some e \<Rightarrow> (Err e, os_tick w) | None \<Rightarrow> (Ok (), os_tick w))"

text \<open>
  \<^verbatim>\<open>io.Copy\<close> of a stream into a file that has just been opened: the stream delivers its bytes, then
  ends or fails.  The bytes go over the start of what the file already holds.  \<^verbatim>\<open>io.CopyN\<close> stops after
  \<open>n\<close> bytes, and returns \<^verbatim>\<open>io.EOF\<close> when the stream ends before that.
\<close>

type_synonym stream = "bytes \<times> error option"

definition copy_bytes :: "fileno \<Rightarrow> bytes \<Rightarrow> osstate \<Rightarrow> error option \<times> osstate" where
  "copy_bytes f b w =
     (if b = [] then (None, w) else (let ((n, e), w) = file_WriteAt f b 0 w in (e, w)))"

definition io_Copy :: "fileno \<Rightarrow> stream \<Rightarrow> osstate \<Rightarrow> error option \<times> osstate" where
  "io_Copy f r w =
     (case copy_bytes f (fst r) w of (Some e, w) \<Rightarrow> (Some e, w) | (None, w) \<Rightarrow> (snd r, w))"

definition io_CopyN :: "fileno \<Rightarrow> stream \<Rightarrow> i64 \<Rightarrow> osstate \<Rightarrow> error option \<times> osstate" where
  "io_CopyN f r sz w =
     (let n = nat (sint sz)
      in case copy_bytes f (take n (fst r)) w of
           (Some e, w) \<Rightarrow> (Some e, w)
         | (None, w) \<Rightarrow>
             if int (length (fst r)) < sint sz
             then (case snd r of Some e \<Rightarrow> (Some e, w) | None \<Rightarrow> (Some ErrEOF, w))
             else (None, w))"

text \<open>Reading the whole of a file that has just been opened.\<close>

definition read_file :: "fileno \<Rightarrow> osstate \<Rightarrow> bytes res \<times> osstate" where
  "read_file f w =
     (case os_fails w of Some e \<Rightarrow> (Err e, os_tick w) | None \<Rightarrow> (Ok (fd_bytes (os_data w f)), os_tick w))"

text \<open>\<^verbatim>\<open>hashFile\<close>, over the hash function \<open>sha256\<close>.\<close>

definition hashFile :: "(bytes \<Rightarrow> bytes) \<Rightarrow> gostring \<Rightarrow> osstate \<Rightarrow> bytes res \<times> osstate" where
  "hashFile sha256 p w =
     (case openFile p w of
        (Ok file, w) \<Rightarrow>
          (case read_file file w of
             (Ok b, w) \<Rightarrow> (Ok (sha256 b), w)
           | (Err e, w) \<Rightarrow> (Err e, w)
           | (Panic q, w) \<Rightarrow> (Panic q, w))
      | (Err e, w) \<Rightarrow> (Err e, w)
      | (Panic q, w) \<Rightarrow> (Panic q, w))"

end
