(* ===== verification/Node.thy ===== *)
theory Node
  imports LocalFs "HOL-Library.Monad_Syntax"
begin

text \<open>
  The nodes of \<^verbatim>\<open>src/cache/node.go\<close>: the record \<^verbatim>\<open>node_t\<close>, \<^verbatim>\<open>CopyStat\<close>, \<^verbatim>\<open>Stat\<close>, the reference count, and
  the binary format in which a node is stored, \<^verbatim>\<open>Encode\<close> and \<^verbatim>\<open>Decode\<close> with the functions they put
  and get the fields with.

  A buffer is a list of bytes that the put functions update in place; an index out of range, a panic
  in Go, is \<^const>\<open>None\<close> of the put and get functions.  \<^verbatim>\<open>Encode\<close> lets such a panic through, \<^verbatim>\<open>Decode\<close>
  recovers from it and returns \<^verbatim>\<open>EIO\<close>.
\<close>

unbundle bit_operations_syntax

record ObjectInfo =
  oi_Name :: gostring
  oi_Size :: i64
  oi_Btime :: gotime
  oi_Mtime :: gotime
  oi_IsDir :: bool
  oi_Sig :: gostring

record node =
  Ino :: u64
  Path :: gostring
  Size :: i64
  Btime :: gotime
  Mtime :: gotime
  IsDir :: bool
  Sig :: gostring
  Hash :: bytes
  Valid :: bool
  Deleted :: bool
  File :: "fileno option"
  refcnt :: int

text \<open>\<^verbatim>\<open>node_t{}\<close>; the zero \<^verbatim>\<open>time.Time\<close> is the first of January of the year 1.\<close>

definition zero_time :: gotime where
  "zero_time = - 62135596800 * 1000000000"

definition node0 :: node where
  "node0 =
     \<lparr>Ino = 0, Path = '''', Size = 0, Btime = zero_time, Mtime = zero_time, IsDir = False, Sig = '''',
      Hash = [], Valid = False, Deleted = False, File = None, refcnt = 0\<rparr>"

definition CopyStat :: "ObjectInfo \<Rightarrow> node \<Rightarrow> node" where
  "CopyStat info n =
     n\<lparr>Size := oi_Size info, Btime := oi_Btime info, Mtime := oi_Mtime info,
       IsDir := oi_IsDir info, Sig := oi_Sig info, Valid := True\<rparr>"

definition bad_node :: "node \<Rightarrow> bool" where
  "bad_node n \<longleftrightarrow> 0 = Ino n \<or> '''' = Path n \<or> \<not> Valid n \<or> Deleted n"

definition node_Stat :: "node \<Rightarrow> osstate \<Rightarrow> ObjectInfo res \<times> osstate" where
  "node_Stat n w =
     (if bad_node n then (Panic (PanicErrno EINVAL), w)
      else
        (let info = \<lparr>oi_Name = path_Base (Path n), oi_Size = Size n, oi_Btime = Btime n,
                     oi_Mtime = Mtime n, oi_IsDir = IsDir n, oi_Sig = Sig n\<rparr>
         in case File n of
              None \<Rightarrow> (Ok info, w)
            | Some file \<Rightarrow>
                (case file_Stat file w of
                   (Ok fi, w) \<Rightarrow> (Ok (info\<lparr>oi_Size := fi_Size fi, oi_Mtime := fi_ModTime fi\<rparr>), w)
                 | (Err e, w) \<Rightarrow> (Err e, w)
                 | (Panic q, w) \<Rightarrow> (Panic q, w))))"

definition Reference :: "node \<Rightarrow> node" where
  "Reference n = n\<lparr>refcnt := refcnt n + 1\<rparr>"

definition Dereference :: "node \<Rightarrow> int \<times> node" where
  "Dereference n = (refcnt n - 1, n\<lparr>refcnt := refcnt n - 1\<rparr>)"

text \<open>A byte of a word, and a word from a byte.\<close>

definition byte :: "'a::len word \<Rightarrow> char" where
  "byte w = char_of (unat w)"

definition unbyte :: "char \<Rightarrow> 'a::len word" where
  "unbyte c = of_nat (of_char c)"

definition store :: "bytes \<Rightarrow> nat \<Rightarrow> char \<Rightarrow> bytes option" where
  "store b i c = (if i < length b then Some (b[i := c]) else None)"

definition fetch :: "bytes \<Rightarrow> nat \<Rightarrow> char option" where
  "fetch b i = (if i < length b then Some (b ! i) else None)"

definition putUint8 :: "bytes \<Rightarrow> nat \<Rightarrow> u8 \<Rightarrow> (bytes \<times> nat) option" where
  "putUint8 b i v = do { b \<leftarrow> store b i (byte v); Some (b, i + 1) }"

definition putUint16 :: "bytes \<Rightarrow> nat \<Rightarrow> u16 \<Rightarrow> (bytes \<times> nat) option" where
  "putUint16 b i v =
     do { b \<leftarrow> store b (i + 0) (byte (drop_bit 8 v)); b \<leftarrow> store b (i + 1) (byte v); Some (b, i + 2) }"

definition putUint32 :: "bytes \<Rightarrow> nat \<Rightarrow> u32 \<Rightarrow> (bytes \<times> nat) option" where
  "putUint32 b i v =
     do { b \<leftarrow> store b (i + 0) (byte (drop_bit 24 v)); b \<leftarrow> store b (i + 1) (byte (drop_bit 16 v));
          b \<leftarrow> store b (i + 2) (byte (drop_bit 8 v)); b \<leftarrow> store b (i + 3) (byte v); Some (b, i + 4) }"

definition putUint64 :: "bytes \<Rightarrow> nat \<Rightarrow> u64 \<Rightarrow> (bytes \<times> nat) option" where
  "putUint64 b i v =
     do { b \<leftarrow> store b (i + 0) (byte (drop_bit 56 v)); b \<leftarrow> store b (i + 1) (byte (drop_bit 48 v));
          b \<leftarrow> store b (i + 2) (byte (drop_bit 40 v)); b \<leftarrow> store b (i + 3) (byte (drop_bit 32 v));
          b \<leftarrow> store b (i + 4) (byte (drop_bit 24 v)); b \<leftarrow> store b (i + 5) (byte (drop_bit 16 v));
          b \<leftarrow> store b (i + 6) (byte (drop_bit 8 v)); b \<leftarrow> store b (i + 7) (byte v); Some (b, i + 8) }"

definition putTime :: "bytes \<Rightarrow> nat \<Rightarrow> gotime \<Rightarrow> (bytes \<times> nat) option" where
  "putTime b i v = putUint64 b i (UnixNano v)"

text \<open>The built-in \<^verbatim>\<open>copy(b[i:], s)\<close>: as many bytes as fit; \<^verbatim>\<open>b[i:]\<close> panics beyond the end.\<close>

definition copy_at :: "bytes \<Rightarrow> nat \<Rightarrow> bytes \<Rightarrow> (bytes \<times> nat) option" where
  "copy_at b i s =
     (if length b < i then None
      else let n = min (length s) (length b - i) in Some (take i b @ take n s @ drop (i + n) b, n))"

definition putString :: "bytes \<Rightarrow> nat \<Rightarrow> gostring \<Rightarrow> nat \<Rightarrow> (bytes \<times> nat) option" where
  "putString b i v maxlen =
     (let maxlen = (if maxlen > length v then length v else maxlen)
      in do { (b, n) \<leftarrow> copy_at b i (take maxlen v); Some (b, i + n) })"

definition putBytes :: "bytes \<Rightarrow> nat \<Rightarrow> bytes \<Rightarrow> nat \<Rightarrow> (bytes \<times> nat) option" where
  "putBytes b i v maxlen =
     (let maxlen = (if maxlen > length v then length v else maxlen)
      in do { (b, n) \<leftarrow> copy_at b i (take maxlen v); Some (b, i + n) })"

definition getUint8 :: "bytes \<Rightarrow> nat \<Rightarrow> (nat \<times> u8) option" where
  "getUint8 b i = do { x \<leftarrow> fetch b i; Some (i + 1, unbyte x) }"

definition getUint16 :: "bytes \<Rightarrow> nat \<Rightarrow> (nat \<times> u16) option" where
  "getUint16 b i =
     do { x0 \<leftarrow> fetch b i; x1 \<leftarrow> fetch b (i + 1);
          Some (i + 2, push_bit 8 (unbyte x0) OR unbyte x1) }"

definition getUint32 :: "bytes \<Rightarrow> nat \<Rightarrow> (nat \<times> u32) option" where
  "getUint32 b i =
     do { x0 \<leftarrow> fetch b i; x1 \<leftarrow> fetch b (i + 1); x2 \<leftarrow> fetch b (i + 2); x3 \<leftarrow> fetch b (i + 3);
          Some (i + 4, push_bit 24 (unbyte x0) OR push_bit 16 (unbyte x1) OR
                       push_bit 8 (unbyte x2) OR unbyte x3) }"

definition getUint64 :: "bytes \<Rightarrow> nat \<Rightarrow> (nat \<times> u64) option" where
  "getUint64 b i =
     do { x0 \<leftarrow> fetch b i; x1 \<leftarrow> fetch b (i + 1); x2 \<leftarrow> fetch b (i + 2); x3 \<leftarrow> fetch b (i + 3);
          x4 \<leftarrow> fetch b (i + 4); x5 \<leftarrow> fetch b (i + 5); x6 \<leftarrow> fetch b (i + 6); x7 \<leftarrow> fetch b (i + 7);
          Some (i + 8,
                push_bit 56 (unbyte x0) OR push_bit 48 (unbyte x1) OR push_bit 40 (unbyte x2) OR
                push_bit 32 (unbyte x3) OR push_bit 24 (unbyte x4) OR push_bit 16 (unbyte x5) OR
                push_bit 8 (unbyte x6) OR unbyte x7) }"

definition getTime :: "bytes \<Rightarrow> nat \<Rightarrow> (nat \<times> gotime) option" where
  "getTime b i = do { (i, v) \<leftarrow> getUint64 b i; Some (i, sint v) }"

text \<open>
  A slice has a length and a capacity: reading \<^verbatim>\<open>b[i]\<close> is bounded by the length, but the slice expression \<^verbatim>\<open>b[i:i+l]\<close>
  by the capacity.  \<open>spare\<close> are the bytes of the underlying array between the two.
\<close>

definition getString :: "bytes \<Rightarrow> bytes \<Rightarrow> nat \<Rightarrow> nat \<Rightarrow> (nat \<times> gostring) option" where
  "getString b spare i l = (if i + l \<le> length (b @ spare) then Some (i + l, take l (drop i (b @ spare))) else None)"

definition getBytes :: "bytes \<Rightarrow> bytes \<Rightarrow> nat \<Rightarrow> nat \<Rightarrow> (nat \<times> bytes) option" where
  "getBytes b spare i l = (if i + l \<le> length (b @ spare) then Some (i + l, take l (drop i (b @ spare))) else None)"

definition EncodeLen :: "node \<Rightarrow> nat" where
  "EncodeLen n =
     (let lp = length (Path n); ls = length (Sig n); lh = length (Hash n)
      in 8 + 8 + 8 + 8 + 2 + 2 + 1 + 1 + lp + ls + lh)"

definition encode_fields :: "node \<Rightarrow> bytes \<Rightarrow> (bytes \<times> nat) option" where
  "encode_fields n b =
     (let isdir = (if IsDir n then 1 else 0);
          lp = length (Path n); ls = length (Sig n); lh = length (Hash n)
      in do { (b, i) \<leftarrow> putUint64 b 0 (Ino n);
              (b, i) \<leftarrow> putUint64 b i (Size n);
              (b, i) \<leftarrow> putTime b i (Btime n);
              (b, i) \<leftarrow> putTime b i (Mtime n);
              (b, i) \<leftarrow> putUint16 b i (of_nat lp);
              (b, i) \<leftarrow> putUint16 b i (of_nat ls);
              (b, i) \<leftarrow> putUint8 b i isdir;
              (b, i) \<leftarrow> putUint8 b i (of_nat lh);
              (b, i) \<leftarrow> putString b i (Path n) (2 ^ 16 - 1);
              (b, i) \<leftarrow> putString b i (Sig n) (2 ^ 16 - 1);
              putBytes b i (Hash n) (2 ^ 8 - 1) })"

definition Encode :: "node \<Rightarrow> bytes \<Rightarrow> bytes res" where
  "Encode n b =
     (if bad_node n then Panic (PanicErrno EINVAL)
      else case encode_fields n b of None \<Rightarrow> Panic PanicRuntime | Some (b, i) \<Rightarrow> Ok (take i b))"

definition decode_fields :: "bytes \<Rightarrow> bytes \<Rightarrow> node \<Rightarrow> node option" where
  "decode_fields b spare n =
     do { (i, ino) \<leftarrow> getUint64 b 0;
          (i, sz) \<leftarrow> getUint64 b i;
          (i, btime) \<leftarrow> getTime b i;
          (i, mtime) \<leftarrow> getTime b i;
          (i, lp) \<leftarrow> getUint16 b i;
          (i, ls) \<leftarrow> getUint16 b i;
          (i, isdir) \<leftarrow> getUint8 b i;
          (i, lh) \<leftarrow> getUint8 b i;
          (i, p) \<leftarrow> getString b spare i (unat lp);
          (i, sig) \<leftarrow> getString b spare i (unat ls);
          (i, hash) \<leftarrow> getBytes b spare i (unat lh);
          Some (n\<lparr>Ino := ino, Size := sz, Btime := btime, Mtime := mtime, IsDir := (0 \<noteq> isdir),
                  Path := p, Sig := sig, Hash := hash, Valid := True\<rparr>) }"

definition Decode_slice :: "bytes \<Rightarrow> bytes \<Rightarrow> node \<Rightarrow> node res" where
  "Decode_slice b spare n = (case decode_fields b spare n of None \<Rightarrow> Err (ErrnoErr EIO) | Some n \<Rightarrow> Ok n)"

text \<open>
  The values that \<^verbatim>\<open>Decode\<close> is called with come from the database, which delivers slices whose capacity is their
  length.
\<close>

definition Decode :: "bytes \<Rightarrow> node \<Rightarrow> node res" where
  "Decode b n = Decode_slice b [] n"

text \<open>
  The layout of an encoding, field by field; the nodes whose fields fit into it; and the persistent
  part of a node laid over another.
\<close>

definition be16 :: "u16 \<Rightarrow> bytes" where
  "be16 v = [byte (drop_bit 8 v), byte v]"

definition be64 :: "u64 \<Rightarrow> bytes" where
  "be64 v =
     [byte (drop_bit 56 v), byte (drop_bit 48 v), byte (drop_bit 40 v), byte (drop_bit 32 v),
      byte (drop_bit 24 v), byte (drop_bit 16 v), byte (drop_bit 8 v), byte v]"

definition layout :: "node \<Rightarrow> bytes" where
  "layout n =
     be64 (Ino n) @ be64 (Size n) @ be64 (UnixNano (Btime n)) @ be64 (UnixNano (Mtime n)) @
     be16 (of_nat (length (Path n))) @ be16 (of_nat (length (Sig n))) @
     [byte (if IsDir n then 1 else 0 :: u8), byte (of_nat (length (Hash n)) :: u8)] @
     take (2 ^ 16 - 1) (Path n) @ take (2 ^ 16 - 1) (Sig n) @ take (2 ^ 8 - 1) (Hash n)"

definition int64_time :: "gotime \<Rightarrow> bool" where
  "int64_time t \<longleftrightarrow> - (2 ^ 63) \<le> t \<and> t < 2 ^ 63"

definition encodable :: "node \<Rightarrow> bool" where
  "encodable n \<longleftrightarrow>
     \<not> bad_node n \<and> length (Path n) < 2 ^ 16 \<and> length (Sig n) < 2 ^ 16 \<and> length (Hash n) < 2 ^ 8 \<and>
     int64_time (Btime n) \<and> int64_time (Mtime n)"

definition persist :: "node \<Rightarrow> node \<Rightarrow> node" where
  "persist n m =
     m\<lparr>Ino := Ino n, Size := Size n, Btime := Btime n, Mtime := Mtime n, IsDir := IsDir n,
       Path := Path n, Sig := Sig n, Hash := Hash n, Valid := True\<rparr>"

definition header :: "u64 \<Rightarrow> u64 \<Rightarrow> u64 \<Rightarrow> u64 \<Rightarrow> u16 \<Rightarrow> u16 \<Rightarrow> u8 \<Rightarrow> u8 \<Rightarrow> bytes" where
  "header ino sz bt mt lp ls d lh =
     be64 ino @ be64 sz @ be64 bt @ be64 mt @ be16 lp @ be16 ls @ [byte d, byte lh]"

text \<open>A concrete node, for the witnesses.\<close>

definition demo_node :: node where
  "demo_node = node0\<lparr>Ino := 7, Path := ''/a/b'', Size := 3, Btime := 1000, Mtime := 2000, Sig := ''s1'',
                    Hash := ''hh'', Valid := True\<rparr>"

subsection \<open>Bytes and words\<close>

lemma unbyte_byte: "unbyte (byte w) = take_bit 8 (w :: 'a::len word)"
proof -
  have "of_nat (unat (take_bit 8 w)) = take_bit 8 w"
    by simp
  then have "of_nat (take_bit 8 (unat w)) = take_bit 8 w"
    by (simp only: unsigned_take_bit_eq)
  then show ?thesis
    by (simp add: unbyte_def byte_def take_bit_eq_mod)
qed

lemma byte_join:
  "push_bit k (take_bit 8 (drop_bit k v)) OR take_bit k v = take_bit (k + 8) (v :: 'a::len word)"
  by (rule bit_word_eqI) (auto simp: bit_simps)

lemmas byte_joins =
  byte_join[of 8, simplified] byte_join[of 16, simplified] byte_join[of 24, simplified]
  byte_join[of 32, simplified] byte_join[of 40, simplified] byte_join[of 48, simplified]
  byte_join[of 56, simplified]

lemma join_be64:
  "push_bit 56 (unbyte (byte (drop_bit 56 v))) OR push_bit 48 (unbyte (byte (drop_bit 48 v))) OR
   push_bit 40 (unbyte (byte (drop_bit 40 v))) OR push_bit 32 (unbyte (byte (drop_bit 32 v))) OR
   push_bit 24 (unbyte (byte (drop_bit 24 v))) OR push_bit 16 (unbyte (byte (drop_bit 16 v))) OR
   push_bit 8 (unbyte (byte (drop_bit 8 v))) OR unbyte (byte v) = (v :: u64)"
  by (simp only: unbyte_byte byte_joins) (simp add: take_bit_word_eq_self)

lemma join_be16:
  "push_bit 8 (unbyte (byte (drop_bit 8 v))) OR unbyte (byte v) = (v :: u16)"
  by (simp only: unbyte_byte byte_joins) (simp add: take_bit_word_eq_self)

lemma join_be8: "unbyte (byte v) = (v :: u8)"
  by (simp only: unbyte_byte) (simp add: take_bit_word_eq_self)

subsection \<open>Putting and getting one field\<close>

text \<open>
  A field is put at the end of what is written already, over as many bytes of the rest of the buffer,
  and is got back from there whatever follows.
\<close>

lemma list_ge8:
  assumes "8 \<le> length ys"
  obtains a b c d e f g h zs where "ys = a # b # c # d # e # f # g # h # zs"
proof -
  have "8 = Suc (Suc (Suc (Suc (Suc (Suc (Suc (Suc 0)))))))"
    by simp
  with assms show ?thesis
    using that by (auto simp only: Suc_le_length_iff)
qed

lemma store_at:
  "store (xs @ ys) (length xs + k) d = map_option (\<lambda>zs. xs @ zs) (store ys k d)"
  by (simp add: store_def list_update_append)

lemma fetch_at: "fetch (xs @ ys) (length xs + k) = fetch ys k"
  by (simp add: fetch_def nth_append)

lemma length_be [simp]: "length (be16 v) = 2" "length (be64 w) = 8"
  by (simp_all add: be16_def be64_def)

lemma put_at [codec_simps]:
  "length xs = i \<Longrightarrow> 1 \<le> length ys \<Longrightarrow>
     putUint8 (xs @ ys) i v1 = Some ((xs @ [byte v1]) @ drop 1 ys, i + 1)"
  "length xs = i \<Longrightarrow> 2 \<le> length ys \<Longrightarrow>
     putUint16 (xs @ ys) i v2 = Some ((xs @ be16 v2) @ drop 2 ys, i + 2)"
  "length xs = i \<Longrightarrow> 8 \<le> length ys \<Longrightarrow>
     putUint64 (xs @ ys) i v8 = Some ((xs @ be64 v8) @ drop 8 ys, i + 8)"
proof -
  show "putUint8 (xs @ ys) i v1 = Some ((xs @ [byte v1]) @ drop 1 ys, i + 1)"
    if "length xs = i" "1 \<le> length ys"
    using that store_at[of xs ys 0 "byte v1"] by (cases ys) (auto simp: putUint8_def store_def)
  show "putUint16 (xs @ ys) i v2 = Some ((xs @ be16 v2) @ drop 2 ys, i + 2)"
    if "length xs = i" "2 \<le> length ys"
    using that by (cases ys; cases "tl ys") (auto simp: putUint16_def store_def list_update_append be16_def)
  show "putUint64 (xs @ ys) i v8 = Some ((xs @ be64 v8) @ drop 8 ys, i + 8)"
    if "length xs = i" "8 \<le> length ys"
    using that(2) that(1)
    by (elim list_ge8) (auto simp: putUint64_def store_def list_update_append be64_def)
qed

lemma get_at [codec_simps]:
  "length xs = i \<Longrightarrow> getUint8 (xs @ byte v1 # ys) i = Some (i + 1, v1)"
  "length xs = i \<Longrightarrow> getUint16 (xs @ be16 v2 @ ys) i = Some (i + 2, v2)"
  "length xs = i \<Longrightarrow> getUint64 (xs @ be64 v8 @ ys) i = Some (i + 8, v8)"
proof -
  show "getUint8 (xs @ byte v1 # ys) i = Some (i + 1, v1)" if "length xs = i"
    using that by (auto simp: getUint8_def fetch_def join_be8)
  show "getUint16 (xs @ be16 v2 @ ys) i = Some (i + 2, v2)" if "length xs = i"
    using that by (auto simp: getUint16_def fetch_def be16_def nth_append join_be16)
  show "getUint64 (xs @ be64 v8 @ ys) i = Some (i + 8, v8)" if "length xs = i"
    using that by (auto simp: getUint64_def fetch_def be64_def nth_append join_be64)
qed

lemma put_bytes_at [codec_simps]:
  "length xs = i \<Longrightarrow> length v \<le> length ys \<Longrightarrow>
     putString (xs @ ys) i v m = Some ((xs @ take m v) @ drop (min (length v) m) ys, i + min (length v) m)"
  "length xs = i \<Longrightarrow> length v \<le> length ys \<Longrightarrow>
     putBytes (xs @ ys) i v m = Some ((xs @ take m v) @ drop (min (length v) m) ys, i + min (length v) m)"
  by (auto simp: putString_def putBytes_def copy_at_def Let_def min_def)

lemma get_bytes_at [codec_simps]:
  "length xs = i \<Longrightarrow> length v = l \<Longrightarrow> getString (xs @ v @ ys) spare i l = Some (i + l, v)"
  "length xs = i \<Longrightarrow> length v = l \<Longrightarrow> getBytes (xs @ v @ ys) spare i l = Some (i + l, v)"
  by (auto simp: getString_def getBytes_def)

lemma time_at [codec_simps]:
  "length xs = i \<Longrightarrow> 8 \<le> length ys \<Longrightarrow>
     putTime (xs @ ys) i t = Some ((xs @ be64 (UnixNano t)) @ drop 8 ys, i + 8)"
  "length xs = i \<Longrightarrow> getTime (xs @ be64 v @ ys) i = Some (i + 8, sint v)"
  by (simp_all add: putTime_def getTime_def put_at get_at)

lemma put_at0: "8 \<le> length ys \<Longrightarrow> putUint64 ys 0 v8 = Some (be64 v8 @ drop 8 ys, 8)"
  using put_at(3)[of "[]" 0 ys v8] by simp

subsection \<open>Whole nodes\<close>

lemma length_layout:
  "length (layout n) =
     38 + min (length (Path n)) (2 ^ 16 - 1) + min (length (Sig n)) (2 ^ 16 - 1) +
     min (length (Hash n)) (2 ^ 8 - 1)"
  by (simp add: layout_def)

lemma encode_layout:
  assumes "length b = EncodeLen n"
  shows "\<exists>r. encode_fields n b = Some (layout n @ r, length (layout n))"
  using assms unfolding encode_fields_def EncodeLen_def Let_def
  by (simp add: put_at put_at0 put_bytes_at time_at del: append_assoc)
    (simp add: layout_def)

text \<open>Reading the fields of an encoding, whatever the lengths in its header say.\<close>

lemma length_header [simp]: "length (header ino sz bt mt lp ls d lh) = 38"
  by (simp add: header_def)

lemma get_header:
  fixes ino sz bt mt lp ls d lh r
  defines "b \<equiv> header ino sz bt mt lp ls d lh @ r"
  shows "getUint64 b 0 = Some (8, ino)" "getUint64 b 8 = Some (16, sz)"
    "getTime b 16 = Some (24, sint bt)" "getTime b 24 = Some (32, sint mt)"
    "getUint16 b 32 = Some (34, lp)" "getUint16 b 34 = Some (36, ls)"
    "getUint8 b 36 = Some (37, d)" "getUint8 b 37 = Some (38, lh)"
proof -
  show "getUint64 b 0 = Some (8, ino)"
    using get_at(3)[of "[]" 0 ino "be64 sz @ be64 bt @ be64 mt @ be16 lp @ be16 ls @ [byte d, byte lh] @ r"]
    by (simp add: b_def header_def)
  show "getUint64 b 8 = Some (16, sz)"
    using get_at(3)[of "be64 ino" 8 sz "be64 bt @ be64 mt @ be16 lp @ be16 ls @ [byte d, byte lh] @ r"]
    by (simp add: b_def header_def)
  show "getTime b 16 = Some (24, sint bt)"
    using time_at(2)[of "be64 ino @ be64 sz" 16 bt "be64 mt @ be16 lp @ be16 ls @ [byte d, byte lh] @ r"]
    by (simp add: b_def header_def)
  show "getTime b 24 = Some (32, sint mt)"
    using time_at(2)[of "be64 ino @ be64 sz @ be64 bt" 24 mt "be16 lp @ be16 ls @ [byte d, byte lh] @ r"]
    by (simp add: b_def header_def)
  show "getUint16 b 32 = Some (34, lp)"
    using get_at(2)[of "be64 ino @ be64 sz @ be64 bt @ be64 mt" 32 lp "be16 ls @ [byte d, byte lh] @ r"]
    by (simp add: b_def header_def)
  show "getUint16 b 34 = Some (36, ls)"
    using get_at(2)[of "be64 ino @ be64 sz @ be64 bt @ be64 mt @ be16 lp" 34 ls "[byte d, byte lh] @ r"]
    by (simp add: b_def header_def)
  show "getUint8 b 36 = Some (37, d)"
    using get_at(1)[of "be64 ino @ be64 sz @ be64 bt @ be64 mt @ be16 lp @ be16 ls" 36 d "byte lh # r"]
    by (simp add: b_def header_def)
  show "getUint8 b 37 = Some (38, lh)"
    using get_at(1)[of "be64 ino @ be64 sz @ be64 bt @ be64 mt @ be16 lp @ be16 ls @ [byte d]" 37 lh r]
    by (simp add: b_def header_def)
qed

lemma decode_header:
  "decode_fields (header ino sz bt mt lp ls d lh @ r) spare n =
     (let lp = unat lp; ls = unat ls; lh = unat lh
      in if lp + ls + lh \<le> length (r @ spare)
         then Some (n\<lparr>Ino := ino, Size := sz, Btime := sint bt, Mtime := sint mt, IsDir := (0 \<noteq> d),
                      Path := take lp (r @ spare), Sig := take ls (drop lp (r @ spare)),
                      Hash := take lh (drop (lp + ls) (r @ spare)), Valid := True\<rparr>)
         else None)"
  by (simp add: decode_fields_def get_header getString_def getBytes_def Let_def drop_append)

lemma layout_header:
  "layout n =
     header (Ino n) (Size n) (UnixNano (Btime n)) (UnixNano (Mtime n)) (of_nat (length (Path n)))
       (of_nat (length (Sig n))) (if IsDir n then 1 else 0) (of_nat (length (Hash n))) @
     take (2 ^ 16 - 1) (Path n) @ take (2 ^ 16 - 1) (Sig n) @ take (2 ^ 8 - 1) (Hash n)"
  by (simp add: layout_def header_def)

lemma sint_UnixNano: "int64_time t \<Longrightarrow> sint (UnixNano t) = t"
  by (simp add: UnixNano_def int64_time_def sint_sbintrunc' signed_take_bit_int_eq_self)

lemma encode_ok:
  assumes "\<not> bad_node n" and "length b = EncodeLen n"
  shows "Encode n b = Ok (layout n)"
  using encode_layout[OF assms(2)] assms(1) by (auto simp: Encode_def)

lemma unat_len:
  "k < 2 ^ 16 \<Longrightarrow> unat (of_nat k :: u16) = k" "k < 2 ^ 8 \<Longrightarrow> unat (of_nat k :: u8) = k"
  by (simp_all add: unat_of_nat take_bit_nat_eq_self)

lemma decode_layout:
  assumes "encodable n"
  shows "decode_fields (layout n) spare m = Some (persist n m)"
  using assms
  by (simp add: layout_header decode_header encodable_def unat_len sint_UnixNano persist_def Let_def)

lemma fetch_SomeD: "fetch b i = Some x \<Longrightarrow> i < length b"
  by (simp add: fetch_def split: if_splits)

lemma get_bounds:
  "getUint8 b i = Some (j, v1) \<Longrightarrow> j = i + 1 \<and> j \<le> length b"
  "getUint16 b i = Some (j, v2) \<Longrightarrow> j = i + 2"
  "getUint64 b i = Some (j, v8) \<Longrightarrow> j = i + 8"
  "getTime b i = Some (j, t) \<Longrightarrow> j = i + 8"
  by (auto simp: getUint8_def getUint16_def getUint64_def getTime_def bind_eq_Some_conv dest: fetch_SomeD)

lemma decode_short: "length b < 38 \<Longrightarrow> decode_fields b spare n = None"
proof (rule ccontr)
  assume b: "length b < 38" and "decode_fields b spare n \<noteq> None"
  then obtain n' where "decode_fields b spare n = Some n'" by blast
  then have "38 \<le> length b"
    by (auto simp: decode_fields_def bind_eq_Some_conv dest!: get_bounds)
  with b show False by simp
qed

lemma decode_prefix:
  assumes "encodable n" and "j + length spare < length (layout n)"
  shows "decode_fields (take j (layout n)) spare m = None"
proof (cases "j < 38")
  case True
  then show ?thesis by (intro decode_short) simp
next
  case False
  with assms show ?thesis
    by (auto simp: layout_header decode_header encodable_def unat_len Let_def)
qed

lemma decode_spare:
  assumes "encodable n" and "38 \<le> j"
  shows "decode_fields (take j (layout n)) (drop j (layout n)) m = Some (persist n m)"
proof -
  define h r where "h = header (Ino n) (Size n) (UnixNano (Btime n)) (UnixNano (Mtime n)) (of_nat (length (Path n)))
       (of_nat (length (Sig n))) (if IsDir n then 1 else 0) (of_nat (length (Hash n)))"
    and "r = take (2 ^ 16 - 1) (Path n) @ take (2 ^ 16 - 1) (Sig n) @ take (2 ^ 8 - 1) (Hash n)"
  have l: "layout n = h @ r" "length h = 38"
    by (simp_all add: layout_header h_def r_def)
  have "decode_fields (h @ take (j - 38) r) (drop (j - 38) r) m = decode_fields (h @ r) [] m"
    unfolding h_def decode_header by (simp add: Let_def)
  moreover have "take j (layout n) = h @ take (j - 38) r" "drop j (layout n) = drop (j - 38) r"
    using l assms(2) by simp_all
  ultimately show ?thesis
    using decode_layout[OF assms(1), of "[]" m] l(1) by simp
qed

subsection \<open>Properties\<close>

text \<open>
  C25. The stored form of a node round-trips: for a valid node whose fields fit the format, \<^verbatim>\<open>Encode\<close> into
  any buffer of \<^verbatim>\<open>EncodeLen()\<close> bytes succeeds and fills it exactly, and \<^verbatim>\<open>Decode\<close> of the result gives
  back every persistent field, leaving the transient fields of the receiver alone.
\<close>

theorem decode_encode:
  assumes "encodable n" and "length b = EncodeLen n"
  shows "\<exists>v. Encode n b = Ok v \<and> length v = EncodeLen n \<and> Decode v m = Ok (persist n m)"
proof (intro exI conjI)
  show "Encode n b = Ok (layout n)"
    using assms by (intro encode_ok) (simp_all add: encodable_def)
  show "length (layout n) = EncodeLen n"
    using assms(1) by (simp add: length_layout EncodeLen_def encodable_def Let_def)
  show "Decode (layout n) m = Ok (persist n m)"
    using decode_layout[OF assms(1)] by (simp add: Decode_def Decode_slice_def)
qed

lemma demo_node_encodable: "encodable demo_node"
  by (simp add: encodable_def demo_node_def node0_def bad_node_def int64_time_def)

theorem decode_encode_witness:
  "\<exists>v. Encode demo_node (replicate (EncodeLen demo_node) CHR 0x00) = Ok v \<and>
       length v = EncodeLen demo_node \<and> Decode v node0 = Ok (persist demo_node node0)"
  by (rule decode_encode[OF demo_node_encodable]) simp

text \<open>
  C26. A stored node that has lost its tail is not taken for a node: \<^verbatim>\<open>Decode\<close> recovers from the index panic and returns \<^verbatim>\<open>EIO\<close> for
  every proper prefix of an encoding, as long as the capacity of the slice ends before the encoding would, whatever bytes are there
  beyond its length.  The capacity counts and not the length: when the lost bytes are still in the array behind a prefix that has the
  fixed part of 38 bytes, then \<^verbatim>\<open>Decode\<close> reads beyond the length and returns the whole node.
\<close>

theorem decode_truncated:
  assumes "encodable n" and "Encode n b = Ok v" and "length b = EncodeLen n"
  shows "(j + length spare < length v \<longrightarrow> Decode_slice (take j v) spare m = Err (ErrnoErr EIO)) \<and>
    (38 \<le> j \<longrightarrow> Decode_slice (take j v) (drop j v) m = Ok (persist n m))"
proof -
  have "v = layout n"
    using encode_ok[of n b] assms by (simp add: encodable_def)
  then show ?thesis
    using decode_prefix[OF assms(1)] decode_spare[OF assms(1)] by (simp add: Decode_slice_def)
qed

theorem decode_truncated_witness:
  "Decode_slice (take 45 (layout demo_node)) [] node0 = Err (ErrnoErr EIO) \<and>
   Decode_slice (take 45 (layout demo_node)) (drop 45 (layout demo_node)) node0 = Ok (persist demo_node node0)"
proof -
  have "Encode demo_node (replicate (EncodeLen demo_node) CHR 0x00) = Ok (layout demo_node)"
    using demo_node_encodable by (intro encode_ok) (simp_all add: encodable_def)
  from decode_truncated[OF demo_node_encodable this, of 45 "[]" node0] show ?thesis
    by (simp add: length_layout demo_node_def node0_def)
qed

text \<open>
  The length of a path is stored in 16 bits: a node whose path has 65536 bytes is stored without
  an error, but reads back with an empty path, although 65535 bytes of it are written.
\<close>

theorem encode_long_path:
  assumes "\<not> bad_node n" and "length (Path n) = 2 ^ 16" and "Sig n = ''''" and "Hash n = []"
    and "int64_time (Btime n)" and "int64_time (Mtime n)" and "length b = EncodeLen n"
  shows "\<exists>v. Encode n b = Ok v \<and> Decode v m = Ok (persist (n\<lparr>Path := ''''\<rparr>) m)"
proof (intro exI conjI)
  show "Encode n b = Ok (layout n)"
    using assms(1,7) by (rule encode_ok)
  show "Decode (layout n) m = Ok (persist (n\<lparr>Path := ''''\<rparr>) m)"
    using assms by (simp add: Decode_def Decode_slice_def layout_header decode_header sint_UnixNano persist_def)
qed

theorem encode_long_path_witness:
  "\<exists>v. Encode (demo_node\<lparr>Path := replicate 65536 slash, Sig := '''', Hash := []\<rparr>)
         (replicate 65574 CHR 0x00) = Ok v \<and>
       Decode v node0 = Ok (persist (demo_node\<lparr>Path := '''', Sig := '''', Hash := []\<rparr>) node0)"
  using encode_long_path[of "demo_node\<lparr>Path := replicate 65536 slash, Sig := '''', Hash := []\<rparr>"
      "replicate 65574 CHR 0x00" node0]
  by (simp add: bad_node_def demo_node_def node0_def int64_time_def EncodeLen_def)

end
