(* ===== verification/NodeStore.thy ===== *)
theory NodeStore
  imports Node
begin

text \<open>
  The nodes in the database: \<^verbatim>\<open>nodetx_t\<close> and the methods \<^verbatim>\<open>Get\<close>, \<^verbatim>\<open>GetWithIno\<close>, \<^verbatim>\<open>NextIno\<close> and \<^verbatim>\<open>Put\<close> of
  \<^verbatim>\<open>src/cache/node.go\<close>.

  The database is boltdb, which is not part of the repository: it is a parameter, a record of the
  operations of a transaction over an arbitrary type of database states.  What the code relies on of
  it is the predicate \<open>bolt_ok\<close>: what a get returns after a put and a delete, that deleting does not
  fail with an error number of this program, that a cursor visits the pairs of a bucket in the order
  of the keys, that the sequence of a bucket counts up, and that a
  failed commit leaves the state as it was.  Any operation may fail.
\<close>

record 'd bolt =
  tx_Get :: "bytes \<Rightarrow> bytes \<Rightarrow> 'd \<Rightarrow> bytes option"
  tx_Put :: "bytes \<Rightarrow> bytes \<Rightarrow> bytes \<Rightarrow> 'd \<Rightarrow> unit res \<times> 'd"
  tx_Delete :: "bytes \<Rightarrow> bytes \<Rightarrow> 'd \<Rightarrow> unit res \<times> 'd"
  tx_NextSequence :: "bytes \<Rightarrow> 'd \<Rightarrow> u64 res \<times> 'd"
  tx_Sequence :: "bytes \<Rightarrow> 'd \<Rightarrow> u64"
  tx_pairs :: "bytes \<Rightarrow> 'd \<Rightarrow> (bytes \<times> bytes) list"
  tx_Bucket :: "bytes \<Rightarrow> 'd \<Rightarrow> bool"
  tx_CreateBucket :: "bytes \<Rightarrow> 'd \<Rightarrow> unit res \<times> 'd"
  tx_CreateBucketIfNotExists :: "bytes \<Rightarrow> 'd \<Rightarrow> unit res \<times> 'd"
  db_Begin :: "'d \<Rightarrow> error option"
  db_Commit :: "'d \<Rightarrow> 'd \<Rightarrow> error option \<times> 'd"
  db_Close :: "'d \<Rightarrow> error option \<times> 'd"

definition idxname :: bytes where "idxname = ''i''"
definition catname :: bytes where "catname = ''c''"

text \<open>\<^verbatim>\<open>database.View(fn)\<close> and \<^verbatim>\<open>database.Update(fn)\<close>; an error or a panic rolls the update back.\<close>

definition db_View :: "'d bolt \<Rightarrow> ('d \<Rightarrow> 'a res) \<Rightarrow> 'd \<Rightarrow> 'a res" where
  "db_View B fn d = (case db_Begin B d of Some e \<Rightarrow> Err e | None \<Rightarrow> fn d)"

definition db_Update :: "'d bolt \<Rightarrow> ('d \<Rightarrow> 'a res \<times> 'd) \<Rightarrow> 'd \<Rightarrow> 'a res \<times> 'd" where
  "db_Update B fn d =
     (case db_Begin B d of
        Some e \<Rightarrow> (Err e, d)
      | None \<Rightarrow>
          (case fn d of
             (Ok a, d') \<Rightarrow>
               (case db_Commit B d d' of
                  (None, d'') \<Rightarrow> (Ok a, d'')
                | (Some e, d'') \<Rightarrow> (Err e, d''))
           | (Err e, d') \<Rightarrow> (Err e, d)
           | (Panic q, d') \<Rightarrow> (Panic q, d)))"

text \<open>\<^verbatim>\<open>cursor.First\<close> or \<^verbatim>\<open>cursor.Seek(k)\<close>, then \<^verbatim>\<open>cursor.Next\<close> to the end.\<close>

definition cursor_seek :: "'d bolt \<Rightarrow> bytes \<Rightarrow> bytes \<Rightarrow> 'd \<Rightarrow> (bytes \<times> bytes) list" where
  "cursor_seek B b k d = dropWhile (\<lambda>p. fst p < k) (tx_pairs B b d)"

definition node_Get :: "'d bolt \<Rightarrow> bytes \<Rightarrow> 'd \<Rightarrow> node \<Rightarrow> node res" where
  "node_Get B k d n =
     (case tx_Get B catname k d of
        None \<Rightarrow> Err (ErrnoErr ENOENT)
      | Some v \<Rightarrow> (case Decode v n of Ok n \<Rightarrow> Ok n | _ \<Rightarrow> Err (ErrnoErr ENOENT)))"

definition ino_key :: "u64 \<Rightarrow> bytes res" where
  "ino_key ino =
     (case putUint64 (replicate 8 CHR 0x00) 0 ino of None \<Rightarrow> Panic PanicRuntime | Some (v, _) \<Rightarrow> Ok v)"

definition node_GetWithIno :: "'d bolt \<Rightarrow> u64 \<Rightarrow> 'd \<Rightarrow> node \<Rightarrow> node res" where
  "node_GetWithIno B ino d n =
     (case ino_key ino of
        Ok v \<Rightarrow>
          (case tx_Get B idxname v d of
             None \<Rightarrow> Err (ErrnoErr ENOENT)
           | Some k \<Rightarrow> node_Get B k d n)
      | Err e \<Rightarrow> Err e
      | Panic q \<Rightarrow> Panic q)"

definition NextIno :: "'d bolt \<Rightarrow> node \<Rightarrow> 'd \<Rightarrow> (u64 \<times> node) res \<times> 'd" where
  "NextIno B n d =
     (if 0 = Ino n then
        bindr (tx_NextSequence B idxname d) (\<lambda>ino d. (Ok (ino, n\<lparr>Ino := ino\<rparr>), d))
      else (Ok (Ino n, n), d))"

definition node_Put :: "'d bolt \<Rightarrow> node \<Rightarrow> bytes \<Rightarrow> 'd \<Rightarrow> unit res \<times> 'd" where
  "node_Put B n k d =
     (case putUint64 (replicate (EncodeLen n) CHR 0x00) 0 (Ino n) of
        None \<Rightarrow> (Panic PanicRuntime, d)
      | Some (v, _) \<Rightarrow>
          (let k0 = (case tx_Get B idxname (take 8 v) d of None \<Rightarrow> [] | Some k0 \<Rightarrow> k0)
           in bindr (if k0 \<noteq> k then tx_Put B idxname (take 8 v) k d else (Ok (), d))
                (\<lambda>_ d. bindr (Encode n v, d) (\<lambda>v d. tx_Put B catname k v d))))"

text \<open>\<^verbatim>\<open>Put\<close> with a nil receiver: the node of the key is removed, a missing one is no error.\<close>

definition node_Del :: "'d bolt \<Rightarrow> bytes \<Rightarrow> 'd \<Rightarrow> unit res \<times> 'd" where
  "node_Del B k d =
     (let (r, d) =
        bindr (node_Get B k d node0, d) (\<lambda>n d.
          bindr (ino_key (Ino n), d) (\<lambda>v d.
            bindr (tx_Delete B idxname v d) (\<lambda>_ d. tx_Delete B catname k d)))
      in if r = Err (ErrnoErr ENOENT) then (Ok (), d) else (r, d))"

text \<open>What the code relies on of the database.\<close>

definition same_view :: "'d bolt \<Rightarrow> 'd \<Rightarrow> 'd \<Rightarrow> bool" where
  "same_view B d d' \<longleftrightarrow>
     (\<forall>b k. tx_Get B b k d' = tx_Get B b k d) \<and> (\<forall>b. tx_Sequence B b d' = tx_Sequence B b d)"

definition bolt_ok :: "'d bolt \<Rightarrow> bool" where
  "bolt_ok B \<longleftrightarrow>
     (\<forall>b k v d d'. tx_Put B b k v d = (Ok (), d') \<longrightarrow> k \<noteq> [] \<and>
        (\<forall>b' k'. tx_Get B b' k' d' = (if b' = b \<and> k' = k then Some v else tx_Get B b' k' d)) \<and>
        (\<forall>b'. tx_Sequence B b' d' = tx_Sequence B b' d)) \<and>
     (\<forall>b k d d'. tx_Delete B b k d = (Ok (), d') \<longrightarrow>
        (\<forall>b' k'. tx_Get B b' k' d' = (if b' = b \<and> k' = k then None else tx_Get B b' k' d)) \<and>
        (\<forall>b'. tx_Sequence B b' d' = tx_Sequence B b' d)) \<and>
     (\<forall>b k d. fst (tx_Delete B b k d) \<noteq> Err (ErrnoErr ENOENT)) \<and>
     (\<forall>b d i d'. tx_NextSequence B b d = (Ok i, d') \<longrightarrow> i = tx_Sequence B b d + 1 \<and>
        (\<forall>b'. tx_Sequence B b' d' = (if b' = b then i else tx_Sequence B b' d)) \<and>
        (\<forall>b' k'. tx_Get B b' k' d' = tx_Get B b' k' d)) \<and>
     (\<forall>b d. sorted_wrt (<) (map fst (tx_pairs B b d)) \<and>
        (\<forall>k. map_of (tx_pairs B b d) k = tx_Get B b k d)) \<and>
     (\<forall>d d' e d''. db_Commit B d d' = (e, d'') \<longrightarrow> same_view B (if e = None then d' else d) d'')"

text \<open>
  The content of a database: the catalogue of nodes by path key, and the index of keys by inode
  number; every node of the catalogue is found by its number.
\<close>

definition cat :: "'d bolt \<Rightarrow> 'd \<Rightarrow> bytes \<Rightarrow> node option" where
  "cat B d k = (case node_Get B k d node0 of Ok n \<Rightarrow> Some n | _ \<Rightarrow> None)"

definition idx :: "'d bolt \<Rightarrow> 'd \<Rightarrow> u64 \<Rightarrow> bytes option" where
  "idx B d ino = tx_Get B idxname (be64 ino) d"

definition store_inv :: "'d bolt \<Rightarrow> 'd \<Rightarrow> bool" where
  "store_inv B d \<longleftrightarrow> (\<forall>k n. cat B d k = Some n \<longrightarrow> idx B d (Ino n) = Some k)"

text \<open>A database in memory, for the witnesses: a finite map and a counter for every bucket.\<close>

record memdb =
  mem_data :: "bytes \<Rightarrow> (bytes, bytes) fmap"
  mem_seq :: "bytes \<Rightarrow> u64"

definition memdb0 :: memdb where
  "memdb0 = \<lparr>mem_data = (\<lambda>_. fmempty), mem_seq = (\<lambda>_. 0)\<rparr>"

definition mem_bolt :: "memdb bolt" where
  "mem_bolt =
     \<lparr>tx_Get = (\<lambda>b k d. fmlookup (mem_data d b) k),
      tx_Put = (\<lambda>b k v d. if k = [] then (Err (ExtErr 1), d)
                          else (Ok (), d\<lparr>mem_data := (mem_data d)(b := fmupd k v (mem_data d b))\<rparr>)),
      tx_Delete = (\<lambda>b k d. (Ok (), d\<lparr>mem_data := (mem_data d)(b := fmdrop k (mem_data d b))\<rparr>)),
      tx_NextSequence = (\<lambda>b d. (Ok (mem_seq d b + 1), d\<lparr>mem_seq := (mem_seq d)(b := mem_seq d b + 1)\<rparr>)),
      tx_Sequence = (\<lambda>b d. mem_seq d b),
      tx_pairs = (\<lambda>b d. map (\<lambda>k. (k, the (fmlookup (mem_data d b) k)))
                            (sorted_list_of_fset (fmdom (mem_data d b)))),
      tx_Bucket = (\<lambda>b d. True),
      tx_CreateBucket = (\<lambda>b d. (Ok (), d)),
      tx_CreateBucketIfNotExists = (\<lambda>b d. (Ok (), d)),
      db_Begin = (\<lambda>d. None),
      db_Commit = (\<lambda>d d'. (None, d')),
      db_Close = (\<lambda>d. (None, d))\<rparr>"

subsection \<open>The laws, one by one\<close>

lemma bolt_okD:
  assumes "bolt_ok B"
  shows "tx_Put B b k v d = (Ok (), d') \<Longrightarrow> k \<noteq> []"
    and "tx_Put B b k v d = (Ok (), d') \<Longrightarrow>
           tx_Get B b' k' d' = (if b' = b \<and> k' = k then Some v else tx_Get B b' k' d)"
    and "tx_Put B b k v d = (Ok (), d') \<Longrightarrow> tx_Sequence B b' d' = tx_Sequence B b' d"
    and "tx_Delete B b k d = (Ok (), d') \<Longrightarrow>
           tx_Get B b' k' d' = (if b' = b \<and> k' = k then None else tx_Get B b' k' d)"
    and "tx_Delete B b k d = (Ok (), d') \<Longrightarrow> tx_Sequence B b' d' = tx_Sequence B b' d"
    and "tx_NextSequence B b d = (Ok i, d') \<Longrightarrow> i = tx_Sequence B b d + 1"
    and "tx_NextSequence B b d = (Ok i, d') \<Longrightarrow>
           tx_Sequence B b' d' = (if b' = b then i else tx_Sequence B b' d)"
    and "tx_NextSequence B b d = (Ok i, d') \<Longrightarrow> tx_Get B b' k' d' = tx_Get B b' k' d"
    and "sorted_wrt (<) (map fst (tx_pairs B b d))"
    and "map_of (tx_pairs B b d) k = tx_Get B b k d"
    and "db_Commit B d d' = (e, d'') \<Longrightarrow> same_view B (if e = None then d' else d) d''"
    and "fst (tx_Delete B b k d) \<noteq> Err (ErrnoErr ENOENT)"
  using assms unfolding bolt_ok_def by (elim conjE; simp)+

lemma ino_key_be64: "ino_key ino = Ok (be64 ino)"
  using put_at0[of "replicate 8 CHR 0x00" ino] by (simp add: ino_key_def)

lemma be64_inj [simp]: "be64 v = be64 w \<longleftrightarrow> v = w"
proof
  assume "be64 v = be64 w"
  then have "getUint64 (be64 v) 0 = getUint64 (be64 w) 0"
    by simp
  then show "v = w"
    using get_at(3)[of "[]" 0 v "[]"] get_at(3)[of "[]" 0 w "[]"] by simp
qed simp

lemma bucket_names [simp]: "idxname \<noteq> catname" "catname \<noteq> idxname"
  by (simp_all add: idxname_def catname_def)

lemma node_Get_not_Panic: "node_Get B k d n \<noteq> Panic q"
  by (simp add: node_Get_def split: option.split res.split)

lemma node_Get_Err: "node_Get B k d n = Err e \<Longrightarrow> e = ErrnoErr ENOENT"
  by (auto simp: node_Get_def split: option.splits res.splits)

lemma node_Get_cat:
  "node_Get B k d node0 = (case cat B d k of None \<Rightarrow> Err (ErrnoErr ENOENT) | Some n \<Rightarrow> Ok n)"
  using node_Get_Err[of B k d node0] node_Get_not_Panic[of B k d node0]
  by (auto simp: cat_def split: res.split)

lemma node_GetWithIno_idx:
  "node_GetWithIno B ino d node0 =
     (case idx B d ino of
        None \<Rightarrow> Err (ErrnoErr ENOENT)
      | Some k \<Rightarrow> (case cat B d k of None \<Rightarrow> Err (ErrnoErr ENOENT) | Some n \<Rightarrow> Ok n))"
  by (simp add: node_GetWithIno_def ino_key_be64 idx_def node_Get_cat split: option.split)

lemma cat_cong: "tx_Get B catname k d' = tx_Get B catname k d \<Longrightarrow> cat B d' k = cat B d k"
  by (simp add: cat_def node_Get_def)

lemma same_view_store:
  assumes "same_view B d d'"
  shows "cat B d' = cat B d" "idx B d' = idx B d"
  using assms by (auto simp: same_view_def idx_def intro!: cat_cong)

lemma cat_put:
  assumes "tx_Get B catname k d' = Some (layout n)" "encodable n"
  shows "cat B d' k = Some (persist n node0)"
  using assms decode_layout[OF assms(2), of "[]" node0] by (simp add: cat_def node_Get_def Decode_def Decode_slice_def)

text \<open>\<^verbatim>\<open>Put\<close> updates the catalogue and the index, and nothing else.\<close>

lemma take8_be64: "take 8 (be64 v @ r) = be64 v"
  by (simp add: be64_def)

lemma node_Put_unfold:
  "node_Put B n k d =
     bindr (if (case idx B d (Ino n) of None \<Rightarrow> [] | Some k0 \<Rightarrow> k0) \<noteq> k
            then tx_Put B idxname (be64 (Ino n)) k d else (Ok (), d))
       (\<lambda>_ d. bindr ((if bad_node n then Panic (PanicErrno EINVAL) else Ok (layout n)), d)
         (\<lambda>v d. tx_Put B catname k v d))"
proof -
  let ?z = "replicate (EncodeLen n) CHR 0x00"
  have len: "8 \<le> length ?z"
    by (simp add: EncodeLen_def Let_def)
  have "Encode n (be64 (Ino n) @ drop 8 ?z) = (if bad_node n then Panic (PanicErrno EINVAL) else Ok (layout n))"
  proof (cases "bad_node n")
    case False
    have "length (be64 (Ino n) @ drop 8 ?z) = EncodeLen n"
      using len by simp
    then show ?thesis
      using encode_ok[OF False] False by simp
  qed (simp add: Encode_def)
  then show ?thesis
    by (simp add: node_Put_def put_at0[OF len] take8_be64 idx_def Let_def del: drop_replicate)
qed

lemma encodable_not_bad: "encodable n \<Longrightarrow> \<not> bad_node n"
  by (simp add: encodable_def)

lemma node_Put_spec:
  assumes "bolt_ok B" "encodable n" "node_Put B n k d = (Ok (), d')"
  shows "cat B d' = (cat B d)(k \<mapsto> persist n node0)" "idx B d' = (idx B d)(Ino n \<mapsto> k)"
    "tx_Sequence B b d' = tx_Sequence B b d" "k \<noteq> []"
proof -
  note L = bolt_okD[OF assms(1)]
  define change where "change \<longleftrightarrow> (case idx B d (Ino n) of None \<Rightarrow> [] | Some k0 \<Rightarrow> k0) \<noteq> k"
  obtain d1 where d1: "(if change then tx_Put B idxname (be64 (Ino n)) k d else (Ok (), d)) = (Ok (), d1)"
    and put: "tx_Put B catname k (layout n) d1 = (Ok (), d')"
    using assms(3) encodable_not_bad[OF assms(2)]
    by (auto simp: node_Put_unfold change_def elim!: bindr_OkE)
  show "k \<noteq> []"
    using L(1)[OF put] .
  have get1: "tx_Get B b' k' d1 = (if b' = idxname \<and> k' = be64 (Ino n) then Some k else tx_Get B b' k' d)"
    and seq1: "tx_Sequence B b' d1 = tx_Sequence B b' d" for b' k'
    using d1 L(2,3) \<open>k \<noteq> []\<close>
    by (auto simp: change_def idx_def split: if_splits option.splits)
  have get: "tx_Get B b' k' d' =
      (if b' = catname \<and> k' = k then Some (layout n)
       else if b' = idxname \<and> k' = be64 (Ino n) then Some k else tx_Get B b' k' d)" for b' k'
    using L(2)[OF put] get1 by auto
  show "cat B d' = (cat B d)(k \<mapsto> persist n node0)"
  proof
    fix k'
    show "cat B d' k' = ((cat B d)(k \<mapsto> persist n node0)) k'"
      using cat_put[of B k d' n] assms(2) cat_cong[of B k' d' d] get by auto
  qed
  show "idx B d' = (idx B d)(Ino n \<mapsto> k)"
    by (auto simp: idx_def get)
  show "tx_Sequence B b d' = tx_Sequence B b d"
    using L(3)[OF put] seq1 by simp
qed

lemma node_Del_unfold:
  "node_Del B k d =
     (case cat B d k of
        None \<Rightarrow> (Ok (), d)
      | Some n \<Rightarrow>
          (let (r, d) = bindr (tx_Delete B idxname (be64 (Ino n)) d) (\<lambda>_ d. tx_Delete B catname k d)
           in if r = Err (ErrnoErr ENOENT) then (Ok (), d) else (r, d)))"
  by (simp add: node_Del_def node_Get_cat ino_key_be64 split: option.split)

lemma node_Del_spec:
  assumes "bolt_ok B" "node_Del B k d = (Ok (), d')"
  shows "cat B d' = (cat B d)(k := None)"
    "idx B d' = (case cat B d k of None \<Rightarrow> idx B d | Some n \<Rightarrow> (idx B d)(Ino n := None))"
    "tx_Sequence B b d' = tx_Sequence B b d"
proof -
  note L = bolt_okD[OF assms(1)]
  have "cat B d' = (cat B d)(k := None) \<and>
    idx B d' = (case cat B d k of None \<Rightarrow> idx B d | Some n \<Rightarrow> (idx B d)(Ino n := None)) \<and>
    tx_Sequence B b d' = tx_Sequence B b d"
  proof (cases "cat B d k")
    case None
    with assms(2) show ?thesis
      by (auto simp: node_Del_unfold fun_upd_idem)
  next
    case (Some n)
    define m where "m = bindr (tx_Delete B idxname (be64 (Ino n)) d) (\<lambda>_ d. tx_Delete B catname k d)"
    have "fst m \<noteq> Err (ErrnoErr ENOENT)"
      using L(12) by (auto simp: m_def bindr_def split: prod.split res.split) (metis fst_conv)+
    then have "m = (Ok (), d')"
      using assms(2) Some by (cases m) (auto simp: node_Del_unfold m_def split: if_splits)
    then obtain d1 where d1: "tx_Delete B idxname (be64 (Ino n)) d = (Ok (), d1)"
      "tx_Delete B catname k d1 = (Ok (), d')"
      by (auto simp: m_def elim!: bindr_OkE)
    have get: "tx_Get B b' k' d' =
      (if b' = catname \<and> k' = k \<or> b' = idxname \<and> k' = be64 (Ino n) then None else tx_Get B b' k' d)" for b' k'
      using L(4)[OF d1(1)] L(4)[OF d1(2)] by auto
    have "cat B d' k' = ((cat B d)(k := None)) k'" for k'
      using cat_cong[of B k' d' d] get by (auto simp: cat_def node_Get_def)
    moreover have "idx B d' = (idx B d)(Ino n := None)"
      by (auto simp: idx_def get)
    moreover have "tx_Sequence B b d' = tx_Sequence B b d"
      using L(5)[OF d1(1)] L(5)[OF d1(2)] by simp
    ultimately show ?thesis
      using Some by (simp add: fun_eq_iff)
  qed
  then show "cat B d' = (cat B d)(k := None)"
    "idx B d' = (case cat B d k of None \<Rightarrow> idx B d | Some n \<Rightarrow> (idx B d)(Ino n := None))"
    "tx_Sequence B b d' = tx_Sequence B b d"
    by blast+
qed

lemma db_Update_OkE:
  assumes "bolt_ok B" "db_Update B fn d = (Ok a, d2)"
  obtains d1 where "fn d = (Ok a, d1)" "same_view B d1 d2"
  using assms(2) bolt_okD(11)[OF assms(1)]
  by (auto simp: db_Update_def split: option.splits prod.splits res.splits) (metis (full_types))

lemma db_Update_fail:
  assumes "bolt_ok B" "db_Update B fn d = (r, d2)" "\<forall>a. r \<noteq> Ok a"
  shows "same_view B d d2"
  using assms(2,3) bolt_okD(11)[OF assms(1)]
  by (auto simp: db_Update_def same_view_def split: option.splits prod.splits res.splits)

subsection \<open>The catalogue as an interface\<close>

text \<open>
  What the cache relies on of the stored nodes: after a put a key has the node and its number leads
  to the key, after a delete it has none, and a node is found by its number.
\<close>

locale catalogue =
  fixes inv :: "'s \<Rightarrow> bool"
    and look :: "'s \<Rightarrow> bytes \<Rightarrow> node option"
    and key_of :: "'s \<Rightarrow> u64 \<Rightarrow> bytes option"
    and put :: "node \<Rightarrow> bytes \<Rightarrow> 's \<Rightarrow> unit res \<times> 's"
    and del :: "bytes \<Rightarrow> 's \<Rightarrow> unit res \<times> 's"
  assumes look_put: "inv s \<Longrightarrow> encodable n \<Longrightarrow> put n k s = (Ok (), s') \<Longrightarrow>
            look s' = (look s)(k \<mapsto> persist n node0)"
    and key_put: "inv s \<Longrightarrow> encodable n \<Longrightarrow> put n k s = (Ok (), s') \<Longrightarrow>
            key_of s' = (key_of s)(Ino n \<mapsto> k)"
    and look_del: "inv s \<Longrightarrow> del k s = (Ok (), s') \<Longrightarrow> look s' = (look s)(k := None)"
    and key_del: "inv s \<Longrightarrow> del k s = (Ok (), s') \<Longrightarrow>
            key_of s' = (case look s k of None \<Rightarrow> key_of s | Some n \<Rightarrow> (key_of s)(Ino n := None))"
    and found: "inv s \<Longrightarrow> look s k = Some n \<Longrightarrow> key_of s (Ino n) = Some k"
    and inv_put: "inv s \<Longrightarrow> encodable n \<Longrightarrow> put n k s = (Ok (), s') \<Longrightarrow>
            (\<And>k' m. look s k' = Some m \<Longrightarrow> Ino m = Ino n \<Longrightarrow> k' = k) \<Longrightarrow> inv s'"
    and inv_del: "inv s \<Longrightarrow> del k s = (Ok (), s') \<Longrightarrow> inv s'"
begin

lemma ino_unique: "inv s \<Longrightarrow> look s k = Some n \<Longrightarrow> look s k' = Some n' \<Longrightarrow> Ino n = Ino n' \<Longrightarrow> k = k'"
  using found[of s k n] found[of s k' n'] by simp

lemma by_ino: "inv s \<Longrightarrow> look s k = Some n \<Longrightarrow> Option.bind (key_of s (Ino n)) (look s) = Some n"
  by (simp add: found)

lemma by_ino_put:
  "inv s \<Longrightarrow> encodable n \<Longrightarrow> put n k s = (Ok (), s') \<Longrightarrow>
     Option.bind (key_of s' (Ino n)) (look s') = Some (persist n node0)"
  by (simp add: look_put key_put)

lemma by_ino_del:
  "inv s \<Longrightarrow> look s k = Some n \<Longrightarrow> del k s = (Ok (), s') \<Longrightarrow> key_of s' (Ino n) = None"
  by (simp add: key_del)

text \<open>The three steps with which a rename moves one node: delete, make room, place.\<close>

lemma move:
  assumes s: "inv s" "look s i = Some n"
    and steps: "del i s = (Ok (), s1)" "del j s1 = (Ok (), s2)" "put m j s2 = (Ok (), s3)"
    and m: "encodable m" "Ino m = Ino n"
  shows "look s3 = (look s)(i := None, j \<mapsto> persist m node0) \<and> inv s3 \<and>
    key_of s3 (Ino n) = Some j"
proof -
  have s1: "inv s1" "look s1 = (look s)(i := None)"
    using inv_del[OF s(1) steps(1)] look_del[OF s(1) steps(1)] by simp_all
  have s2: "inv s2" "look s2 = (look s1)(j := None)"
    using inv_del[OF s1(1) steps(2)] look_del[OF s1(1) steps(2)] by simp_all
  have gone: "k' = j" if "look s2 k' = Some m'" "Ino m' = Ino m" for k' m'
  proof (rule ccontr)
    assume "k' \<noteq> j"
    then have "look s k' = Some m'" "k' \<noteq> i"
      using that(1) s1(2) s2(2) by (simp_all split: if_splits)
    then show False
      using ino_unique[OF s, of k' m'] that(2) m(2) by simp
  qed
  have "inv s3"
    using inv_put[OF s2(1) m(1) steps(3)] gone by blast
  moreover have "look s3 = (look s)(i := None, j \<mapsto> persist m node0)"
    using look_put[OF s2(1) m(1) steps(3)] s1(2) s2(2) by simp
  moreover have "key_of s3 (Ino n) = Some j"
    using key_put[OF s2(1) m(1) steps(3)] m(2) by simp
  ultimately show ?thesis by blast
qed

end

interpretation nodes: catalogue
  "\<lambda>(B, d). bolt_ok B \<and> store_inv B d" "\<lambda>(B, d). cat B d" "\<lambda>(B, d). idx B d"
  "\<lambda>n k (B, d). let (r, d) = node_Put B n k d in (r, (B, d))"
  "\<lambda>k (B, d). let (r, d) = node_Del B k d in (r, (B, d))"
proof unfold_locales
  fix s s' :: "'d bolt \<times> 'd" and n k
  assume inv: "case s of (B, d) \<Rightarrow> bolt_ok B \<and> store_inv B d" and enc: "encodable n"
    and put: "(case s of (B, d) \<Rightarrow> let (r, d) = node_Put B n k d in (r, (B, d))) = (Ok (), s')"
  obtain B d where s: "s = (B, d)" by (cases s)
  with put obtain d' where d': "s' = (B, d')" "node_Put B n k d = (Ok (), d')"
    by (auto simp: Let_def split: prod.splits)
  note spec = node_Put_spec[OF _ enc d'(2)]
  from inv s have B: "bolt_ok B" "store_inv B d" by simp_all
  show "(case s' of (B, d) \<Rightarrow> cat B d) = (case s of (B, d) \<Rightarrow> cat B d)(k \<mapsto> persist n node0)"
    using spec(1)[OF B(1)] s d'(1) by simp
  show "(case s' of (B, d) \<Rightarrow> idx B d) = (case s of (B, d) \<Rightarrow> idx B d)(Ino n \<mapsto> k)"
    using spec(2)[OF B(1)] s d'(1) by simp
  show "case s' of (B, d) \<Rightarrow> bolt_ok B \<and> store_inv B d"
    if other: "\<And>k' m. (case s of (B, d) \<Rightarrow> cat B d) k' = Some m \<Longrightarrow> Ino m = Ino n \<Longrightarrow> k' = k"
  proof -
    have "idx B d' (Ino m) = Some k'" if "cat B d' k' = Some m" for k' m
      using that B(2) other[of k' m] s spec(1,2)[OF B(1)]
      by (auto simp: store_inv_def persist_def split: if_splits)
    with B(1) d'(1) show ?thesis
      by (simp add: store_inv_def)
  qed
next
  fix s s' :: "'d bolt \<times> 'd" and k
  assume inv: "case s of (B, d) \<Rightarrow> bolt_ok B \<and> store_inv B d"
    and del: "(case s of (B, d) \<Rightarrow> let (r, d) = node_Del B k d in (r, (B, d))) = (Ok (), s')"
  obtain B d where s: "s = (B, d)" by (cases s)
  with del obtain d' where d': "s' = (B, d')" "node_Del B k d = (Ok (), d')"
    by (auto simp: Let_def split: prod.splits)
  note spec = node_Del_spec[OF _ d'(2)]
  from inv s have B: "bolt_ok B" "store_inv B d" by simp_all
  show "(case s' of (B, d) \<Rightarrow> cat B d) = (case s of (B, d) \<Rightarrow> cat B d)(k := None)"
    using spec(1)[OF B(1)] s d'(1) by simp
  show "(case s' of (B, d) \<Rightarrow> idx B d) =
      (case (case s of (B, d) \<Rightarrow> cat B d) k of
         None \<Rightarrow> (case s of (B, d) \<Rightarrow> idx B d)
       | Some n \<Rightarrow> (case s of (B, d) \<Rightarrow> idx B d)(Ino n := None))"
    using spec(2)[OF B(1)] s d'(1) by (simp split: option.split)
  have "idx B d' (Ino m) = Some k'" if "cat B d' k' = Some m" for k' m
  proof -
    have m: "k' \<noteq> k" "idx B d (Ino m) = Some k'"
      using that B(2) spec(1)[OF B(1)] by (auto simp: store_inv_def split: if_splits)
    moreover have "idx B d (Ino n) = Some k" if "cat B d k = Some n" for n
      using that B(2) by (simp add: store_inv_def)
    ultimately show ?thesis
      using spec(2)[OF B(1)] by (auto split: option.split)
  qed
  with B(1) d'(1) show "case s' of (B, d) \<Rightarrow> bolt_ok B \<and> store_inv B d"
    by (simp add: store_inv_def)
next
  fix s :: "'d bolt \<times> 'd" and k n
  assume "case s of (B, d) \<Rightarrow> bolt_ok B \<and> store_inv B d" "(case s of (B, d) \<Rightarrow> cat B d) k = Some n"
  then show "(case s of (B, d) \<Rightarrow> idx B d) (Ino n) = Some k"
    by (auto simp: store_inv_def)
qed

subsection \<open>The database in memory\<close>

lemma map_of_sorted_fmap:
  "map_of (map (\<lambda>k. (k, the (fmlookup m k))) (sorted_list_of_fset (fmdom m))) k = fmlookup m k"
proof (cases "fmlookup m k")
  case None
  then have "k \<notin> set (sorted_list_of_fset (fmdom m))"
    by (simp add: fmlookup_dom_iff)
  then show ?thesis
    using None by (simp add: map_of_map_restrict)
next
  case (Some v)
  then have "k \<in> set (sorted_list_of_fset (fmdom m))"
    by (simp add: fmlookup_dom_iff)
  then show ?thesis
    using Some by (simp add: map_of_map_restrict)
qed

lemma mem_bolt_ok: "bolt_ok mem_bolt"
proof -
  have "sorted_wrt (<) (map fst (map (\<lambda>k. (k, the (fmlookup m k))) (sorted_list_of_fset (fmdom m))))"
    for m :: "(bytes, bytes) fmap"
    by (simp add: comp_def strict_sorted_iff sorted_list_of_fset.rep_eq)
  then show ?thesis
    by (auto simp: bolt_ok_def mem_bolt_def map_of_sorted_fmap same_view_def)
qed

lemma store_inv_memdb0: "store_inv mem_bolt memdb0"
  by (simp add: store_inv_def cat_def node_Get_def mem_bolt_def memdb0_def)

lemma mem_Put: "\<not> bad_node n \<Longrightarrow> k \<noteq> [] \<Longrightarrow> \<exists>d'. node_Put mem_bolt n k d = (Ok (), d')"
  by (simp add: node_Put_unfold mem_bolt_def be64_def)

subsection \<open>Properties\<close>

text \<open>
  C23. A stored node is found again: after a successful \<^verbatim>\<open>Put\<close> of a node under a key, both \<^verbatim>\<open>Get\<close> of the key
  and \<^verbatim>\<open>GetWithIno\<close> of its number return it, every other key has what it had, and the index stays
  consistent, so that every node of the catalogue is found by its number.  The node's number must not
  be in use under another key, and the node must fit the format in which it is stored (\<^const>\<open>encodable\<close>): its path and
  its signature are below 2^16 bytes, its hash is below 2^8, and its times fit into 64 bits of nanoseconds.  A node
  that does not fit can be stored without an error and is not found as it was.
\<close>

theorem node_store_put:
  assumes "bolt_ok B" "store_inv B d" "encodable n"
    and "\<forall>k' m. cat B d k' = Some m \<longrightarrow> Ino m = Ino n \<longrightarrow> k' = k"
    and "node_Put B n k d = (Ok (), d')"
  shows "node_Get B k d' node0 = Ok (persist n node0) \<and>
    node_GetWithIno B (Ino n) d' node0 = Ok (persist n node0) \<and>
    (\<forall>k'. k' \<noteq> k \<longrightarrow> node_Get B k' d' node0 = node_Get B k' d node0) \<and> store_inv B d'"
  using nodes.look_put[of "(B, d)" n k "(B, d')"] nodes.key_put[of "(B, d)" n k "(B, d')"]
    nodes.inv_put[of "(B, d)" n k "(B, d')"] assms
  by (auto simp: node_Get_cat node_GetWithIno_idx)

theorem node_store_put_witness:
  "\<exists>d'. node_Get mem_bolt ''/a/b'' d' node0 = Ok (persist demo_node node0) \<and>
        node_GetWithIno mem_bolt 7 d' node0 = Ok (persist demo_node node0)"
proof -
  obtain d' where "node_Put mem_bolt demo_node ''/a/b'' memdb0 = (Ok (), d')"
    using mem_Put[of demo_node "''/a/b''" memdb0] demo_node_encodable by (auto simp: encodable_def)
  moreover have "cat mem_bolt memdb0 k = None" for k
    by (simp add: cat_def node_Get_def mem_bolt_def memdb0_def)
  ultimately show ?thesis
    using node_store_put[OF mem_bolt_ok store_inv_memdb0 demo_node_encodable, of "''/a/b''" d']
    by (auto simp: demo_node_def)
qed

text \<open>
  C24. \<^verbatim>\<open>Put\<close> with a nil node removes a node entirely: neither the key nor the number of the node that
  was stored there finds anything afterwards, every other key has what it had, and the index stays
  consistent.
\<close>

theorem node_store_del:
  assumes "bolt_ok B" "store_inv B d" "cat B d k = Some n" "node_Del B k d = (Ok (), d')"
  shows "node_Get B k d' node0 = Err (ErrnoErr ENOENT) \<and>
    node_GetWithIno B (Ino n) d' node0 = Err (ErrnoErr ENOENT) \<and>
    (\<forall>k'. k' \<noteq> k \<longrightarrow> node_Get B k' d' node0 = node_Get B k' d node0) \<and> store_inv B d'"
  using nodes.look_del[of "(B, d)" k "(B, d')"] nodes.by_ino_del[of "(B, d)" k n "(B, d')"]
    nodes.inv_del[of "(B, d)" k "(B, d')"] assms
  by (auto simp: node_Get_cat node_GetWithIno_idx)

theorem node_store_del_witness:
  "\<exists>d d'. node_Get mem_bolt ''/a/b'' d node0 = Ok (persist demo_node node0) \<and>
     node_Get mem_bolt ''/a/b'' d' node0 = Err (ErrnoErr ENOENT) \<and>
     node_GetWithIno mem_bolt 7 d' node0 = Err (ErrnoErr ENOENT)"
proof -
  obtain d where put: "node_Put mem_bolt demo_node ''/a/b'' memdb0 = (Ok (), d)"
    using mem_Put[of demo_node "''/a/b''" memdb0] demo_node_encodable by (auto simp: encodable_def)
  note spec = node_Put_spec[OF mem_bolt_ok demo_node_encodable put]
  have "cat mem_bolt memdb0 k = None" for k
    by (simp add: cat_def node_Get_def mem_bolt_def memdb0_def)
  then have d: "store_inv mem_bolt d" "cat mem_bolt d ''/a/b'' = Some (persist demo_node node0)"
    by (simp_all add: store_inv_def spec persist_def)
  obtain d' where "node_Del mem_bolt ''/a/b'' d = (Ok (), d')"
    using d(2) by (simp add: node_Del_unfold mem_bolt_def)
  then have gone: "node_Get mem_bolt ''/a/b'' d' node0 = Err (ErrnoErr ENOENT)"
    "node_GetWithIno mem_bolt 7 d' node0 = Err (ErrnoErr ENOENT)"
    using node_store_del[OF mem_bolt_ok d, of d'] by (simp_all add: persist_def demo_node_def)
  have "node_Get mem_bolt ''/a/b'' d node0 = Ok (persist demo_node node0)"
    using d(2) by (simp add: node_Get_cat)
  with gone show ?thesis by blast
qed

end
