(* ===== verification/Storage.thy ===== *)
theory Storage
  imports NodeStore
begin

text \<open>
  The object storage: the interfaces \<^verbatim>\<open>ObjectStorage\<close>, \<^verbatim>\<open>StorageInfo\<close> and \<^verbatim>\<open>WriteWaiter\<close> of
  \<^verbatim>\<open>src/objio/objio.go\<close>.  The implementations are outside the repository, so a storage is a parameter:
  a record of the methods over an arbitrary type of storage states.  An opened reader is the stream it
  delivers, an opened writer is a number.

  \<open>writes_ok\<close> is what the upload relies on: after a successful \<^verbatim>\<open>OpenWrite\<close>, writes and \<^verbatim>\<open>Wait\<close>, the
  object has the bytes written, in order.
\<close>

record StorageInfo =
  si_IsCaseInsensitive :: bool
  si_IsReadOnly :: bool
  si_MaxComponentLength :: int
  si_TotalSize :: i64
  si_FreeSize :: i64

record 's storage =
  st_Info :: "bool \<Rightarrow> 's \<Rightarrow> StorageInfo res \<times> 's"
  st_List :: "gostring \<Rightarrow> gostring \<Rightarrow> int \<Rightarrow> 's \<Rightarrow> (gostring \<times> ObjectInfo list) res \<times> 's"
  st_Stat :: "gostring \<Rightarrow> 's \<Rightarrow> ObjectInfo res \<times> 's"
  st_Mkdir :: "gostring \<Rightarrow> 's \<Rightarrow> ObjectInfo res \<times> 's"
  st_Rmdir :: "gostring \<Rightarrow> 's \<Rightarrow> unit res \<times> 's"
  st_Remove :: "gostring \<Rightarrow> 's \<Rightarrow> unit res \<times> 's"
  st_Rename :: "gostring \<Rightarrow> gostring \<Rightarrow> 's \<Rightarrow> unit res \<times> 's"
  st_OpenRead :: "gostring \<Rightarrow> gostring \<Rightarrow> 's \<Rightarrow> (ObjectInfo \<times> stream option) res \<times> 's"
  st_OpenWrite :: "gostring \<Rightarrow> i64 \<Rightarrow> 's \<Rightarrow> nat res \<times> 's"
  wr_Write :: "nat \<Rightarrow> bytes \<Rightarrow> 's \<Rightarrow> unit res \<times> 's"
  wr_Wait :: "nat \<Rightarrow> 's \<Rightarrow> ObjectInfo res \<times> 's"
  wr_Close :: "nat \<Rightarrow> 's \<Rightarrow> 's"

text \<open>
  \<^verbatim>\<open>io.CopyN(writer, reader, n)\<close> from a file with exactly \<open>n\<close> bytes: the bytes are written in chunks of
  at most 32 KB, the buffer of \<^verbatim>\<open>io.Copy\<close>; an empty file needs no write.
\<close>

function write_chunks :: "'s storage \<Rightarrow> nat \<Rightarrow> bytes \<Rightarrow> 's \<Rightarrow> unit res \<times> 's" where
  "write_chunks S w b s =
     (if b = [] then (Ok (), s)
      else bindr (wr_Write S w (take 32768 b) s) (\<lambda>_ s. write_chunks S w (drop 32768 b) s))"
  by pat_completeness auto
termination
  by (relation "measure (\<lambda>(S, w, b, s). length b)") auto

declare write_chunks.simps [simp del]

text \<open>
  The documented contract of the writers, over a function \<open>pending\<close> that gives the name and the bytes
  of a writer in progress, and a function \<open>content\<close> that gives the bytes of an object.
\<close>

definition writes_ok ::
  "'s storage \<Rightarrow> ('s \<Rightarrow> nat \<Rightarrow> (gostring \<times> bytes) option) \<Rightarrow> ('s \<Rightarrow> gostring \<Rightarrow> bytes option) \<Rightarrow> bool" where
  "writes_ok S pending content \<longleftrightarrow>
     (\<forall>name n s w s'. st_OpenWrite S name n s = (Ok w, s') \<longrightarrow> pending s' w = Some (name, [])) \<and>
     (\<forall>w b s s' name old. wr_Write S w b s = (Ok (), s') \<longrightarrow> pending s w = Some (name, old) \<longrightarrow>
        pending s' w = Some (name, old @ b)) \<and>
     (\<forall>w s i s' name b. wr_Wait S w s = (Ok i, s') \<longrightarrow> pending s w = Some (name, b) \<longrightarrow>
        content s' name = Some b \<and> oi_Size i = of_nat (length b)) \<and>
     (\<forall>w s. content (wr_Close S w s) = content s)"

text \<open>A storage in memory, for the witnesses: the signature of an object is its first 32 bytes.\<close>

record memstore =
  ms_objects :: "(gostring, bytes) fmap"
  ms_dirs :: "gostring fset"
  ms_writers :: "nat \<Rightarrow> (gostring \<times> bytes) option"
  ms_next :: nat

definition memstore0 :: memstore where
  "memstore0 = \<lparr>ms_objects = fmempty, ms_dirs = {||}, ms_writers = (\<lambda>_. None), ms_next = 0\<rparr>"

definition mem_info :: "gostring \<Rightarrow> bool \<Rightarrow> bytes \<Rightarrow> ObjectInfo" where
  "mem_info name dir b =
     \<lparr>oi_Name = path_Base name, oi_Size = of_nat (length b), oi_Btime = 0, oi_Mtime = 0,
      oi_IsDir = dir, oi_Sig = take 32 b\<rparr>"

definition mem_storage :: "memstore storage" where
  "mem_storage =
     \<lparr>st_Info = (\<lambda>_ s. (Ok \<lparr>si_IsCaseInsensitive = False, si_IsReadOnly = False, si_MaxComponentLength = 255,
                           si_TotalSize = 0, si_FreeSize = 0\<rparr>, s)),
      st_List = (\<lambda>p m n s. (Ok ('''', []), s)),
      st_Stat = (\<lambda>name s. case fmlookup (ms_objects s) name of
                   Some b \<Rightarrow> (Ok (mem_info name False b), s)
                 | None \<Rightarrow> if name |\<in>| ms_dirs s then (Ok (mem_info name True []), s) else (Err (ExtErr 0), s)),
      st_Mkdir = (\<lambda>name s. (Ok (mem_info name True []), s\<lparr>ms_dirs := finsert name (ms_dirs s)\<rparr>)),
      st_Rmdir = (\<lambda>name s. (Ok (), s\<lparr>ms_dirs := ms_dirs s |-| {|name|}\<rparr>)),
      st_Remove = (\<lambda>name s. if fmlookup (ms_objects s) name = None then (Err (ExtErr 0), s)
                            else (Ok (), s\<lparr>ms_objects := fmdrop name (ms_objects s)\<rparr>)),
      st_Rename = (\<lambda>old new s. case fmlookup (ms_objects s) old of
                     None \<Rightarrow> (Err (ExtErr 0), s)
                   | Some b \<Rightarrow> (Ok (), s\<lparr>ms_objects := fmupd new b (fmdrop old (ms_objects s))\<rparr>)),
      st_OpenRead = (\<lambda>name sig s. case fmlookup (ms_objects s) name of
                       None \<Rightarrow> (Err (ExtErr 0), s)
                     | Some b \<Rightarrow>
                         (Ok (mem_info name False b, if sig \<noteq> '''' \<and> sig = take 32 b then None else Some (b, None)), s)),
      st_OpenWrite = (\<lambda>name n s. (Ok (ms_next s), s\<lparr>ms_next := Suc (ms_next s),
                        ms_writers := (ms_writers s)(ms_next s := Some (name, []))\<rparr>)),
      wr_Write = (\<lambda>w b s. case ms_writers s w of
                    None \<Rightarrow> (Err (ExtErr 2), s)
                  | Some (name, old) \<Rightarrow> (Ok (), s\<lparr>ms_writers := (ms_writers s)(w := Some (name, old @ b))\<rparr>)),
      wr_Wait = (\<lambda>w s. case ms_writers s w of
                   None \<Rightarrow> (Err (ExtErr 2), s)
                 | Some (name, b) \<Rightarrow> (Ok (mem_info name False b), s\<lparr>ms_objects := fmupd name b (ms_objects s)\<rparr>)),
      wr_Close = (\<lambda>w s. s\<lparr>ms_writers := (ms_writers s)(w := None)\<rparr>)\<rparr>"

subsection \<open>Writing an object\<close>

lemma writes_okD:
  assumes "writes_ok S pending content"
  shows "st_OpenWrite S name n s = (Ok w, s') \<Longrightarrow> pending s' w = Some (name, [])"
    and "wr_Write S w b s = (Ok (), s') \<Longrightarrow> pending s w = Some (name, old) \<Longrightarrow> pending s' w = Some (name, old @ b)"
    and "wr_Wait S w s = (Ok i, s') \<Longrightarrow> pending s w = Some (name, b) \<Longrightarrow>
           content s' name = Some b \<and> oi_Size i = of_nat (length b)"
    and "content (wr_Close S w s) = content s"
  using assms unfolding writes_ok_def by (elim conjE; simp)+

lemma write_chunks_pending:
  "write_chunks S w b s = (Ok (), s') \<Longrightarrow> writes_ok S pending content \<Longrightarrow> pending s w = Some (name, old) \<Longrightarrow>
    pending s' w = Some (name, old @ b)"
proof (induction S w b s arbitrary: old rule: write_chunks.induct)
  case (1 S w b s)
  show ?case
  proof (cases "b = []")
    case True
    with 1 show ?thesis by (simp add: write_chunks.simps)
  next
    case False
    with 1(2) obtain s1 where s1: "wr_Write S w (take 32768 b) s = (Ok (), s1)"
      "write_chunks S w (drop 32768 b) s1 = (Ok (), s')"
      by (subst (asm) write_chunks.simps) (auto elim: bindr_OkE)
    have "pending s1 w = Some (name, old @ take 32768 b)"
      using writes_okD(2)[OF 1(3) s1(1) 1(4)] .
    from 1(1)[OF False s1(2) 1(3) this] show ?thesis
      by (metis append.assoc append_take_drop_id)
  qed
qed

lemma mem_storage_simps [simp]:
  "st_OpenWrite mem_storage name n s =
     (Ok (ms_next s), s\<lparr>ms_next := Suc (ms_next s), ms_writers := (ms_writers s)(ms_next s := Some (name, []))\<rparr>)"
  "ms_writers s w = Some (name, old) \<Longrightarrow>
     wr_Write mem_storage w b s = (Ok (), s\<lparr>ms_writers := (ms_writers s)(w := Some (name, old @ b))\<rparr>)"
  "ms_writers s w = Some (name, b) \<Longrightarrow>
     wr_Wait mem_storage w s = (Ok (mem_info name False b), s\<lparr>ms_objects := fmupd name b (ms_objects s)\<rparr>)"
  "wr_Close mem_storage w s = s\<lparr>ms_writers := (ms_writers s)(w := None)\<rparr>"
  by (simp_all add: mem_storage_def)

lemma mem_writes_ok: "writes_ok mem_storage ms_writers (\<lambda>s. fmlookup (ms_objects s))"
  by (auto simp: writes_ok_def mem_storage_def mem_info_def split: option.splits prod.splits)

end
