(* ===== verification/Link.thy ===== *)
theory Link
  imports Prelude
begin

text \<open>
  The intrusive doubly linked list of \<^verbatim>\<open>src/cache/link.go\<close>, on an explicit heap.

  A \<^verbatim>\<open>*link_t\<close> is an address and the heap gives the two fields of every link, so the operations
  mutate shared links exactly as the pointers of the source do.  A list is a ring through its
  head: \<open>ring h l as\<close> says that from the head \<open>l\<close> the \<^verbatim>\<open>next\<close> fields lead through the addresses
  \<open>as\<close> and back, and the \<^verbatim>\<open>prev\<close> fields the other way.

  The locale \<open>ring_list\<close> is the interface the presence caches and the upload and evict queues
  rely on; the lemmas on moving an item to the tail, taking the first item and moving an item
  between two lists are proved once in it.
\<close>

record link_heap =
  link_prev :: "addr \<Rightarrow> addr"
  link_next :: "addr \<Rightarrow> addr"

definition link_Init :: "addr \<Rightarrow> link_heap \<Rightarrow> link_heap" where
  "link_Init link h =
     (let h = h\<lparr>link_prev := (link_prev h)(link := link)\<rparr>
      in h\<lparr>link_next := (link_next h)(link := link)\<rparr>)"

definition link_InsertTail :: "addr \<Rightarrow> addr \<Rightarrow> link_heap \<Rightarrow> link_heap" where
  "link_InsertTail link list h =
     (let prev = link_prev h list;
          h = h\<lparr>link_next := (link_next h)(link := list)\<rparr>;
          h = h\<lparr>link_prev := (link_prev h)(link := prev)\<rparr>;
          h = h\<lparr>link_next := (link_next h)(prev := link)\<rparr>
      in h\<lparr>link_prev := (link_prev h)(list := link)\<rparr>)"

definition link_Remove :: "addr \<Rightarrow> link_heap \<Rightarrow> link_heap" where
  "link_Remove link h =
     (let next = link_next h link;
          prev = link_prev h link;
          h = h\<lparr>link_next := (link_next h)(prev := next)\<rparr>
      in h\<lparr>link_prev := (link_prev h)(next := prev)\<rparr>)"

text \<open>
  \<^verbatim>\<open>containerOf\<close> subtracts the offset of the embedded link from its address, on machine addresses.
  The heap above names an item by the address of its link, which this function makes exact.
\<close>

definition containerOf :: "u64 \<Rightarrow> u64 \<Rightarrow> u64" where
  "containerOf p off = p - off"

fun links :: "link_heap \<Rightarrow> addr list \<Rightarrow> bool" where
  "links h (a # b # r) \<longleftrightarrow> link_next h a = b \<and> link_prev h b = a \<and> links h (b # r)"
| "links h _ \<longleftrightarrow> True"

definition ring :: "link_heap \<Rightarrow> addr \<Rightarrow> addr list \<Rightarrow> bool" where
  "ring h l as \<longleftrightarrow> distinct (l # as) \<and> links h (l # as @ [l])"

lemma containerOf_field: "containerOf (p + off) off = p"
  by (simp add: containerOf_def)

subsection \<open>Chains of links\<close>

lemma links_append:
  "links h (xs @ a # ys) \<longleftrightarrow> links h (xs @ [a]) \<and> links h (a # ys)"
proof (induction xs)
  case (Cons x xs)
  then show ?case by (cases xs) auto
qed simp

lemmas links_left = links_append [THEN iffD1, THEN conjunct1]
lemmas links_right = links_append [THEN iffD1, THEN conjunct2]
lemmas links_join = links_append [THEN iffD2, OF conjI]

text \<open>A chain only reads the \<^verbatim>\<open>next\<close> of all but its last link and the \<^verbatim>\<open>prev\<close> of all but its first.\<close>

lemma links_cong:
  assumes "\<And>a. a \<in> set (butlast xs) \<Longrightarrow> link_next h' a = link_next h a"
    and "\<And>a. a \<in> set (tl xs) \<Longrightarrow> link_prev h' a = link_prev h a"
  shows "links h' xs \<longleftrightarrow> links h xs"
  using assms
proof (induction h xs rule: links.induct)
  case (1 h a b r)
  have "links h' (b # r) \<longleftrightarrow> links h (b # r)"
  proof (rule 1)
    show "link_next h' c = link_next h c" if "c \<in> set (butlast (b # r))" for c
      using that 1(2)[of c] by simp
    show "link_prev h' c = link_prev h c" if "c \<in> set (tl (b # r))" for c
      using that 1(3)[of c] by simp
  qed
  moreover have "link_next h' a = link_next h a" "link_prev h' b = link_prev h b"
    using 1(2)[of a] 1(3)[of b] by simp_all
  ultimately show ?case by simp
qed simp_all

lemma link_InsertTail_fields:
  "link_next (link_InsertTail a l h) = (link_next h)(a := l, link_prev h l := a)"
  "link_prev (link_InsertTail a l h) = (link_prev h)(a := link_prev h l, l := a)"
  by (simp_all add: link_InsertTail_def Let_def)

lemma link_Remove_fields:
  "link_next (link_Remove a h) = (link_next h)(link_prev h a := link_next h a)"
  "link_prev (link_Remove a h) = (link_prev h)(link_next h a := link_prev h a)"
  by (simp_all add: link_Remove_def Let_def)

lemma ring_ends:
  assumes "ring h l as"
  shows "link_next h l = hd (as @ [l])" and "link_prev h l = last (l # as)"
proof -
  from assms have links: "links h (l # as @ [l])"
    by (simp add: ring_def)
  then show "link_next h l = hd (as @ [l])"
    by (cases as) simp_all
  show "link_prev h l = last (l # as)"
  proof (cases as rule: rev_cases)
    case Nil
    with links show ?thesis by simp
  next
    case (snoc bs b)
    with links have "links h ((l # bs) @ b # [l])" by simp
    then have "links h (b # [l])" by (rule links_right)
    with snoc show ?thesis by simp
  qed
qed

text \<open>
  The neighbours of a link of a ring: the whole cycle split around it, with the head at both ends.
\<close>

lemma ring_split:
  assumes "ring h l (xs @ a # ys)"
  obtains bs p n cs where "l # xs = bs @ [p]" "ys @ [l] = n # cs"
    "links h (bs @ [p])" "links h (n # cs)"
    "link_next h p = a" "link_prev h a = p" "link_next h a = n" "link_prev h n = a"
proof -
  obtain bs p where left: "l # xs = bs @ [p]"
    using rev_exhaust by blast
  obtain n cs where right: "ys @ [l] = n # cs"
    by (cases ys) auto
  have "l # (xs @ a # ys) @ [l] = (l # xs) @ a # (ys @ [l])"
    by simp
  also have "\<dots> = bs @ p # a # n # cs"
    using left right by simp
  finally have "links h (bs @ p # a # n # cs)"
    using assms by (simp only: ring_def)
  then have "links h (bs @ [p])" "links h (p # a # n # cs)"
    by (rule links_left, rule links_right)
  with left right show ?thesis
    by (intro that[of bs p n cs]) simp_all
qed

lemma ring_Init: "ring (link_Init l h) l []"
  by (simp add: ring_def link_Init_def Let_def)

lemma ring_InsertTail:
  assumes "ring h l as" and "a \<notin> set (l # as)"
  shows "ring (link_InsertTail a l h) l (as @ [a])"
proof -
  let ?h = "link_InsertTail a l h"
  obtain bs z where split: "l # as = bs @ [z]"
    using rev_exhaust by blast
  have z: "link_prev h l = z"
    using ring_ends(2)[OF assms(1)] split by simp
  have dist: "distinct (bs @ [z])"
    using assms(1) split by (metis ring_def)
  have cyc: "l # as @ [l] = bs @ z # [l]" "l # (as @ [a]) @ [l] = bs @ z # [a, l]"
    using split by (metis append.assoc append_Cons append_Nil)+
  have "links h (bs @ z # [l])"
    using assms(1) cyc(1) by (simp only: ring_def)
  then have "links h (bs @ [z])"
    by (rule links_left)
  moreover have fresh: "a \<notin> set (bs @ [z])"
    using assms(2) split by metis
  moreover have "set (tl (bs @ [z])) = set as"
    unfolding split[symmetric] by simp
  moreover have "l \<notin> set as"
    using assms(1) by (simp add: ring_def)
  ultimately have "links ?h (bs @ [z])"
    using dist z fresh assms(2)
    by (subst links_cong[where h = h]) (auto simp: link_InsertTail_fields)
  moreover have "links ?h (z # [a, l])"
    using assms(2) fresh z by (auto simp: link_InsertTail_fields)
  ultimately have "links ?h (l # (as @ [a]) @ [l])"
    unfolding cyc(2) by (rule links_join)
  then show ?thesis
    using assms by (auto simp: ring_def)
qed

lemma ring_Remove:
  assumes "ring h l (xs @ a # ys)"
  shows "ring (link_Remove a h) l (xs @ ys)"
proof -
  let ?h = "link_Remove a h"
  obtain bs p n cs where left: "l # xs = bs @ [p]" and right: "ys @ [l] = n # cs"
    and chains: "links h (bs @ [p])" "links h (n # cs)"
    and pn: "link_prev h a = p" "link_next h a = n"
    using assms by (rule ring_split)
  have dl: "distinct (l # xs @ a # ys)"
    using assms by (simp add: ring_def)
  have xs: "tl (bs @ [p]) = xs" and ys: "butlast (n # cs) = ys"
    unfolding left[symmetric] right[symmetric] by simp_all
  have dist: "distinct (bs @ [p])" "distinct (n # cs)"
    unfolding left[symmetric] right[symmetric] using dl by auto
  have "n \<in> set (n # cs)" "p \<in> set (bs @ [p])"
    by simp_all
  then have n_in: "n \<in> set (l # ys)" and p_in: "p \<in> set (l # xs)"
    unfolding left[symmetric] right[symmetric] by simp_all
  have "links ?h (bs @ [p])"
    using chains(1) dist(1) pn n_in dl
    by (subst links_cong[where h = h]) (auto simp: link_Remove_fields xs)
  moreover have "links ?h (n # cs)"
  proof (subst links_cong[where h = h])
    show "link_next ?h b = link_next h b" if "b \<in> set (butlast (n # cs))" for b
      using that p_in dl pn unfolding ys by (auto simp: link_Remove_fields)
    show "link_prev ?h b = link_prev h b" if "b \<in> set (tl (n # cs))" for b
      using that dist(2) pn by (auto simp: link_Remove_fields)
  qed (rule chains(2))
  moreover from this have "links ?h (p # n # cs)"
    using pn by (simp add: link_Remove_fields)
  ultimately have "links ?h (bs @ p # n # cs)"
    by (blast intro: links_join)
  moreover have "l # (xs @ ys) @ [l] = bs @ p # n # cs"
    using left right by (metis append.assoc append_Cons append_Nil)
  ultimately show ?thesis
    using dl by (simp add: ring_def)
qed

text \<open>Two rings with no address in common do not see each other's updates.\<close>

lemma ring_frame:
  assumes "ring h l as"
    and "\<And>b. b \<in> set (l # as) \<Longrightarrow>
           link_next h' b = link_next h b \<and> link_prev h' b = link_prev h b"
  shows "ring h' l as"
proof -
  have "links h' (l # as @ [l]) \<longleftrightarrow> links h (l # as @ [l])"
  proof (rule links_cong)
    show "link_next h' a = link_next h a" if "a \<in> set (butlast (l # as @ [l]))" for a
      using assms(2)[of a] in_set_butlastD[OF that] by auto
    show "link_prev h' a = link_prev h a" if "a \<in> set (tl (l # as @ [l]))" for a
      using assms(2)[of a] that by auto
  qed
  then show ?thesis
    using assms(1) by (simp add: ring_def)
qed

lemma ring_frame_InsertTail:
  assumes "ring h l as" "ring h m bs" "set (l # as) \<inter> set (m # bs) = {}" "a \<notin> set (m # bs)"
  shows "ring (link_InsertTail a l h) m bs"
proof (rule ring_frame[OF assms(2)])
  fix b
  assume "b \<in> set (m # bs)"
  moreover have "link_prev h l \<in> set (l # as)"
    using ring_ends(2)[OF assms(1)] by (metis last_in_set list.discI)
  ultimately show "link_next (link_InsertTail a l h) b = link_next h b \<and>
      link_prev (link_InsertTail a l h) b = link_prev h b"
    using assms(3,4) by (auto simp: link_InsertTail_fields)
qed

lemma ring_frame_Remove:
  assumes "ring h l as" "a \<in> set as" "ring h m bs" "set (l # as) \<inter> set (m # bs) = {}"
  shows "ring (link_Remove a h) m bs"
proof (rule ring_frame[OF assms(3)])
  fix b
  assume b: "b \<in> set (m # bs)"
  from assms(2) obtain xs ys where as: "as = xs @ a # ys"
    by (auto simp: in_set_conv_decomp)
  with assms(1) have "ring h l (xs @ a # ys)" by simp
  then obtain ps p n cs where left: "l # xs = ps @ [p]" and right: "ys @ [l] = n # cs"
    and pn: "link_prev h a = p" "link_next h a = n"
    by (rule ring_split)
  have "p \<in> set (l # xs)" "n \<in> set (ys @ [l])"
    unfolding left right by simp_all
  then have "p \<in> set (l # as)" "n \<in> set (l # as)"
    using as by auto
  then show "link_next (link_Remove a h) b = link_next h b \<and>
      link_prev (link_Remove a h) b = link_prev h b"
    using b assms(4) pn by (auto simp: link_Remove_fields)
qed

subsection \<open>The interface the caches use\<close>

locale ring_list =
  fixes init :: "addr \<Rightarrow> 'h \<Rightarrow> 'h"
    and insert_tail :: "addr \<Rightarrow> addr \<Rightarrow> 'h \<Rightarrow> 'h"
    and remove :: "addr \<Rightarrow> 'h \<Rightarrow> 'h"
    and nxt :: "'h \<Rightarrow> addr \<Rightarrow> addr"
    and rep :: "'h \<Rightarrow> addr \<Rightarrow> addr list \<Rightarrow> bool"
  assumes rep_distinct: "rep h l as \<Longrightarrow> distinct (l # as)"
    and rep_init: "rep (init l h) l []"
    and rep_insert_tail: "rep h l as \<Longrightarrow> a \<notin> set (l # as) \<Longrightarrow> rep (insert_tail a l h) l (as @ [a])"
    and rep_remove: "rep h l (xs @ a # ys) \<Longrightarrow> rep (remove a h) l (xs @ ys)"
    and rep_nxt: "rep h l as \<Longrightarrow> nxt h l = hd (as @ [l])"
    and frame_insert_tail: "rep h l as \<Longrightarrow> rep h m bs \<Longrightarrow> set (l # as) \<inter> set (m # bs) = {} \<Longrightarrow>
           a \<notin> set (m # bs) \<Longrightarrow> rep (insert_tail a l h) m bs"
    and frame_remove: "rep h l as \<Longrightarrow> a \<in> set as \<Longrightarrow> rep h m bs \<Longrightarrow>
           set (l # as) \<inter> set (m # bs) = {} \<Longrightarrow> rep (remove a h) m bs"
begin

lemma rep_remove1:
  assumes "rep h l as" and "a \<in> set as"
  shows "rep (remove a h) l (remove1 a as)"
proof -
  from assms(2) obtain xs ys where as: "as = xs @ a # ys"
    by (auto simp: in_set_conv_decomp)
  moreover have "distinct as"
    using rep_distinct[OF assms(1)] by simp
  ultimately show ?thesis
    using rep_remove[of h l xs a ys] assms(1) distinct_remove1_split[of xs a ys] by simp
qed

lemma rep_move_tail:
  assumes "rep h l as" and "a \<in> set as"
  shows "rep (insert_tail a l (remove a h)) l (remove1 a as @ [a])"
proof (rule rep_insert_tail)
  show "rep (remove a h) l (remove1 a as)"
    using assms by (rule rep_remove1)
  show "a \<notin> set (l # remove1 a as)"
    using rep_distinct[OF assms(1)] assms(2) by auto
qed

lemma rep_empty_iff: "rep h l as \<Longrightarrow> nxt h l = l \<longleftrightarrow> as = []"
  using rep_distinct[of h l as] rep_nxt[of h l as] by (cases as) auto

lemma rep_first: "rep h l (a # as) \<Longrightarrow> nxt h l = a"
  using rep_nxt[of h l "a # as"] by simp

lemma rep_pop: "rep h l (a # as) \<Longrightarrow> rep (remove a h) l as"
  using rep_remove[of h l "[]" a as] by simp

lemma rep_transfer:
  assumes l: "rep h l as" and m: "rep h m bs" and disj: "set (l # as) \<inter> set (m # bs) = {}"
    and a: "a \<in> set as"
  shows "rep (insert_tail a m (remove a h)) l (remove1 a as)"
    and "rep (insert_tail a m (remove a h)) m (bs @ [a])"
proof -
  have l': "rep (remove a h) l (remove1 a as)" and m': "rep (remove a h) m bs"
    using rep_remove1[OF l a] frame_remove[OF l a m disj] by simp_all
  have sub: "set (remove1 a as) \<subseteq> set as"
    by (rule set_remove1_subset)
  have "a \<notin> set (l # remove1 a as)"
    using rep_distinct[OF l] a by auto
  moreover have "set (m # bs) \<inter> set (l # remove1 a as) = {}"
    using disj sub by auto
  ultimately show "rep (insert_tail a m (remove a h)) l (remove1 a as)"
    using frame_insert_tail[OF m' l'] by simp
  show "rep (insert_tail a m (remove a h)) m (bs @ [a])"
    using m' disj a by (intro rep_insert_tail) auto
qed

end

lemma ring_distinct: "ring h l as \<Longrightarrow> distinct (l # as)"
  by (simp add: ring_def)

interpretation link: ring_list link_Init link_InsertTail link_Remove link_next ring
  by unfold_locales
    (rule ring_distinct ring_Init ring_InsertTail ring_Remove ring_ends(1) ring_frame_InsertTail
      ring_frame_Remove; assumption)+

end
