(* ===== verification/Presence.thy ===== *)
theory Presence
  imports Link
begin

text \<open>
  The \<^verbatim>\<open>pathPresenceCache\<close> of \<^verbatim>\<open>src/cache/cache.go\<close> (used for the directory listings and the
  negative lookups), on the pointers the source has: a map from path keys to items and an
  intrusive list of the same items, oldest first.  The mutex \<^verbatim>\<open>presmux\<close> is held over the whole of
  every method, so a method is one step.  The value that \<^verbatim>\<open>time.Now().UnixNano()\<close> returns is the
  argument \<open>now\<close>.  An item is named by the address of the link embedded in it.

  \<open>pres_rep p as\<close> is the representation invariant; \<open>pres_list\<close> reads the abstract content, a list
  of keys with their times.  The operations are shown to refine the functions \<open>spec_add\<close> and
  \<open>del_key\<close> on such lists.
\<close>

record pathitem =
  pi_pathKey :: gostring
  pi_atime :: i64

record pathPresenceCache =
  pathTimeout :: i64
  pathMaxCount :: int
  presmap :: "(gostring, addr) fmap"
  preslst :: addr
  plinks :: link_heap
  pitems :: "addr \<Rightarrow> pathitem"
  pnext :: addr

definition newPathPresenceCache :: "i64 \<Rightarrow> int \<Rightarrow> pathPresenceCache" where
  "newPathPresenceCache timeout maxcount =
     \<lparr>pathTimeout = timeout, pathMaxCount = maxcount, presmap = fmempty, preslst = 0,
      plinks = link_Init 0 \<lparr>link_prev = (\<lambda>_. 0), link_next = (\<lambda>_. 0)\<rparr>,
      pitems = (\<lambda>_. \<lparr>pi_pathKey = '''', pi_atime = 0\<rparr>), pnext = 1\<rparr>"

definition pres_unlink :: "gostring \<Rightarrow> addr \<Rightarrow> pathPresenceCache \<Rightarrow> pathPresenceCache" where
  "pres_unlink k item p =
     p\<lparr>plinks := link_Remove item (plinks p), presmap := fmdrop k (presmap p)\<rparr>"

definition hasPath :: "i64 \<Rightarrow> gostring \<Rightarrow> pathPresenceCache \<Rightarrow> bool \<times> pathPresenceCache" where
  "hasPath now k p =
     (case fmlookup (presmap p) k of
        None \<Rightarrow> (False, p)
      | Some item \<Rightarrow>
          if expired (pi_atime (pitems p item)) (pathTimeout p) now
          then (False, pres_unlink k item p)
          else (True, p))"

definition pres_touch :: "i64 \<Rightarrow> addr \<Rightarrow> pathPresenceCache \<Rightarrow> pathPresenceCache" where
  "pres_touch now item p =
     (let p = p\<lparr>pitems := (pitems p)(item := (pitems p item)\<lparr>pi_atime := now\<rparr>)\<rparr>
      in p\<lparr>plinks := link_InsertTail item (preslst p) (plinks p)\<rparr>)"

definition pres_make_room :: "pathPresenceCache \<Rightarrow> pathPresenceCache" where
  "pres_make_room p =
     (if pathMaxCount p \<le> map_len (presmap p) then
        (let link = link_next (plinks p) (preslst p)
         in if preslst p \<noteq> link then pres_unlink (pi_pathKey (pitems p link)) link p else p)
      else p)"

definition pres_new_item :: "gostring \<Rightarrow> pathPresenceCache \<Rightarrow> addr \<times> pathPresenceCache" where
  "pres_new_item k p =
     (let item = pnext p
      in (item, p\<lparr>pnext := Suc item,
                  pitems := (pitems p)(item := \<lparr>pi_pathKey = k, pi_atime = 0\<rparr>),
                  presmap := fmupd k item (presmap p)\<rparr>))"

definition addPath :: "i64 \<Rightarrow> gostring \<Rightarrow> pathPresenceCache \<Rightarrow> pathPresenceCache" where
  "addPath now k p =
     (case fmlookup (presmap p) k of
        Some item \<Rightarrow> pres_touch now item (p\<lparr>plinks := link_Remove item (plinks p)\<rparr>)
      | None \<Rightarrow> (let (item, p) = pres_new_item k (pres_make_room p) in pres_touch now item p))"

definition removePath :: "gostring \<Rightarrow> pathPresenceCache \<Rightarrow> pathPresenceCache" where
  "removePath k p =
     (case fmlookup (presmap p) k of None \<Rightarrow> p | Some item \<Rightarrow> pres_unlink k item p)"

definition removeAllPath :: "gostring \<Rightarrow> pathPresenceCache \<Rightarrow> pathPresenceCache" where
  "removeAllPath k p =
     p\<lparr>presmap := fmempty, plinks := link_Init (preslst p) (plinks p)\<rparr>"

text \<open>The invariant that ties the map to the list, and the content of a cache.\<close>

definition pres_rep :: "pathPresenceCache \<Rightarrow> addr list \<Rightarrow> bool" where
  "pres_rep p as \<longleftrightarrow>
     ring (plinks p) (preslst p) as \<and>
     (\<forall>k a. fmlookup (presmap p) k = Some a \<longleftrightarrow> a \<in> set as \<and> pi_pathKey (pitems p a) = k) \<and>
     (\<forall>a \<in> set (preslst p # as). a < pnext p)"

definition pres_list :: "pathPresenceCache \<Rightarrow> addr list \<Rightarrow> (gostring \<times> i64) list" where
  "pres_list p as = map (\<lambda>a. (pi_pathKey (pitems p a), pi_atime (pitems p a))) as"

definition pres_inv :: "pathPresenceCache \<Rightarrow> bool" where
  "pres_inv p \<longleftrightarrow> (\<exists>as. pres_rep p as)"

definition pres_time :: "pathPresenceCache \<Rightarrow> gostring \<Rightarrow> i64 option" where
  "pres_time p k = map_option (\<lambda>a. pi_atime (pitems p a)) (fmlookup (presmap p) k)"

text \<open>The abstract cache: keys with their times, oldest first, no key twice.\<close>

definition spec_add ::
  "int \<Rightarrow> i64 \<Rightarrow> gostring \<Rightarrow> (gostring \<times> i64) list \<Rightarrow> (gostring \<times> i64) list" where
  "spec_add maxcount now k xs =
     (if k \<in> fst ` set xs then del_key k xs
      else if maxcount \<le> int (length xs) then tl xs else xs) @ [(k, now)]"

definition spec_has ::
  "i64 \<Rightarrow> i64 \<Rightarrow> gostring \<Rightarrow> (gostring \<times> i64) list \<Rightarrow> bool \<times> (gostring \<times> i64) list" where
  "spec_has timeout now k xs =
     (case map_of xs k of
        None \<Rightarrow> (False, xs)
      | Some t \<Rightarrow> if expired t timeout now then (False, del_key k xs) else (True, xs))"

text \<open>Any sequence of calls, on the pointers and on the lists.\<close>

datatype presop = PHas i64 gostring | PAdd i64 gostring | PRemove gostring | PRemoveAll gostring

fun pres_step :: "presop \<Rightarrow> pathPresenceCache \<Rightarrow> pathPresenceCache" where
  "pres_step (PHas now k) p = snd (hasPath now k p)"
| "pres_step (PAdd now k) p = addPath now k p"
| "pres_step (PRemove k) p = removePath k p"
| "pres_step (PRemoveAll k) p = removeAllPath k p"

fun spec_step ::
  "i64 \<Rightarrow> int \<Rightarrow> presop \<Rightarrow> (gostring \<times> i64) list \<Rightarrow> (gostring \<times> i64) list" where
  "spec_step timeout maxcount (PHas now k) xs = snd (spec_has timeout now k xs)"
| "spec_step timeout maxcount (PAdd now k) xs = spec_add maxcount now k xs"
| "spec_step timeout maxcount (PRemove k) xs = del_key k xs"
| "spec_step timeout maxcount (PRemoveAll k) xs = []"

text \<open>The time of the last \<^verbatim>\<open>addPath\<close> of a key that no removal of it follows.\<close>

fun last_add :: "gostring \<Rightarrow> presop list \<Rightarrow> i64 option" where
  "last_add k [] = None"
| "last_add k (PHas now k' # ops) = last_add k ops"
| "last_add k (PAdd now k' # ops) = (if k' = k then Some now else last_add k ops)"
| "last_add k (PRemove k' # ops) = (if k' = k then None else last_add k ops)"
| "last_add k (PRemoveAll k' # ops) = None"

subsection \<open>The invariant\<close>

lemma pres_repD:
  assumes "pres_rep p as"
  shows "ring (plinks p) (preslst p) as"
    and "fmlookup (presmap p) k = Some a \<longleftrightarrow> a \<in> set as \<and> pi_pathKey (pitems p a) = k"
    and "a \<in> set as \<Longrightarrow> a < pnext p" and "preslst p < pnext p"
    and "distinct as" and "preslst p \<notin> set as"
  using assms ring_distinct[of "plinks p" "preslst p" as] by (auto simp: pres_rep_def)

lemma pres_rep_inj:
  assumes "pres_rep p as" "a \<in> set as" "b \<in> set as" "pi_pathKey (pitems p a) = pi_pathKey (pitems p b)"
  shows "a = b"
proof -
  have "fmlookup (presmap p) (pi_pathKey (pitems p a)) = Some a"
    "fmlookup (presmap p) (pi_pathKey (pitems p a)) = Some b"
    using assms pres_repD(2)[OF assms(1)] by auto
  then show ?thesis by simp
qed

lemma pres_rep_new: "pres_rep (newPathPresenceCache t m) []"
  by (simp add: pres_rep_def newPathPresenceCache_def ring_Init)

lemma pres_rep_unlink:
  assumes "pres_rep p as" and "a \<in> set as" and "pi_pathKey (pitems p a) = k"
  shows "pres_rep (pres_unlink k a p) (remove1 a as)"
proof -
  note D = pres_repD[OF assms(1)]
  have "ring (link_Remove a (plinks p)) (preslst p) (remove1 a as)"
    using D(1) assms(2) by (rule link.rep_remove1)
  moreover have "fmlookup (fmdrop k (presmap p)) k' = Some b \<longleftrightarrow>
      b \<in> set (remove1 a as) \<and> pi_pathKey (pitems p b) = k'" for k' b
    using D(2)[of k' b] D(5) assms(2,3) pres_rep_inj[OF assms(1,2), of b] by auto
  moreover have "set (remove1 a as) \<subseteq> set as"
    by (rule set_remove1_subset)
  ultimately show ?thesis
    using D(3,4) by (auto simp: pres_rep_def pres_unlink_def)
qed

lemma pres_list_unlink:
  assumes "pres_rep p as" and "a \<in> set as" and "pi_pathKey (pitems p a) = k"
  shows "pres_list (pres_unlink k a p) (remove1 a as) = del_key k (pres_list p as)"
proof -
  have "inj_on (\<lambda>a. pi_pathKey (pitems p a)) (set as)"
    using pres_rep_inj[OF assms(1)] by (auto simp: inj_on_def)
  from del_key_map[OF pres_repD(5)[OF assms(1)] this assms(2), of "\<lambda>a. pi_atime (pitems p a)"] assms(3) show ?thesis
    by (simp add: pres_list_def pres_unlink_def)
qed

text \<open>
  The last three steps of \<^verbatim>\<open>addPath\<close>: the item, already in the map under its key but in no list,
  gets its time and joins the tail.
\<close>

lemma pres_rep_touch:
  assumes ring: "ring (plinks p) (preslst p) as"
    and map: "\<And>k a. fmlookup (presmap p) k = Some a \<longleftrightarrow>
                a \<in> set (as @ [item]) \<and> pi_pathKey (pitems p a) = k"
    and fresh: "item \<notin> set (preslst p # as)" and bound: "\<forall>a \<in> set (preslst p # as @ [item]). a < pnext p"
  shows "pres_rep (pres_touch now item p) (as @ [item])"
    and "pres_list (pres_touch now item p) (as @ [item]) =
           pres_list p as @ [(pi_pathKey (pitems p item), now)]"
proof -
  have "ring (link_InsertTail item (preslst p) (plinks p)) (preslst p) (as @ [item])"
    using ring fresh by (rule link.rep_insert_tail)
  then show "pres_rep (pres_touch now item p) (as @ [item])"
    using map bound by (simp add: pres_rep_def pres_touch_def Let_def)
  show "pres_list (pres_touch now item p) (as @ [item]) =
      pres_list p as @ [(pi_pathKey (pitems p item), now)]"
    using fresh by (auto simp: pres_list_def pres_touch_def Let_def)
qed

lemma map_len_presmap: "pres_rep p as \<Longrightarrow> map_len (presmap p) = int (length as)"
  by (rule map_len_bij[where f = "\<lambda>a. pi_pathKey (pitems p a)"]) (auto simp: pres_repD)

lemma pres_make_room_rep:
  assumes "pres_rep p as"
  shows "\<exists>bs. pres_rep (pres_make_room p) bs \<and> set bs \<subseteq> set as \<and>
           pres_list (pres_make_room p) bs =
             (if pathMaxCount p \<le> int (length as) then tl (pres_list p as) else pres_list p as)"
proof (cases as)
  case Nil
  have "link_next (plinks p) (preslst p) = preslst p"
    using link.rep_empty_iff[OF pres_repD(1)[OF assms]] Nil by simp
  then have "pres_make_room p = p"
    by (simp add: pres_make_room_def)
  with assms Nil show ?thesis
    by (auto simp: pres_list_def)
next
  case (Cons a bs)
  have first: "link_next (plinks p) (preslst p) = a"
    using link.rep_first pres_repD(1)[OF assms] Cons by simp
  have "preslst p \<noteq> a"
    using pres_repD(6)[OF assms] Cons by auto
  let ?q = "pres_unlink (pi_pathKey (pitems p a)) a p"
  have rep: "pres_rep ?q bs"
    using pres_rep_unlink[OF assms, of a] Cons by simp
  have "pres_list ?q bs = map (\<lambda>b. (pi_pathKey (pitems p b), pi_atime (pitems p b))) bs"
    by (simp add: pres_list_def pres_unlink_def)
  then have tl: "pres_list ?q bs = tl (pres_list p as)"
    using Cons by (simp add: pres_list_def)
  show ?thesis
  proof (cases "pathMaxCount p \<le> int (length as)")
    case True
    then have "pres_make_room p = ?q"
      using map_len_presmap[OF assms] first \<open>preslst p \<noteq> a\<close>
      by (simp add: pres_make_room_def Let_def)
    with rep tl True Cons show ?thesis by auto
  next
    case False
    then have "pres_make_room p = p"
      using map_len_presmap[OF assms] by (simp add: pres_make_room_def)
    with False assms show ?thesis by auto
  qed
qed

lemma length_pres_list [simp]: "length (pres_list p as) = length as"
  by (simp add: pres_list_def)

lemma fst_pres_list: "k \<in> fst ` set (pres_list p as) \<longleftrightarrow> k \<in> (\<lambda>a. pi_pathKey (pitems p a)) ` set as"
  by (auto simp: pres_list_def image_iff)

lemma pres_rep_None:
  assumes "pres_rep p as"
  shows "fmlookup (presmap p) k = None \<longleftrightarrow> k \<notin> fst ` set (pres_list p as)"
proof (cases "fmlookup (presmap p) k")
  case None
  then show ?thesis
    unfolding fst_pres_list using pres_repD(2)[OF assms, of k] by auto
next
  case (Some a)
  then show ?thesis
    unfolding fst_pres_list using pres_repD(2)[OF assms, of k a] by auto
qed

text \<open>A key that is in the map already: its item moves to the tail with the new time.\<close>

lemma addPath_old:
  assumes "pres_rep p as" and "fmlookup (presmap p) k = Some item"
  shows "\<exists>bs. pres_rep (addPath now k p) bs \<and>
           pres_list (addPath now k p) bs = del_key k (pres_list p as) @ [(k, now)]"
proof -
  note D = pres_repD[OF assms(1)]
  from assms(2) have item: "item \<in> set as" "pi_pathKey (pitems p item) = k"
    using D(2) by auto
  let ?p = "p\<lparr>plinks := link_Remove item (plinks p)\<rparr>"
  have "ring (plinks ?p) (preslst ?p) (remove1 item as)"
    using link.rep_remove1[OF D(1) item(1)] by simp
  moreover have "fmlookup (presmap ?p) k' = Some a \<longleftrightarrow>
      a \<in> set (remove1 item as @ [item]) \<and> pi_pathKey (pitems ?p a) = k'" for k' a
    using D(2)[of k' a] D(5) item(1) by auto
  moreover have "item \<notin> set (preslst ?p # remove1 item as)"
    using D(5,6) item(1) by auto
  moreover have "\<forall>a \<in> set (preslst ?p # remove1 item as @ [item]). a < pnext ?p"
    using D(3,4) item(1) set_remove1_subset[of item as] by auto
  ultimately have "pres_rep (pres_touch now item ?p) (remove1 item as @ [item])"
    "pres_list (pres_touch now item ?p) (remove1 item as @ [item]) =
      pres_list ?p (remove1 item as) @ [(pi_pathKey (pitems ?p item), now)]"
    by (rule pres_rep_touch)+
  moreover have "pres_list ?p (remove1 item as) = del_key k (pres_list p as)"
    using pres_list_unlink[OF assms(1) item] by (simp add: pres_list_def pres_unlink_def)
  ultimately show ?thesis
    using assms(2) item(2) by (auto simp: addPath_def intro!: exI)
qed

text \<open>A key that is not: a fresh item joins the tail.\<close>

lemma pres_add_new:
  assumes "pres_rep q bs" and "k \<notin> fst ` set (pres_list q bs)"
    and "pres_new_item k q = (item, r)"
  shows "pres_rep (pres_touch now item r) (bs @ [item])"
    and "pres_list (pres_touch now item r) (bs @ [item]) = pres_list q bs @ [(k, now)]"
proof -
  note D = pres_repD[OF assms(1)]
  have item: "item = pnext q" and r: "r = q\<lparr>pnext := Suc item,
      pitems := (pitems q)(item := \<lparr>pi_pathKey = k, pi_atime = 0\<rparr>),
      presmap := fmupd k item (presmap q)\<rparr>"
    using assms(3) by (auto simp: pres_new_item_def Let_def)
  have fresh: "item \<notin> set (preslst q # bs)"
    using D(3,4) by (auto simp: item)
  have ring: "ring (plinks r) (preslst r) bs"
    using D(1) by (simp add: r)
  have map: "fmlookup (presmap r) k' = Some a \<longleftrightarrow>
      a \<in> set (bs @ [item]) \<and> pi_pathKey (pitems r a) = k'" for k' a
    using D(2)[of k' a] fresh assms(2) by (auto simp: r fst_pres_list)
  have fresh': "item \<notin> set (preslst r # bs)"
    using fresh by (simp add: r)
  have bound: "\<forall>a \<in> set (preslst r # bs @ [item]). a < pnext r"
    using D(3,4) by (auto simp: r item less_Suc_eq)
  show "pres_rep (pres_touch now item r) (bs @ [item])"
    using ring map fresh' bound by (rule pres_rep_touch(1))
  have "pres_list r bs = pres_list q bs"
    using fresh by (auto simp: pres_list_def r)
  then show "pres_list (pres_touch now item r) (bs @ [item]) = pres_list q bs @ [(k, now)]"
    using pres_rep_touch(2)[OF ring map fresh' bound, of now] by (simp add: r)
qed

lemma addPath_new:
  assumes "pres_rep p as" and "fmlookup (presmap p) k = None"
  shows "\<exists>bs. pres_rep (addPath now k p) bs \<and>
           pres_list (addPath now k p) bs =
             (if pathMaxCount p \<le> int (length as) then tl (pres_list p as) else pres_list p as) @
             [(k, now)]"
proof -
  obtain bs where bs: "pres_rep (pres_make_room p) bs"
    and list: "pres_list (pres_make_room p) bs =
      (if pathMaxCount p \<le> int (length as) then tl (pres_list p as) else pres_list p as)"
    using pres_make_room_rep[OF assms(1)] by blast
  have "set (pres_list (pres_make_room p) bs) \<subseteq> set (pres_list p as)"
    unfolding list by (cases "pres_list p as") auto
  then have "k \<notin> fst ` set (pres_list (pres_make_room p) bs)"
    using assms pres_rep_None by blast
  moreover obtain item r where new: "pres_new_item k (pres_make_room p) = (item, r)"
    by force
  ultimately show ?thesis
    using pres_add_new[OF bs _ new, of now] list assms(2) by (auto simp: addPath_def intro!: exI)
qed

lemma addPath_refines:
  assumes "pres_rep p as"
  shows "\<exists>bs. pres_rep (addPath now k p) bs \<and>
           pres_list (addPath now k p) bs = spec_add (pathMaxCount p) now k (pres_list p as)"
proof (cases "fmlookup (presmap p) k")
  case None
  then have "k \<notin> fst ` set (pres_list p as)"
    using pres_rep_None[OF assms] by simp
  then show ?thesis
    using addPath_new[OF assms None, of now] by (simp add: spec_add_def)
next
  case (Some item)
  then have "k \<in> fst ` set (pres_list p as)"
    using pres_rep_None[OF assms, of k] by simp
  then show ?thesis
    using addPath_old[OF assms Some, of now] by (simp add: spec_add_def)
qed

lemma pres_time_map_of:
  assumes "pres_rep p as"
  shows "pres_time p k = map_of (pres_list p as) k"
proof (cases "fmlookup (presmap p) k")
  case None
  then show ?thesis
    using pres_rep_None[OF assms, of k] by (simp add: pres_time_def) (metis map_of_eq_None_iff)
next
  case (Some a)
  then have a: "a \<in> set as" "pi_pathKey (pitems p a) = k"
    using pres_repD(2)[OF assms] by auto
  have "distinct (map fst (pres_list p as))"
    using pres_repD(5)[OF assms] pres_rep_inj[OF assms]
    by (auto simp: pres_list_def distinct_map inj_on_def)
  moreover have "(k, pi_atime (pitems p a)) \<in> set (pres_list p as)"
    using a by (force simp: pres_list_def)
  ultimately have "map_of (pres_list p as) k = Some (pi_atime (pitems p a))"
    by simp
  with Some show ?thesis
    by (simp add: pres_time_def)
qed

lemma removePath_refines:
  assumes "pres_rep p as"
  shows "\<exists>bs. pres_rep (removePath k p) bs \<and>
           pres_list (removePath k p) bs = del_key k (pres_list p as)"
proof (cases "fmlookup (presmap p) k")
  case None
  then have "del_key k (pres_list p as) = pres_list p as"
    using pres_rep_None[OF assms, of k] by (simp add: del_key_id)
  with assms None show ?thesis
    by (auto simp: removePath_def)
next
  case (Some a)
  then have "a \<in> set as" "pi_pathKey (pitems p a) = k"
    using pres_repD(2)[OF assms] by auto
  from pres_rep_unlink[OF assms this] pres_list_unlink[OF assms this] Some show ?thesis
    by (auto simp: removePath_def)
qed

lemma hasPath_refines:
  assumes "pres_rep p as"
  shows "fst (hasPath now k p) = fst (spec_has (pathTimeout p) now k (pres_list p as))"
    and "\<exists>bs. pres_rep (snd (hasPath now k p)) bs \<and>
           pres_list (snd (hasPath now k p)) bs =
             snd (spec_has (pathTimeout p) now k (pres_list p as))"
proof -
  have map: "map_of (pres_list p as) k = map_option (\<lambda>a. pi_atime (pitems p a)) (fmlookup (presmap p) k)"
    using pres_time_map_of[OF assms, of k] by (simp add: pres_time_def)
  then show "fst (hasPath now k p) = fst (spec_has (pathTimeout p) now k (pres_list p as))"
    by (simp add: hasPath_def spec_has_def split: option.splits)
  have "removePath k p = pres_unlink k item p" if "fmlookup (presmap p) k = Some item" for item
    using that by (simp add: removePath_def)
  then show "\<exists>bs. pres_rep (snd (hasPath now k p)) bs \<and>
      pres_list (snd (hasPath now k p)) bs =
        snd (spec_has (pathTimeout p) now k (pres_list p as))"
    using assms map removePath_refines[OF assms, of k]
    by (cases "fmlookup (presmap p) k") (auto simp: hasPath_def spec_has_def)
qed

lemma removeAllPath_refines:
  assumes "pres_rep p as"
  shows "pres_rep (removeAllPath k p) []" and "pres_list (removeAllPath k p) [] = []"
  using pres_repD(4)[OF assms]
  by (simp_all add: pres_rep_def pres_list_def removeAllPath_def ring_Init)

lemma pres_config:
  "pathTimeout (pres_step op p) = pathTimeout p" "pathMaxCount (pres_step op p) = pathMaxCount p"
  by (cases op; simp add: hasPath_def addPath_def removePath_def removeAllPath_def pres_unlink_def
      pres_touch_def pres_new_item_def pres_make_room_def Let_def split: option.split)+

lemma pres_step_refines:
  assumes "pres_rep p as"
  shows "\<exists>bs. pres_rep (pres_step op p) bs \<and> pres_list (pres_step op p) bs =
           spec_step (pathTimeout p) (pathMaxCount p) op (pres_list p as)"
proof (cases op)
  case (PRemoveAll k)
  then show ?thesis
    using removeAllPath_refines[OF assms, of k] by (intro exI[of _ "[]"]) simp
qed (use hasPath_refines(2)[OF assms] addPath_refines[OF assms] removePath_refines[OF assms] in auto)

lemma pres_run_refines:
  assumes "pres_rep p as"
  shows "\<exists>bs. pres_rep (fold pres_step ops p) bs \<and> pres_list (fold pres_step ops p) bs =
           fold (spec_step (pathTimeout p) (pathMaxCount p)) ops (pres_list p as)"
  using assms
proof (induction ops arbitrary: p as)
  case (Cons op ops)
  obtain bs where bs: "pres_rep (pres_step op p) bs" "pres_list (pres_step op p) bs =
      spec_step (pathTimeout p) (pathMaxCount p) op (pres_list p as)"
    using pres_step_refines[OF Cons.prems] by blast
  from Cons.IH[OF bs(1)] bs(2) show ?case
    by (simp add: pres_config)
qed auto

subsection \<open>What the abstract cache guarantees\<close>

lemma map_of_spec_add: "map_of (spec_add m now k xs) k = Some now"
proof -
  let ?ys = "if k \<in> fst ` set xs then del_key k xs
    else if m \<le> int (length xs) then tl xs else xs"
  have "k \<notin> fst ` set ?ys"
    by (cases xs) (auto simp: del_key_def)
  then have "map_of ?ys k = None"
    by (simp only: map_of_eq_None_iff not_False_eq_True)
  then show ?thesis
    unfolding spec_add_def map_of_append by (simp add: map_add_def)
qed

lemma distinct_spec_step:
  assumes "distinct (map fst xs)"
  shows "distinct (map fst (spec_step t m op xs))"
proof -
  have del: "distinct (map fst (del_key k ys)) \<and> k \<notin> fst ` set (del_key k ys)"
    if "distinct (map fst ys)" for k ys
    using that by (auto simp: del_key_def distinct_map_filter)
  show ?thesis
  proof (cases op)
    case (PAdd now k)
    then show ?thesis
      using assms del[OF assms, of k] by (cases xs) (auto simp: spec_add_def)
  qed (use assms del in \<open>auto simp: spec_has_def split: option.splits\<close>)
qed

lemma map_of_spec_step:
  assumes "distinct (map fst xs)" and "map_of (spec_step t m op xs) k = Some v"
  shows "op = PAdd v k \<or> map_of xs k = Some v \<and> last_add k [op] = None \<and>
           op \<noteq> PRemove k \<and> (\<forall>k'. op \<noteq> PRemoveAll k') \<and> (\<forall>now. op \<noteq> PAdd now k)"
proof (cases op)
  case (PAdd now k')
  have tl: "map_of (tl xs) k = Some v \<Longrightarrow> map_of xs k = Some v"
    using assms(1) by (cases xs) (auto dest!: map_of_SomeD simp: image_iff)
  have none: "k \<notin> fst ` set xs \<Longrightarrow> map_of xs k \<noteq> Some v"
    by (auto simp: map_of_eq_None_iff[THEN iffD2])
  from PAdd assms(2) tl none show ?thesis
    by (auto simp: spec_add_def map_add_def map_of_del_key split: option.splits if_splits)
qed (use assms in \<open>auto simp: spec_has_def map_of_del_key split: option.splits if_splits\<close>)

lemma length_spec_step:
  "1 \<le> m \<Longrightarrow> int (length xs) \<le> m \<Longrightarrow> int (length (spec_step t m op xs)) \<le> m"
proof (cases op)
  case (PAdd now k)
  assume m: "1 \<le> m" "int (length xs) \<le> m"
  have del: "length (del_key k xs) < length xs" if "k \<in> fst ` set xs"
    using that by (auto simp: del_key_def intro!: length_filter_less)
  show ?thesis
  proof (cases "k \<in> fst ` set xs")
    case True
    with del m PAdd show ?thesis by (simp add: spec_add_def)
  next
    case False
    with m PAdd show ?thesis by (auto simp: spec_add_def)
  qed
qed (auto simp: spec_has_def split: option.splits
    intro: order.trans[OF of_nat_mono[OF set_del_key(2)]])

text \<open>
  The interface the file system cache relies on: the time recorded for a key, read through the
  operations.  A client needs no more than that an answer \<^const>\<open>True\<close> is backed by a recorded
  time that has not expired.
\<close>

locale presence =
  fixes has :: "i64 \<Rightarrow> gostring \<Rightarrow> 'p \<Rightarrow> bool \<times> 'p"
    and add :: "i64 \<Rightarrow> gostring \<Rightarrow> 'p \<Rightarrow> 'p"
    and del :: "gostring \<Rightarrow> 'p \<Rightarrow> 'p"
    and clear :: "gostring \<Rightarrow> 'p \<Rightarrow> 'p"
    and time_of :: "'p \<Rightarrow> gostring \<Rightarrow> i64 option"
    and timeout :: "'p \<Rightarrow> i64"
    and inv :: "'p \<Rightarrow> bool"
  assumes has_result: "inv p \<Longrightarrow>
            fst (has now k p) \<longleftrightarrow> (\<exists>t. time_of p k = Some t \<and> \<not> expired t (timeout p) now)"
    and has_time: "inv p \<Longrightarrow> time_of (snd (has now k p)) k' =
            (if k' = k \<and> \<not> fst (has now k p) then None else time_of p k')"
    and add_time: "inv p \<Longrightarrow> time_of (add now k p) k = Some now"
    and add_other: "inv p \<Longrightarrow> k' \<noteq> k \<Longrightarrow> time_of (add now k p) k' = Some t \<Longrightarrow>
            time_of p k' = Some t"
    and del_time: "inv p \<Longrightarrow> time_of (del k p) k' = (if k' = k then None else time_of p k')"
    and clear_time: "inv p \<Longrightarrow> time_of (clear k p) k' = None"
    and inv_has: "inv p \<Longrightarrow> inv (snd (has now k p))"
    and inv_add: "inv p \<Longrightarrow> inv (add now k p)"
    and inv_del: "inv p \<Longrightarrow> inv (del k p)"
    and inv_clear: "inv p \<Longrightarrow> inv (clear k p)"
    and timeout_add: "timeout (add now k p) = timeout p"
begin

lemma has_after_add:
  "inv p \<Longrightarrow> fst (has now' k (add now k p)) \<longleftrightarrow> \<not> expired now (timeout p) now'"
  by (simp add: has_result inv_add add_time timeout_add)

lemma not_has_after_del: "inv p \<Longrightarrow> \<not> fst (has now k (del k p))"
  by (simp add: has_result inv_del del_time)

lemma not_has_after_clear: "inv p \<Longrightarrow> \<not> fst (has now k' (clear k p))"
  by (simp add: has_result inv_clear clear_time)

end

lemma pres_invI: "pres_rep p as \<Longrightarrow> pres_inv p"
  by (auto simp: pres_inv_def)

lemma pres_list_distinct: "pres_rep p as \<Longrightarrow> distinct (map fst (pres_list p as))"
  using pres_repD(5)[of p as] pres_rep_inj[of p as]
  by (auto simp: pres_list_def distinct_map inj_on_def)

lemma pres_inv_step: "pres_inv p \<Longrightarrow> pres_inv (pres_step op p)"
  unfolding pres_inv_def using pres_step_refines by blast

lemma pres_time_step:
  assumes "pres_inv p"
  shows "\<exists>xs. distinct (map fst xs) \<and> pres_time p = map_of xs \<and>
           pres_time (pres_step op p) = map_of (spec_step (pathTimeout p) (pathMaxCount p) op xs)"
proof -
  from assms obtain as where as: "pres_rep p as"
    by (auto simp: pres_inv_def)
  obtain bs where bs: "pres_rep (pres_step op p) bs" "pres_list (pres_step op p) bs =
      spec_step (pathTimeout p) (pathMaxCount p) op (pres_list p as)"
    using pres_step_refines[OF as] by blast
  show ?thesis
    using pres_list_distinct[OF as] pres_time_map_of[OF as] pres_time_map_of[OF bs(1)] bs(2)
    by (intro exI[of _ "pres_list p as"]) (auto simp: fun_eq_iff)
qed

interpretation pres: presence hasPath addPath removePath removeAllPath pres_time pathTimeout pres_inv
proof unfold_locales
  fix p now k
  show "fst (hasPath now k p) \<longleftrightarrow> (\<exists>t. pres_time p k = Some t \<and> \<not> expired t (pathTimeout p) now)"
    by (simp add: hasPath_def pres_time_def split: option.split)
next
  fix p now k k'
  assume "pres_inv p"
  then show "pres_time (snd (hasPath now k p)) k' =
      (if k' = k \<and> \<not> fst (hasPath now k p) then None else pres_time p k')"
    by (auto simp: hasPath_def pres_time_def pres_unlink_def split: option.split)
next
  fix p now k
  assume "pres_inv p"
  then show "pres_time (addPath now k p) k = Some now"
    using pres_time_step[of p "PAdd now k"] by (auto simp: map_of_spec_add)
next
  fix p now k k' t
  assume "pres_inv p" "k' \<noteq> k" "pres_time (addPath now k p) k' = Some t"
  then show "pres_time p k' = Some t"
    using pres_time_step[of p "PAdd now k"] map_of_spec_step[of _ _ _ "PAdd now k" k' t] by fastforce
next
  fix p k k'
  assume "pres_inv p"
  then show "pres_time (removePath k p) k' = (if k' = k then None else pres_time p k')"
    by (auto simp: removePath_def pres_time_def pres_unlink_def split: option.split)
next
  fix p k k'
  show "pres_time (removeAllPath k p) k' = None"
    by (simp add: removeAllPath_def pres_time_def)
next
  fix p now k
  assume "pres_inv p"
  then show "pres_inv (snd (hasPath now k p))" "pres_inv (addPath now k p)"
    "pres_inv (removePath k p)" "pres_inv (removeAllPath k p)"
    using pres_inv_step[of p "PHas now k"] pres_inv_step[of p "PAdd now k"]
      pres_inv_step[of p "PRemove k"] pres_inv_step[of p "PRemoveAll k"] by simp_all
next
  fix now k p
  show "pathTimeout (addPath now k p) = pathTimeout p"
    using pres_config(1)[of "PAdd now k" p] by simp
qed

subsection \<open>Properties\<close>

lemma map_of_run:
  assumes "distinct (map fst xs)" and "map_of (fold (spec_step t m) ops xs) k = Some v"
  shows "last_add k (rev ops) = Some v \<or> last_add k (rev ops) = None \<and> map_of xs k = Some v"
  using assms
proof (induction ops arbitrary: v rule: rev_induct)
  case (snoc op ops)
  have dist: "distinct (map fst (fold (spec_step t m) ops xs))"
    using snoc.prems(1) by (induction ops arbitrary: xs) (auto intro: distinct_spec_step)
  from map_of_spec_step[OF dist, of t m op k v] snoc.prems(2) show ?case
    using snoc.IH[OF snoc.prems(1), of v] by (cases op) (auto split: if_splits)
qed simp

text \<open>
  C18. The pointer structure of a presence cache refines a list of keys with their times: after any
  sequence of calls on a new cache, the map and the links still represent one another, and the
  content is what the same calls make of the empty list (a key is moved to the end when it is added
  again, the oldest key makes room for a new one, an expired key is dropped when it is looked up).
\<close>

theorem presence_refines_list:
  "\<exists>as. pres_rep (fold pres_step ops (newPathPresenceCache t m)) as \<and>
        pres_list (fold pres_step ops (newPathPresenceCache t m)) as = fold (spec_step t m) ops []"
  using pres_run_refines[OF pres_rep_new, of ops t m]
  by (simp add: newPathPresenceCache_def pres_list_def)

text \<open>
  C19. A path is reported present only if it was added, was not removed since, and the time at which
  it was last added has not expired: the negative cache never answers \<^verbatim>\<open>ENOENT\<close> for a path without
  a recorded failure to back it.
\<close>

theorem presence_sound:
  assumes "fst (hasPath now k (fold pres_step ops (newPathPresenceCache t m)))"
  shows "\<exists>t0. last_add k (rev ops) = Some t0 \<and> \<not> expired t0 t now"
proof -
  let ?p = "fold pres_step ops (newPathPresenceCache t m)"
  obtain as where as: "pres_rep ?p as" "pres_list ?p as = fold (spec_step t m) ops []"
    using pres_run_refines[OF pres_rep_new, of ops t m]
    by (auto simp: newPathPresenceCache_def pres_list_def)
  have "pathTimeout ?p = t"
    by (induction ops rule: rev_induct) (simp_all add: pres_config newPathPresenceCache_def)
  then obtain t0 where "pres_time ?p k = Some t0" "\<not> expired t0 t now"
    using assms pres.has_result[OF pres_invI[OF as(1)]] by auto
  then show ?thesis
    using map_of_run[of "[]" t m ops k t0] pres_time_map_of[OF as(1), of k] as(2) by auto
qed

lemmas pres_eval = hasPath_def addPath_def removePath_def removeAllPath_def newPathPresenceCache_def
  pres_make_room_def pres_new_item_def pres_touch_def pres_unlink_def map_len_def expired_def
  link_Init_def link_InsertTail_def link_Remove_def fcard_finsert_if Let_def

theorem presence_sound_witness:
  "\<exists>t0. last_add ''/a'' (rev [PAdd 5 ''/a'', PAdd 6 ''/b'']) = Some t0 \<and> \<not> expired t0 10 7"
  by (rule presence_sound[where m = 2])
    (simp add: pres_eval)

text \<open>
  C20. A presence cache made for a positive number of paths never holds more than that many.
\<close>

theorem presence_bounded:
  assumes "1 \<le> m"
  shows "map_len (presmap (fold pres_step ops (newPathPresenceCache t m))) \<le> m"
proof -
  let ?p = "fold pres_step ops (newPathPresenceCache t m)"
  obtain as where as: "pres_rep ?p as" "pres_list ?p as = fold (spec_step t m) ops []"
    using pres_run_refines[OF pres_rep_new, of ops t m]
    by (auto simp: newPathPresenceCache_def pres_list_def)
  have "int (length (fold (spec_step t m) ops [])) \<le> m"
    using assms by (induction ops rule: rev_induct) (simp_all add: length_spec_step)
  then show ?thesis
    using map_len_presmap[OF as(1)] length_pres_list[of ?p as] as(2) by simp
qed

theorem presence_bounded_witness:
  "map_len (presmap (fold pres_step [PAdd 5 ''/a'', PAdd 6 ''/b''] (newPathPresenceCache 10 1))) \<le> 1"
  by (rule presence_bounded) simp

end
