(* ===== verification/Lru.thy ===== *)
theory Lru
  imports Link
begin

text \<open>
  The two queues of the background loop of \<^verbatim>\<open>src/cache/cache.go\<close>: \<^verbatim>\<open>rwmap\<close>/\<^verbatim>\<open>rwlst\<close>, the inodes that
  wait to be uploaded, and \<^verbatim>\<open>romap\<close>/\<^verbatim>\<open>rolst\<close>, the inodes that may be evicted.  Each is a map from
  inode numbers to items and a list of the same items, least recently touched first; both lists
  share one heap of links, because \<^verbatim>\<open>touchIno\<close> moves an item from one to the other.  The mutex
  \<^verbatim>\<open>lrumux\<close> is held over each of the operations here, so each is one step: \<^verbatim>\<open>touchIno\<close>, and the first
  parts of \<^verbatim>\<open>uploadOne\<close> and \<^verbatim>\<open>evictOne\<close>, up to the unlock.

  The functions \<open>qmap\<close> and \<open>qlst\<close> choose a queue by the flag \<open>rw\<close>, as \<^verbatim>\<open>thismap\<close>, \<^verbatim>\<open>thatmap\<close> and
  \<^verbatim>\<open>thislst\<close> do.
\<close>

record lruitem =
  li_ino :: u64
  li_atime :: i64

record lru =
  rwmap :: "(u64, addr) fmap"
  rwlst :: addr
  romap :: "(u64, addr) fmap"
  rolst :: addr
  llinks :: link_heap
  litems :: "addr \<Rightarrow> lruitem"
  lnext :: addr

definition lru_new :: lru where
  "lru_new =
     \<lparr>rwmap = fmempty, rwlst = 0, romap = fmempty, rolst = 1,
      llinks = link_Init 1 (link_Init 0 \<lparr>link_prev = (\<lambda>_. 0), link_next = (\<lambda>_. 0)\<rparr>),
      litems = (\<lambda>_. \<lparr>li_ino = 0, li_atime = 0\<rparr>), lnext = 2\<rparr>"

definition qmap :: "bool \<Rightarrow> lru \<Rightarrow> (u64, addr) fmap" where
  "qmap rw l = (if rw then rwmap l else romap l)"

definition qlst :: "bool \<Rightarrow> lru \<Rightarrow> addr" where
  "qlst rw l = (if rw then rwlst l else rolst l)"

definition set_qmap :: "bool \<Rightarrow> (u64, addr) fmap \<Rightarrow> lru \<Rightarrow> lru" where
  "set_qmap rw m l = (if rw then l\<lparr>rwmap := m\<rparr> else l\<lparr>romap := m\<rparr>)"

definition lru_unlink :: "addr \<Rightarrow> lru \<Rightarrow> lru" where
  "lru_unlink item l = l\<lparr>llinks := link_Remove item (llinks l)\<rparr>"

definition lru_alloc :: "u64 \<Rightarrow> i64 \<Rightarrow> lru \<Rightarrow> addr \<times> lru" where
  "lru_alloc ino atime l =
     (lnext l, l\<lparr>lnext := Suc (lnext l),
                 litems := (litems l)(lnext l := \<lparr>li_ino = ino, li_atime = atime\<rparr>)\<rparr>)"

definition lru_enqueue :: "i64 \<Rightarrow> addr \<Rightarrow> bool \<Rightarrow> lru \<Rightarrow> lru" where
  "lru_enqueue now item rw l =
     (let l = l\<lparr>litems := (litems l)(item := (litems l item)\<lparr>li_atime := now\<rparr>)\<rparr>
      in l\<lparr>llinks := link_InsertTail item (qlst rw l) (llinks l)\<rparr>)"

definition touchIno :: "i64 \<Rightarrow> u64 \<Rightarrow> bool \<Rightarrow> lru \<Rightarrow> lru" where
  "touchIno now ino rw l =
     (case fmlookup (qmap rw l) ino of
        Some item \<Rightarrow> lru_enqueue now item rw (lru_unlink item l)
      | None \<Rightarrow>
          (case fmlookup (qmap (\<not> rw) l) ino of
             Some item \<Rightarrow>
               if \<not> rw then l
               else
                 (let l = lru_unlink item l;
                      l = set_qmap (\<not> rw) (fmdrop ino (qmap (\<not> rw) l)) l;
                      l = set_qmap rw (fmupd ino item (qmap rw l)) l
                  in lru_enqueue now item rw l)
           | None \<Rightarrow>
               (let (item, l) = lru_alloc ino 0 l;
                    l = set_qmap rw (fmupd ino item (qmap rw l)) l
                in lru_enqueue now item rw l)))"

definition take_first :: "bool \<Rightarrow> bool \<Rightarrow> i64 \<Rightarrow> i64 \<Rightarrow> lru \<Rightarrow> u64 option \<times> lru" where
  "take_first rw force delay now l =
     (let link = link_next (llinks l) (qlst rw l)
      in if qlst rw l \<noteq> link then
           (let i = litems l link
            in if force \<or> expired (li_atime i) delay now then
                 (Some (li_ino i), set_qmap rw (fmdrop (li_ino i) (qmap rw l)) (lru_unlink link l))
               else (None, l))
         else (None, l))"

text \<open>The part of \<^verbatim>\<open>OpenCache\<close> that enters a node of the catalogue into one of the queues.\<close>

definition lru_seed :: "i64 \<Rightarrow> u64 \<Rightarrow> bool \<Rightarrow> lru \<Rightarrow> lru" where
  "lru_seed past ino rw l =
     (let (item, l) = lru_alloc ino past l;
          l = set_qmap rw (fmupd ino item (qmap rw l)) l
      in l\<lparr>llinks := link_InsertTail item (qlst rw l) (llinks l)\<rparr>)"

text \<open>The representation invariant, and the content of the queues.\<close>

definition lru_rep :: "lru \<Rightarrow> (bool \<Rightarrow> addr list) \<Rightarrow> bool" where
  "lru_rep l as \<longleftrightarrow>
     (\<forall>rw. ring (llinks l) (qlst rw l) (as rw)) \<and>
     set (qlst True l # as True) \<inter> set (qlst False l # as False) = {} \<and>
     (\<forall>rw i a. fmlookup (qmap rw l) i = Some a \<longleftrightarrow> a \<in> set (as rw) \<and> li_ino (litems l a) = i) \<and>
     (\<forall>rw. \<forall>a \<in> set (qlst rw l # as rw). a < lnext l) \<and>
     (\<forall>i. fmlookup (qmap True l) i = None \<or> fmlookup (qmap False l) i = None)"

definition lru_list :: "lru \<Rightarrow> (bool \<Rightarrow> addr list) \<Rightarrow> bool \<Rightarrow> (u64 \<times> i64) list" where
  "lru_list l as rw = map (\<lambda>a. (li_ino (litems l a), li_atime (litems l a))) (as rw)"

definition lru_inv :: "lru \<Rightarrow> bool" where
  "lru_inv l \<longleftrightarrow> (\<exists>as. lru_rep l as)"

text \<open>The abstract queues: \<open>q True\<close> waits for upload, \<open>q False\<close> for eviction.\<close>

definition spec_touch ::
  "i64 \<Rightarrow> u64 \<Rightarrow> bool \<Rightarrow> (bool \<Rightarrow> (u64 \<times> i64) list) \<Rightarrow> bool \<Rightarrow> (u64 \<times> i64) list" where
  "spec_touch now ino rw q =
     (if \<not> rw \<and> ino \<in> fst ` set (q True) then q
      else (\<lambda>b. del_key ino (q b) @ (if b = rw then [(ino, now)] else [])))"

definition spec_take ::
  "bool \<Rightarrow> bool \<Rightarrow> i64 \<Rightarrow> i64 \<Rightarrow> (bool \<Rightarrow> (u64 \<times> i64) list) \<Rightarrow>
     u64 option \<times> (bool \<Rightarrow> (u64 \<times> i64) list)" where
  "spec_take rw force delay now q =
     (case q rw of
        [] \<Rightarrow> (None, q)
      | (i, t) # r \<Rightarrow>
          if force \<or> expired t delay now then (Some i, q(rw := r)) else (None, q))"

text \<open>Any sequence of operations on the queues, and the inodes a queue holds.\<close>

datatype lruop = Touch i64 u64 bool | Take bool bool i64 i64

fun lru_step :: "lruop \<Rightarrow> lru \<Rightarrow> lru" where
  "lru_step (Touch now ino rw) l = touchIno now ino rw l"
| "lru_step (Take rw force delay now) l = snd (take_first rw force delay now l)"

fun queue_step :: "lruop \<Rightarrow> (bool \<Rightarrow> (u64 \<times> i64) list) \<Rightarrow> bool \<Rightarrow> (u64 \<times> i64) list" where
  "queue_step (Touch now ino rw) q = spec_touch now ino rw q"
| "queue_step (Take rw force delay now) q = snd (spec_take rw force delay now q)"

definition queued :: "bool \<Rightarrow> lru \<Rightarrow> u64 set" where
  "queued rw l = fset (fmdom (qmap rw l))"

lemmas q_simps [simp] = qmap_def qlst_def set_qmap_def

subsection \<open>The invariant\<close>

lemma set_qmap_fields:
  "qmap rw' (set_qmap rw m l) = (if rw' = rw then m else qmap rw' l)"
  "qlst rw' (set_qmap rw m l) = qlst rw' l"
  "llinks (set_qmap rw m l) = llinks l" "litems (set_qmap rw m l) = litems l"
  "lnext (set_qmap rw m l) = lnext l"
  by simp_all

lemma lru_unlink_fields:
  "qmap rw (lru_unlink a l) = qmap rw l" "qlst rw (lru_unlink a l) = qlst rw l"
  "llinks (lru_unlink a l) = link_Remove a (llinks l)" "litems (lru_unlink a l) = litems l"
  "lnext (lru_unlink a l) = lnext l"
  by (simp_all add: lru_unlink_def)

lemma lru_enqueue_fields:
  "qmap rw' (lru_enqueue now a rw l) = qmap rw' l" "qlst rw' (lru_enqueue now a rw l) = qlst rw' l"
  "llinks (lru_enqueue now a rw l) = link_InsertTail a (qlst rw l) (llinks l)"
  "litems (lru_enqueue now a rw l) = (litems l)(a := (litems l a)\<lparr>li_atime := now\<rparr>)"
  "lnext (lru_enqueue now a rw l) = lnext l"
  by (simp_all add: lru_enqueue_def Let_def)

declare q_simps [simp del]

lemmas lru_fields = set_qmap_fields lru_unlink_fields lru_enqueue_fields

lemma lru_repD:
  assumes "lru_rep l as"
  shows "ring (llinks l) (qlst rw l) (as rw)"
    and "fmlookup (qmap rw l) i = Some a \<longleftrightarrow> a \<in> set (as rw) \<and> li_ino (litems l a) = i"
    and "a \<in> set (as rw) \<Longrightarrow> a < lnext l" and "qlst rw l < lnext l"
    and "set (qlst rw l # as rw) \<inter> set (qlst (\<not> rw) l # as (\<not> rw)) = {}"
    and "distinct (as rw)" and "qlst rw l \<notin> set (as rw)"
    and "fmlookup (qmap rw l) i = Some a \<Longrightarrow> fmlookup (qmap (\<not> rw) l) i = None"
proof -
  show "set (qlst rw l # as rw) \<inter> set (qlst (\<not> rw) l # as (\<not> rw)) = {}"
    using assms by (cases rw) (auto simp: lru_rep_def)
  show "fmlookup (qmap rw l) i = Some a \<Longrightarrow> fmlookup (qmap (\<not> rw) l) i = None"
  proof -
    have "fmlookup (qmap True l) i = None \<or> fmlookup (qmap False l) i = None"
      using assms by (simp add: lru_rep_def)
    then show "fmlookup (qmap rw l) i = Some a \<Longrightarrow> fmlookup (qmap (\<not> rw) l) i = None"
      by (cases rw) auto
  qed
qed (use assms ring_distinct[of "llinks l" "qlst rw l" "as rw"] in \<open>auto simp: lru_rep_def\<close>)

lemma lru_repI:
  assumes "\<And>rw. ring (llinks l) (qlst rw l) (as rw)"
    and "\<And>rw. set (qlst rw l # as rw) \<inter> set (qlst (\<not> rw) l # as (\<not> rw)) = {}"
    and "\<And>rw i a. fmlookup (qmap rw l) i = Some a \<longleftrightarrow> a \<in> set (as rw) \<and> li_ino (litems l a) = i"
    and "\<And>rw a. a \<in> set (qlst rw l # as rw) \<Longrightarrow> a < lnext l"
    and "\<And>rw i a. fmlookup (qmap rw l) i = Some a \<Longrightarrow> fmlookup (qmap (\<not> rw) l) i = None"
  shows "lru_rep l as"
proof -
  have "fmlookup (qmap True l) i = None \<or> fmlookup (qmap False l) i = None" for i
    using assms(5)[of True i] by (cases "fmlookup (qmap True l) i") auto
  moreover have "set (qlst True l # as True) \<inter> set (qlst False l # as False) = {}"
    using assms(2)[of True] by simp
  ultimately show ?thesis
    using assms(1,3,4) by (simp add: lru_rep_def)
qed

lemma lru_rep_inj:
  assumes "lru_rep l as"
  shows "inj_on (\<lambda>a. li_ino (litems l a)) (set (as rw))"
proof (rule inj_onI)
  fix a b
  assume "a \<in> set (as rw)" "b \<in> set (as rw)" "li_ino (litems l a) = li_ino (litems l b)"
  then have "fmlookup (qmap rw l) (li_ino (litems l a)) = Some a"
    "fmlookup (qmap rw l) (li_ino (litems l a)) = Some b"
    using lru_repD(2)[OF assms] by auto
  then show "a = b" by simp
qed

lemma lru_rep_new: "lru_rep lru_new (\<lambda>_. [])"
proof -
  have "ring (llinks lru_new) 0 []"
    by (simp add: lru_new_def ring_def link_Init_def Let_def)
  moreover have "ring (llinks lru_new) 1 []"
    by (simp add: lru_new_def ring_def link_Init_def Let_def)
  ultimately show ?thesis
    by (simp add: lru_rep_def q_simps) (simp add: lru_new_def)
qed

text \<open>Taking an item out of its queue, out of the map as well as the list.\<close>

lemma lru_rep_drop:
  assumes "lru_rep l as" and "a \<in> set (as rw)" and "li_ino (litems l a) = i"
  shows "lru_rep (set_qmap rw (fmdrop i (qmap rw l)) (lru_unlink a l)) (as(rw := remove1 a (as rw)))"
    (is "lru_rep ?l ?as")
proof (rule lru_repI)
  note D = lru_repD[OF assms(1)]
  fix r
  have sub: "set (?as r) \<subseteq> set (as r)" for r
    using set_remove1_subset[of a "as rw"] by auto
  show "ring (llinks ?l) (qlst r ?l) (?as r)"
    using link.rep_remove1[OF D(1) assms(2)]
      link.frame_remove[OF D(1) assms(2) D(1)[of "\<not> rw"] D(5)[of rw]]
    by (cases "r = rw") (auto simp: lru_fields)
  show "set (qlst r ?l # ?as r) \<inter> set (qlst (\<not> r) ?l # ?as (\<not> r)) = {}"
    using D(5)[of r] sub[of r] sub[of "\<not> r"] by (auto simp: lru_fields)
  show "c < lnext ?l" if "c \<in> set (qlst r ?l # ?as r)" for c
    using that D(3)[of c r] D(4)[of r] sub[of r] by (auto simp: lru_fields)
  show "fmlookup (qmap r ?l) j = Some c \<longleftrightarrow> c \<in> set (?as r) \<and> li_ino (litems ?l c) = j" for j c
  proof (cases "r = rw \<and> j = i")
    case True
    then have "c = a" if "c \<in> set (as rw)" "li_ino (litems l c) = j"
      using inj_onD[OF lru_rep_inj[OF assms(1), of rw], of c a] that assms(2,3) by simp
    with True show ?thesis
      using D(6)[of rw] by (auto simp: lru_fields)
  next
    case False
    then show ?thesis
      using D(2)[of r j c] D(6)[of rw] assms(3) by (auto simp: lru_fields)
  qed
  show "fmlookup (qmap (\<not> r) ?l) j = None" if "fmlookup (qmap r ?l) j = Some c" for j c
    using that D(8)[of r j c] by (auto simp: lru_fields split: if_splits)
qed

text \<open>Putting an item that is in neither queue at the tail of one.\<close>

lemma lru_rep_put:
  assumes "lru_rep l as" and "\<And>r. a \<notin> set (qlst r l # as r)" and "a < lnext l"
    and "\<And>r. fmlookup (qmap r l) (li_ino (litems l a)) = None"
  shows "lru_rep (lru_enqueue now a rw (set_qmap rw (fmupd (li_ino (litems l a)) a (qmap rw l)) l))
           (as(rw := as rw @ [a]))" (is "lru_rep ?l ?as")
proof (rule lru_repI)
  note D = lru_repD[OF assms(1)]
  fix r
  show "ring (llinks ?l) (qlst r ?l) (?as r)"
    using link.rep_insert_tail[OF D(1) assms(2)]
      link.frame_insert_tail[OF D(1)[of rw] D(1)[of "\<not> rw"] D(5)[of rw] assms(2)]
    by (cases "r = rw") (auto simp: lru_fields)
  show "set (qlst r ?l # ?as r) \<inter> set (qlst (\<not> r) ?l # ?as (\<not> r)) = {}"
    using D(5)[of r] assms(2)[of r] assms(2)[of "\<not> r"] by (auto simp: lru_fields)
  show "c < lnext ?l" if "c \<in> set (qlst r ?l # ?as r)" for c
    using that D(3)[of c r] D(4)[of r] assms(3) by (auto simp: lru_fields split: if_splits)
  show "fmlookup (qmap r ?l) j = Some c \<longleftrightarrow> c \<in> set (?as r) \<and> li_ino (litems ?l c) = j" for j c
    using D(2)[of r j c] assms(2)[of r] assms(4)[of r] by (auto simp: lru_fields)
  show "fmlookup (qmap (\<not> r) ?l) j = None" if "fmlookup (qmap r ?l) j = Some c" for j c
    using that D(8)[of r j c] assms(4)[of "\<not> r"] assms(4)[of r]
    by (auto simp: lru_fields split: if_splits)
qed

lemma lru_list_drop:
  assumes "lru_rep l as" and "a \<in> set (as rw)" and "li_ino (litems l a) = i"
  shows "lru_list (set_qmap rw (fmdrop i (qmap rw l)) (lru_unlink a l)) (as(rw := remove1 a (as rw))) =
           (lru_list l as)(rw := del_key i (lru_list l as rw))"
  using del_key_map[OF lru_repD(6)[OF assms(1)] lru_rep_inj[OF assms(1)] assms(2),
      of "\<lambda>a. li_atime (litems l a)"] assms(3)
  by (auto simp: lru_list_def fun_eq_iff lru_fields)

lemma lru_list_put:
  assumes "\<And>r. a \<notin> set (as r)"
  shows "lru_list (lru_enqueue now a rw (set_qmap rw m l)) (as(rw := as rw @ [a])) =
           (lru_list l as)(rw := lru_list l as rw @ [(li_ino (litems l a), now)])"
proof
  fix r
  have "b \<noteq> a" if "b \<in> set (as r)" for b
    using assms[of r] that by auto
  then show "lru_list (lru_enqueue now a rw (set_qmap rw m l)) (as(rw := as rw @ [a])) r =
      ((lru_list l as)(rw := lru_list l as rw @ [(li_ino (litems l a), now)])) r"
    by (auto simp: lru_list_def lru_fields)
qed

lemma keys_lru_list: "fst ` set (lru_list l as rw) = (\<lambda>a. li_ino (litems l a)) ` set (as rw)"
  by (simp add: lru_list_def image_image)

lemma lru_lookup:
  assumes "lru_rep l as"
  shows "fmlookup (qmap rw l) i = None \<longleftrightarrow> i \<notin> fst ` set (lru_list l as rw)"
proof (cases "fmlookup (qmap rw l) i")
  case None
  then show ?thesis
    unfolding keys_lru_list using lru_repD(2)[OF assms, of rw i] by auto
next
  case (Some a)
  then show ?thesis
    unfolding keys_lru_list using lru_repD(2)[OF assms, of rw i a] by auto
qed

lemma lru_lookup_item:
  assumes "lru_rep l as" and "fmlookup (qmap rw l) i = Some a"
  shows "a \<in> set (as rw)" and "li_ino (litems l a) = i" and "a \<notin> set (as (\<not> rw))"
    and "\<And>r. a \<noteq> qlst r l"
proof -
  show a: "a \<in> set (as rw)" "li_ino (litems l a) = i"
    using lru_repD(2)[OF assms(1)] assms(2) by auto
  show "a \<notin> set (as (\<not> rw))"
    using a lru_repD(5)[OF assms(1), of rw] by auto
  show "a \<noteq> qlst r l" for r
    using a lru_repD(5)[OF assms(1), of rw] lru_repD(7)[OF assms(1), of rw] by (cases "r = rw") auto
qed

text \<open>
  Moving an item of queue \<open>src\<close> to the tail of queue \<open>dst\<close>, which may be the same one.
\<close>

lemma lru_move:
  assumes rep: "lru_rep l as" and item: "fmlookup (qmap src l) i = Some a"
  defines "l' \<equiv> set_qmap src (fmdrop i (qmap src l)) (lru_unlink a l)"
  shows "\<exists>bs. lru_rep (lru_enqueue now a dst (set_qmap dst (fmupd i a (qmap dst l')) l')) bs \<and>
           lru_list (lru_enqueue now a dst (set_qmap dst (fmupd i a (qmap dst l')) l')) bs =
             (\<lambda>b. del_key i (lru_list l as b) @ (if b = dst then [(i, now)] else []))"
proof -
  note I = lru_lookup_item[OF rep item]
  define cs where "cs = as(src := remove1 a (as src))"
  have rep': "lru_rep l' cs"
    unfolding l'_def cs_def using rep I(1,2) by (rule lru_rep_drop)
  have list': "lru_list l' cs = (lru_list l as)(src := del_key i (lru_list l as src))"
    unfolding l'_def cs_def using rep I(1,2) by (rule lru_list_drop)
  have ino: "li_ino (litems l' a) = i" and lst: "qlst r l' = qlst r l" and nxt: "lnext l' = lnext l" for r
    using I(2) by (simp_all add: l'_def lru_fields)
  have other: "fmlookup (qmap (\<not> src) l) i = None"
    using lru_repD(8)[OF rep item] .
  have "i \<notin> fst ` set (lru_list l as (\<not> src))"
    using lru_lookup[OF rep, of "\<not> src" i] other by simp
  then have dels: "del_key i (lru_list l as b) = lru_list l' cs b" for b
    using list' by (cases "b = src") (auto simp: del_key_id)
  have fresh: "a \<notin> set (qlst r l' # cs r)" for r
    using I(3,4) lru_repD(6)[OF rep, of src] by (cases "r = src") (auto simp: lst cs_def)
  have none: "fmlookup (qmap r l') (li_ino (litems l' a)) = None" for r
    using other by (cases "r = src") (simp_all add: l'_def lru_fields I(2))
  have "lru_rep (lru_enqueue now a dst (set_qmap dst (fmupd i a (qmap dst l')) l'))
      (cs(dst := cs dst @ [a]))"
    using lru_rep_put[OF rep' fresh _ none, of now dst] lru_repD(3)[OF rep I(1)]
    by (simp add: nxt ino)
  moreover have "lru_list (lru_enqueue now a dst (set_qmap dst (fmupd i a (qmap dst l')) l'))
      (cs(dst := cs dst @ [a])) = (lru_list l' cs)(dst := lru_list l' cs dst @ [(i, now)])"
    using lru_list_put[of a cs now dst "fmupd i a (qmap dst l')" l'] fresh ino by simp
  ultimately show ?thesis
    by (intro exI conjI) (auto simp: dels fun_eq_iff)
qed

lemma touchIno_moves:
  assumes "fmlookup (qmap rw l) i = Some a"
  shows "touchIno now i rw l =
     (let l' = set_qmap rw (fmdrop i (qmap rw l)) (lru_unlink a l)
      in lru_enqueue now a rw (set_qmap rw (fmupd i a (qmap rw l')) l'))"
proof -
  have "fmupd i a (fmdrop i (qmap rw l)) = qmap rw l"
    using assms by (intro fmap_ext) auto
  moreover have "set_qmap rw m' (set_qmap rw m k) = set_qmap rw m' k"
    "set_qmap rw (qmap rw l) (lru_unlink a l) = lru_unlink a l" for m m' k
    by (cases rw; simp add: q_simps lru_unlink_def)+
  ultimately show ?thesis
    using assms by (simp add: touchIno_def lru_fields Let_def)
qed

lemma lru_rep_alloc:
  assumes "lru_rep l as" and "lru_alloc i t l = (a, l')"
  shows "lru_rep l' as" and "lru_list l' as = lru_list l as" and "\<And>r. a \<notin> set (qlst r l' # as r)"
    and "a < lnext l'" and "li_ino (litems l' a) = i" and "\<And>r. qmap r l' = qmap r l"
proof -
  have a: "a = lnext l" and f: "qmap r l' = qmap r l" "qlst r l' = qlst r l" "llinks l' = llinks l"
    "litems l' = (litems l)(a := \<lparr>li_ino = i, li_atime = t\<rparr>)" "lnext l' = Suc (lnext l)" for r
    using assms(2) by (auto simp: lru_alloc_def q_simps)
  have old: "b < lnext l" if "b \<in> set (qlst r l # as r)" for b r
    using that lru_repD(3)[OF assms(1), of b r] lru_repD(4)[OF assms(1), of r] by auto
  show "lru_rep l' as"
  proof (rule lru_repI)
    show "fmlookup (qmap r l') j = Some c \<longleftrightarrow> c \<in> set (as r) \<and> li_ino (litems l' c) = j" for r j c
      using lru_repD(2)[OF assms(1), of r j c] old[of c r] by (auto simp: f a)
    show "c < lnext l'" if "c \<in> set (qlst r l' # as r)" for r c
      using old[of c r] that by (auto simp: f)
  qed (use lru_repD[OF assms(1)] in \<open>simp_all add: f\<close>)
  show "lru_list l' as = lru_list l as"
    using old by (auto simp: lru_list_def fun_eq_iff f a)
  show "a \<notin> set (qlst r l' # as r)" for r
    using old[of a r] by (auto simp: f a)
qed (use assms(2) in \<open>auto simp: lru_alloc_def q_simps\<close>)

text \<open>An inode in neither queue gets a new item at the tail of one.\<close>

lemma touchIno_new:
  assumes rep: "lru_rep l as" and none: "\<And>r. fmlookup (qmap r l) i = None"
  shows "\<exists>bs. lru_rep (touchIno now i rw l) bs \<and>
           lru_list (touchIno now i rw l) bs = (lru_list l as)(rw := lru_list l as rw @ [(i, now)])"
proof -
  obtain a l' where alloc: "lru_alloc i 0 l = (a, l')"
    by force
  note A = lru_rep_alloc[OF rep alloc]
  have touch: "touchIno now i rw l = lru_enqueue now a rw (set_qmap rw (fmupd i a (qmap rw l')) l')"
    using none by (simp add: touchIno_def alloc)
  have "lru_rep (touchIno now i rw l) (as(rw := as rw @ [a]))"
    using lru_rep_put[OF A(1,3,4), of now rw] none by (simp add: touch A)
  moreover have "lru_list (touchIno now i rw l) (as(rw := as rw @ [a])) =
      (lru_list l as)(rw := lru_list l as rw @ [(i, now)])"
    using lru_list_put[of a as now rw "fmupd i a (qmap rw l')" l'] A(2,3,5) by (simp add: touch)
  ultimately show ?thesis by blast
qed

lemma touchIno_refines:
  assumes "lru_rep l as"
  shows "\<exists>bs. lru_rep (touchIno now i rw l) bs \<and>
           lru_list (touchIno now i rw l) bs = spec_touch now i rw (lru_list l as)"
proof -
  consider (same) a where "fmlookup (qmap rw l) i = Some a"
    | (other) a where "fmlookup (qmap rw l) i = None" "fmlookup (qmap (\<not> rw) l) i = Some a"
    | (new) "fmlookup (qmap rw l) i = None" "fmlookup (qmap (\<not> rw) l) i = None"
    by (cases "fmlookup (qmap rw l) i"; cases "fmlookup (qmap (\<not> rw) l) i") auto
  then show ?thesis
  proof cases
    case same
    have "\<not> (\<not> rw \<and> i \<in> fst ` set (lru_list l as True))"
      using lru_repD(8)[OF assms same] lru_lookup[OF assms, of "\<not> rw" i] by (cases rw) auto
    then have "spec_touch now i rw (lru_list l as) =
        (\<lambda>b. del_key i (lru_list l as b) @ (if b = rw then [(i, now)] else []))"
      by (simp only: spec_touch_def if_False)
    with lru_move[OF assms same, of now rw] show ?thesis
      by (simp only: touchIno_moves[OF same] Let_def)
  next
    case other
    show ?thesis
    proof (cases rw)
      case True
      with other lru_move[OF assms other(2), of now rw] show ?thesis
        by (simp add: touchIno_def spec_touch_def Let_def lru_fields)
    next
      case False
      with other have "i \<in> fst ` set (lru_list l as True)"
        using lru_lookup[OF assms, of True i] by simp
      with other False assms show ?thesis
        by (auto simp: touchIno_def spec_touch_def)
    qed
  next
    case new
    then have none: "fmlookup (qmap r l) i = None" for r
      by (cases "r = rw") auto
    have "i \<notin> fst ` set (lru_list l as b)" for b
      using lru_lookup[OF assms, of b i] none by simp
    then have "spec_touch now i rw (lru_list l as) = (lru_list l as)(rw := lru_list l as rw @ [(i, now)])"
      by (auto simp: spec_touch_def fun_eq_iff del_key_id)
    with touchIno_new[OF assms none] show ?thesis by simp
  qed
qed

lemma take_first_refines:
  assumes "lru_rep l as"
  shows "fst (take_first rw force delay now l) = fst (spec_take rw force delay now (lru_list l as))"
    and "\<exists>bs. lru_rep (snd (take_first rw force delay now l)) bs \<and>
           lru_list (snd (take_first rw force delay now l)) bs =
             snd (spec_take rw force delay now (lru_list l as))"
proof -
  have "fst (take_first rw force delay now l) = fst (spec_take rw force delay now (lru_list l as)) \<and>
    (\<exists>bs. lru_rep (snd (take_first rw force delay now l)) bs \<and>
           lru_list (snd (take_first rw force delay now l)) bs =
             snd (spec_take rw force delay now (lru_list l as)))"
  proof (cases "as rw")
    case Nil
    then have "link_next (llinks l) (qlst rw l) = qlst rw l"
      using link.rep_empty_iff[OF lru_repD(1)[OF assms]] by simp
    with Nil assms show ?thesis
      by (auto simp: take_first_def spec_take_def lru_list_def)
  next
    case (Cons a bs)
    have first: "link_next (llinks l) (qlst rw l) = a"
      using link.rep_first lru_repD(1)[OF assms, of rw] Cons by simp
    have ne: "qlst rw l \<noteq> a"
      using lru_repD(7)[OF assms, of rw] Cons by auto
    have a: "a \<in> set (as rw)"
      using Cons by simp
    let ?i = "li_ino (litems l a)"
    have q: "lru_list l as rw = (?i, li_atime (litems l a)) #
        map (\<lambda>a. (li_ino (litems l a), li_atime (litems l a))) bs"
      by (simp add: lru_list_def Cons)
    have "?i \<notin> (\<lambda>a. li_ino (litems l a)) ` set bs"
      using lru_rep_inj[OF assms, of rw] lru_repD(6)[OF assms, of rw] Cons
      by (auto simp: inj_on_def)
    then have "del_key ?i (lru_list l as rw) = tl (lru_list l as rw)"
      by (auto simp: q del_key_def filter_id_conv image_iff)
    then have "lru_rep (set_qmap rw (fmdrop ?i (qmap rw l)) (lru_unlink a l)) (as(rw := bs))"
      "lru_list (set_qmap rw (fmdrop ?i (qmap rw l)) (lru_unlink a l)) (as(rw := bs)) =
        (lru_list l as)(rw := tl (lru_list l as rw))"
      using lru_rep_drop[OF assms a refl] lru_list_drop[OF assms a refl] Cons by simp_all
    with first ne assms show ?thesis
      by (auto simp: take_first_def spec_take_def q Let_def)
  qed
  then show "fst (take_first rw force delay now l) = fst (spec_take rw force delay now (lru_list l as))"
    and "\<exists>bs. lru_rep (snd (take_first rw force delay now l)) bs \<and>
           lru_list (snd (take_first rw force delay now l)) bs =
             snd (spec_take rw force delay now (lru_list l as))"
    by blast+
qed

lemma lru_step_refines:
  assumes "lru_rep l as"
  shows "\<exists>bs. lru_rep (lru_step op l) bs \<and> lru_list (lru_step op l) bs = queue_step op (lru_list l as)"
  using touchIno_refines[OF assms] take_first_refines(2)[OF assms] by (cases op) simp_all

lemma lru_inv_step: "lru_inv l \<Longrightarrow> lru_inv (lru_step op l)"
  unfolding lru_inv_def using lru_step_refines by blast

lemma lru_inv_new: "lru_inv lru_new"
  using lru_rep_new by (auto simp: lru_inv_def)

lemma queued_iff: "i \<in> queued rw l \<longleftrightarrow> fmlookup (qmap rw l) i \<noteq> None"
  by (simp add: queued_def fmlookup_dom_iff)

lemma queued_list: "lru_rep l as \<Longrightarrow> queued rw l = fst ` set (lru_list l as rw)"
  by (rule set_eqI) (simp only: queued_iff lru_lookup not_not)

lemma lru_list_distinct: "lru_rep l as \<Longrightarrow> distinct (map fst (lru_list l as rw))"
  using lru_repD(6)[of l as rw] lru_rep_inj[of l as rw]
  by (simp add: lru_list_def distinct_map o_def)

subsection \<open>The interface of the queues\<close>

text \<open>
  What the file system operations and the background loop rely on: the sets of inodes in the
  two queues.  An inode that waits for upload stays there whatever is touched and whatever is taken
  for eviction, and only leaves when it is taken for upload.
\<close>

locale work_queues =
  fixes touch :: "i64 \<Rightarrow> u64 \<Rightarrow> bool \<Rightarrow> 'q \<Rightarrow> 'q"
    and take :: "bool \<Rightarrow> bool \<Rightarrow> i64 \<Rightarrow> i64 \<Rightarrow> 'q \<Rightarrow> u64 option \<times> 'q"
    and queue :: "bool \<Rightarrow> 'q \<Rightarrow> u64 set"
    and inv :: "'q \<Rightarrow> bool"
  assumes queue_touch: "inv q \<Longrightarrow> queue b (touch now i rw q) =
            (if \<not> rw \<and> i \<in> queue True q then queue b q
             else if b = rw then insert i (queue b q) else queue b q - {i})"
    and take_Some: "inv q \<Longrightarrow> take rw force delay now q = (Some i, q') \<Longrightarrow>
            i \<in> queue rw q \<and> queue b q' = (if b = rw then queue b q - {i} else queue b q)"
    and take_None: "inv q \<Longrightarrow> take rw force delay now q = (None, q') \<Longrightarrow>
            q' = q \<and> (force \<longrightarrow> queue rw q = {})"
    and inv_touch: "inv q \<Longrightarrow> inv (touch now i rw q)"
    and inv_take: "inv q \<Longrightarrow> inv (snd (take rw force delay now q))"
    and finite_queue: "inv q \<Longrightarrow> finite (queue b q)"
    and queue_disjoint: "inv q \<Longrightarrow> queue True q \<inter> queue False q = {}"
begin

lemma pending_touch:
  "inv q \<Longrightarrow> queue True (touch now i rw q) = (if rw then insert i (queue True q) else queue True q)"
  using queue_disjoint[of q] by (auto simp: queue_touch)

lemma evictable_touch:
  "inv q \<Longrightarrow> queue False (touch now i rw q) =
     (if rw then queue False q - {i} else if i \<in> queue True q then queue False q
      else insert i (queue False q))"
  by (auto simp: queue_touch)

lemma pending_take_evict:
  "inv q \<Longrightarrow> queue True (snd (take False force delay now q)) = queue True q"
  using take_Some[of q False force delay now] take_None[of q False force delay now]
  by (cases "take False force delay now q"; cases "fst (take False force delay now q)") auto

lemma take_evict_not_pending:
  "inv q \<Longrightarrow> take False force delay now q = (Some i, q') \<Longrightarrow> i \<notin> queue True q"
  using take_Some[of q False force delay now i q'] queue_disjoint[of q] by auto

lemma take_card:
  assumes "inv q" "take rw force delay now q = (Some i, q')"
  shows "card (queue rw q') < card (queue rw q)"
  using take_Some[OF assms, of rw] finite_queue[OF assms(1), of rw]
  by (metis card_Diff1_less)

end

interpretation queues: work_queues touchIno take_first queued lru_inv
proof unfold_locales
  fix l :: lru and now i rw
  assume "lru_inv l"
  then obtain as where as: "lru_rep l as"
    by (auto simp: lru_inv_def)
  fix b
  obtain bs where bs: "lru_rep (touchIno now i rw l) bs"
      "lru_list (touchIno now i rw l) bs = spec_touch now i rw (lru_list l as)"
    using touchIno_refines[OF as] by blast
  show "queued b (touchIno now i rw l) =
      (if \<not> rw \<and> i \<in> queued True l then queued b l
       else if b = rw then insert i (queued b l) else queued b l - {i})"
    by (auto simp: queued_list[OF as] queued_list[OF bs(1)] bs(2) spec_touch_def)
next
  fix l :: lru and rw force delay now i l'
  assume l: "lru_inv l" and take: "take_first rw force delay now l = (Some i, l')"
  from l obtain as where as: "lru_rep l as"
    by (auto simp: lru_inv_def)
  fix b
  obtain bs where bs: "lru_rep l' bs" "lru_list l' bs = snd (spec_take rw force delay now (lru_list l as))"
    "fst (spec_take rw force delay now (lru_list l as)) = Some i"
    using take_first_refines[OF as, of rw force delay now] take by auto
  have "distinct (map fst (lru_list l as rw))"
    using as by (rule lru_list_distinct)
  then show "i \<in> queued rw l \<and> queued b l' = (if b = rw then queued b l - {i} else queued b l)"
    using bs(3)
    by (auto simp: queued_list[OF as] queued_list[OF bs(1)] bs(2) spec_take_def
        split: list.splits if_splits intro: rev_image_eqI)
next
  fix l :: lru and rw force delay now l'
  assume l: "lru_inv l" and take: "take_first rw force delay now l = (None, l')"
  from l obtain as where as: "lru_rep l as"
    by (auto simp: lru_inv_def)
  have "l' = l"
    using take by (auto simp: take_first_def Let_def split: if_splits)
  moreover have "fst (spec_take rw force delay now (lru_list l as)) = None"
    using take_first_refines(1)[OF as, of rw force delay now] take by simp
  ultimately show "l' = l \<and> (force \<longrightarrow> queued rw l = {})"
    by (auto simp: queued_list[OF as] spec_take_def split: list.splits if_splits)
next
  fix l :: lru and now i rw force delay
  assume "lru_inv l"
  then show "lru_inv (touchIno now i rw l)" "lru_inv (snd (take_first rw force delay now l))"
    using lru_inv_step[of l "Touch now i rw"] lru_inv_step[of l "Take rw force delay now"] by simp_all
next
  fix l :: lru and b
  show "finite (queued b l)"
    by (simp add: queued_def)
next
  fix l :: lru
  assume "lru_inv l"
  then obtain as where as: "lru_rep l as"
    by (auto simp: lru_inv_def)
  show "queued True l \<inter> queued False l = {}"
    using lru_repD(8)[OF as, of True]
    by (auto simp: queued_def fmlookup_dom_iff)
qed

subsection \<open>Properties\<close>

text \<open>
  C22. The pointer structure of the upload and evict queues refines two lists of inodes: after any
  sequence of touches and takes on empty queues, the maps and the links represent one another, no
  inode is in both queues, and the queues hold what the same operations make of two empty lists.
\<close>

theorem lru_refines_queues:
  "\<exists>as. lru_rep (fold lru_step ops lru_new) as \<and>
        lru_list (fold lru_step ops lru_new) as = fold queue_step ops (\<lambda>_. [])"
proof (induction ops rule: rev_induct)
  case Nil
  then show ?case
    using lru_rep_new by (auto simp: lru_list_def)
next
  case (snoc op ops)
  then obtain as where as: "lru_rep (fold lru_step ops lru_new) as"
    "lru_list (fold lru_step ops lru_new) as = fold queue_step ops (\<lambda>_. [])"
    by blast
  from lru_step_refines[OF as(1), of op] as(2) show ?case
    by simp
qed

text \<open>
  An inode that waits for upload keeps waiting: no touch (of it or of another inode, for reading
  or for writing) and no step of the eviction takes it out of the upload queue.
\<close>

theorem pending_upload_kept:
  assumes "lru_inv l" and "i \<in> queued True l"
  shows "i \<in> queued True (touchIno now j rw l) \<and> i \<notin> queued False (touchIno now j rw l) \<and>
    i \<in> queued True (snd (take_first False force delay now l))"
  using assms queues.pending_touch[OF assms(1), of now j rw] queues.pending_take_evict[OF assms(1)]
    queues.queue_disjoint[OF queues.inv_touch[OF assms(1)], of now j rw]
  by auto

theorem pending_upload_kept_witness:
  "5 \<in> queued True (touchIno 9 5 False (touchIno 7 5 True lru_new)) \<and>
   5 \<notin> queued False (touchIno 9 5 False (touchIno 7 5 True lru_new)) \<and>
   5 \<in> queued True (snd (take_first False True 0 9 (touchIno 7 5 True lru_new)))"
proof -
  have "lru_inv (touchIno 7 5 True lru_new)" "5 \<in> queued True (touchIno 7 5 True lru_new)"
    using queues.inv_touch[OF lru_inv_new] queues.pending_touch[OF lru_inv_new] by simp_all
  from pending_upload_kept[OF this] show ?thesis .
qed

end
