(* ===== verification/Casefold.thy ===== *)
theory Casefold
  imports Prelude
begin

text \<open>
  \<^verbatim>\<open>normalizeCase\<close> of \<^verbatim>\<open>src/cache/cache.go\<close>, the key of a path on a case-insensitive storage, with what
  it uses of Go's strings: \<^verbatim>\<open>range\<close> over a string decodes UTF-8 (a byte that begins no well-formed
  sequence is the rune U+FFFD), \<^verbatim>\<open>WriteRune\<close> encodes it.

  \<^verbatim>\<open>unicode.SimpleFold\<close> is a large table; it is the parameter \<open>F\<close>, an arbitrary function on 32-bit
  runes.  The loop that walks along an orbit of it ends for every such function, because it only
  goes on while the rune grows.  What the documentation of \<^verbatim>\<open>SimpleFold\<close> says is \<open>fold_law\<close>: the runes
  fall into classes, and the next rune is the smallest larger one of the class or else the smallest
  of all.
\<close>

type_synonym rune = "32 word"

definition valid_scalar :: "nat \<Rightarrow> bool" where
  "valid_scalar n \<longleftrightarrow> n < 0xD800 \<or> 0xE000 \<le> n \<and> n < 0x110000"

definition cont :: "nat \<Rightarrow> nat \<Rightarrow> char \<Rightarrow> bool" where
  "cont lo hi c \<longleftrightarrow> lo \<le> of_char c \<and> of_char c \<le> hi"

text \<open>The first rune of a string and its width.\<close>

definition decode2 :: "nat \<Rightarrow> gostring \<Rightarrow> nat \<times> nat" where
  "decode2 b0 s =
     (case s of
        c1 # _ \<Rightarrow> if cont 0x80 0xBF c1 then ((b0 mod 32) * 64 + of_char c1 mod 64, 2) else (0xFFFD, 1)
      | [] \<Rightarrow> (0xFFFD, 1))"

definition decode3 :: "nat \<Rightarrow> gostring \<Rightarrow> nat \<times> nat" where
  "decode3 b0 s =
     (case s of
        c1 # c2 # _ \<Rightarrow>
          if cont (if b0 = 0xE0 then 0xA0 else 0x80) (if b0 = 0xED then 0x9F else 0xBF) c1 \<and> cont 0x80 0xBF c2
          then ((b0 mod 16) * 4096 + (of_char c1 mod 64) * 64 + of_char c2 mod 64, 3) else (0xFFFD, 1)
      | _ \<Rightarrow> (0xFFFD, 1))"

definition decode4 :: "nat \<Rightarrow> gostring \<Rightarrow> nat \<times> nat" where
  "decode4 b0 s =
     (case s of
        c1 # c2 # c3 # _ \<Rightarrow>
          if cont (if b0 = 0xF0 then 0x90 else 0x80) (if b0 = 0xF4 then 0x8F else 0xBF) c1 \<and>
             cont 0x80 0xBF c2 \<and> cont 0x80 0xBF c3
          then ((b0 mod 8) * 262144 + (of_char c1 mod 64) * 4096 + (of_char c2 mod 64) * 64 + of_char c3 mod 64, 4)
          else (0xFFFD, 1)
      | _ \<Rightarrow> (0xFFFD, 1))"

definition decode_rune :: "char \<Rightarrow> gostring \<Rightarrow> nat \<times> nat" where
  "decode_rune c s =
     (let b0 = of_char c
      in if b0 < 0x80 then (b0, 1)
         else if b0 < 0xC2 then (0xFFFD, 1)
         else if b0 < 0xE0 then decode2 b0 s
         else if b0 < 0xF0 then decode3 b0 s
         else if b0 < 0xF5 then decode4 b0 s
         else (0xFFFD, 1))"

fun runes :: "gostring \<Rightarrow> rune list" where
  "runes [] = []"
| "runes (c # s) = (let (r, w) = decode_rune c s in of_nat r # runes (drop (w - 1) s))"

definition encode_scalar :: "nat \<Rightarrow> gostring" where
  "encode_scalar n =
     (if n < 0x80 then [char_of n]
      else if n < 0x800 then [char_of (0xC0 + n div 64), char_of (0x80 + n mod 64)]
      else if n < 0x10000 then
        [char_of (0xE0 + n div 4096), char_of (0x80 + n div 64 mod 64), char_of (0x80 + n mod 64)]
      else
        [char_of (0xF0 + n div 262144), char_of (0x80 + n div 4096 mod 64),
         char_of (0x80 + n div 64 mod 64), char_of (0x80 + n mod 64)])"

definition WriteRune :: "rune \<Rightarrow> gostring" where
  "WriteRune r = encode_scalar (if valid_scalar (unat r) then unat r else 0xFFFD)"

text \<open>The inner loop of \<^verbatim>\<open>normalizeCase\<close>, its body for one rune, and the function.\<close>

lemma rune_bound: "sint (r :: rune) < 2147483648"
  using sint_less[of r] by simp

function fold_loop :: "(rune \<Rightarrow> rune) \<Rightarrow> rune \<Rightarrow> rune" where
  "fold_loop F r = (let f = F r in if sint f > sint r then fold_loop F f else f)"
  by pat_completeness auto
termination
  by (relation "measure (\<lambda>(F, r). nat (2 ^ 31 - sint r))") (auto simp: rune_bound)

declare fold_loop.simps [simp del]

definition normalize_rune :: "(rune \<Rightarrow> rune) \<Rightarrow> rune \<Rightarrow> rune" where
  "normalize_rune F r =
     (if 97 \<le> sint r \<and> sint r \<le> 122 then r + (65 - 97)
      else if sint r < 128 then r
      else fold_loop F r)"

definition normalizeCase :: "(rune \<Rightarrow> rune) \<Rightarrow> gostring \<Rightarrow> gostring" where
  "normalizeCase F s = concat (map (\<lambda>r. WriteRune (normalize_rune F r)) (runes s))"

text \<open>
  The documented behaviour of \<^verbatim>\<open>SimpleFold\<close>, for the classes \<open>cls\<close> of runes that are equal up to case:
  a class is closed, the function gives the next rune of it in the order of the runes, cyclically;
  in the ASCII range the classes are those of the letters, whose capital comes first; and the class
  of a scalar value consists of scalar values.
\<close>

definition fold_law :: "(rune \<Rightarrow> rune) \<Rightarrow> (rune \<Rightarrow> rune set) \<Rightarrow> bool" where
  "fold_law F cls \<longleftrightarrow>
     (\<forall>r. r \<in> cls r \<and> (\<forall>s \<in> cls r. cls s = cls r)) \<and>
     (\<forall>r. F r \<in> cls r) \<and>
     (\<forall>r. \<forall>s \<in> cls r. sint r < sint s \<longrightarrow> sint r < sint (F r) \<and> sint (F r) \<le> sint s) \<and>
     (\<forall>r. sint (F r) \<le> sint r \<longrightarrow> (\<forall>s \<in> cls r. sint (F r) \<le> sint s)) \<and>
     (\<forall>r. 97 \<le> sint r \<and> sint r \<le> 122 \<longrightarrow> r - 32 \<in> cls r \<and> (\<forall>s \<in> cls r. sint (r - 32) \<le> sint s)) \<and>
     (\<forall>r. 0 \<le> sint r \<and> sint r < 128 \<and> \<not> (97 \<le> sint r \<and> sint r \<le> 122) \<longrightarrow>
        (\<forall>s \<in> cls r. sint r \<le> sint s)) \<and>
     (\<forall>r. valid_scalar (unat r) \<longrightarrow> (\<forall>s \<in> cls r. valid_scalar (unat s)))"

definition least_of :: "(rune \<Rightarrow> rune set) \<Rightarrow> rune \<Rightarrow> rune \<Rightarrow> bool" where
  "least_of cls r m \<longleftrightarrow> m \<in> cls r \<and> (\<forall>s \<in> cls r. sint m \<le> sint s)"

text \<open>A concrete folding of the ASCII letters, for the witnesses.\<close>

definition ascii_fold :: "rune \<Rightarrow> rune" where
  "ascii_fold r =
     (if 65 \<le> sint r \<and> sint r \<le> 90 then r + 32
      else if 97 \<le> sint r \<and> sint r \<le> 122 then r - 32 else r)"

subsection \<open>UTF-8\<close>

lemma mod_off: "(b :: nat) < m \<Longrightarrow> (k * m + b) mod m = b"
  by simp

lemma of_byte [simp]: "n < 256 \<Longrightarrow> of_char (char_of n) = (n :: nat)"
  by simp

lemma cont_byte:
  "b < 64 \<Longrightarrow> of_char (char_of (128 + b)) = 128 + b" "b < 64 \<Longrightarrow> (128 + b) mod 64 = (b :: nat)"
  using mod_off[of b 64 2] by simp_all

lemma decode_two: "2 \<le> a \<Longrightarrow> a < 32 \<Longrightarrow> b < 64 \<Longrightarrow>
  decode_rune (char_of (192 + a)) (char_of (128 + b) # s) = (a * 64 + b, 2)"
  using mod_off[of a 32 6]
  by (simp add: decode_rune_def decode2_def cont_def Let_def cont_byte del: of_char_of)

lemma decode_three:
  assumes "a < 16" "b < 64" "c < 64" "a = 0 \<Longrightarrow> 32 \<le> b" "a = 13 \<Longrightarrow> b < 32"
  shows "decode_rune (char_of (224 + a)) (char_of (128 + b) # char_of (128 + c) # s) =
    (a * 4096 + b * 64 + c, 3)"
  using assms mod_off[of a 16 14]
  by (auto simp: decode_rune_def decode3_def cont_def Let_def cont_byte simp del: of_char_of)

lemma decode_four:
  assumes "a \<le> 4" "b < 64" "c < 64" "d < 64" "a = 0 \<Longrightarrow> 16 \<le> b" "a = 4 \<Longrightarrow> b < 16"
  shows "decode_rune (char_of (240 + a)) (char_of (128 + b) # char_of (128 + c) # char_of (128 + d) # s) =
    (a * 262144 + b * 4096 + c * 64 + d, 4)"
  using assms mod_off[of a 8 30]
  by (auto simp: decode_rune_def decode4_def cont_def Let_def cont_byte simp del: of_char_of)

lemma digits64:
  fixes n :: nat
  shows "n div 64 * 64 + n mod 64 = n"
    and "n div 4096 * 4096 + n div 64 mod 64 * 64 + n mod 64 = n"
    and "n div 262144 * 262144 + n div 4096 mod 64 * 4096 + n div 64 mod 64 * 64 + n mod 64 = n"
proof -
  have q: "n div 4096 = n div 64 div 64" "n div 262144 = n div 64 div 64 div 64"
    by (simp_all add: div_mult2_eq[symmetric])
  have d: "k div 64 * 64 + k mod 64 = k" for k :: nat
    by simp
  show "n div 64 * 64 + n mod 64 = n" by simp
  show two: "n div 4096 * 4096 + n div 64 mod 64 * 64 + n mod 64 = n"
    unfolding q using d[of n] d[of "n div 64"] by linarith
  show "n div 262144 * 262144 + n div 4096 mod 64 * 4096 + n div 64 mod 64 * 64 + n mod 64 = n"
    unfolding q using d[of n] d[of "n div 64"] d[of "n div 64 div 64"] by linarith
qed

lemma decode_encode_scalar:
  assumes "valid_scalar n"
  shows "\<exists>c r. encode_scalar n = c # r \<and> decode_rune c (r @ s) = (n, Suc (length r))"
proof -
  consider "n < 128" | "128 \<le> n" "n < 2048" | "2048 \<le> n" "n < 65536" | "65536 \<le> n" "n < 1114112"
    using assms by (fastforce simp: valid_scalar_def)
  then show ?thesis
  proof cases
    case 1
    then show ?thesis
      by (simp add: encode_scalar_def decode_rune_def Let_def)
  next
    case 2
    then have "2 \<le> n div 64" "n div 64 < 32" by auto
    from decode_two[OF this, of "n mod 64" s] 2 digits64(1)[of n] show ?thesis
      by (simp add: encode_scalar_def)
  next
    case 3
    have "32 \<le> n div 64 mod 64" if "n div 4096 = 0"
      using that 3 by simp
    moreover have "n div 64 mod 64 < 32" if "n div 4096 = 13"
      using that assms 3 digits64(2)[of n] by (auto simp: valid_scalar_def)
    ultimately have "decode_rune (char_of (224 + n div 4096))
        (char_of (128 + n div 64 mod 64) # char_of (128 + n mod 64) # s) = (n, 3)"
      using decode_three[of "n div 4096" "n div 64 mod 64" "n mod 64" s] 3 digits64(2)[of n] by simp
    with 3 show ?thesis
      by (simp add: encode_scalar_def)
  next
    case 4
    have "16 \<le> n div 4096 mod 64" if "n div 262144 = 0"
      using that 4 by simp
    moreover have "n div 4096 mod 64 < 16" if "n div 262144 = 4"
      using that 4 digits64(3)[of n] by auto
    moreover have "n div 262144 \<le> 4"
      using 4 by simp
    ultimately have "decode_rune (char_of (240 + n div 262144))
        (char_of (128 + n div 4096 mod 64) # char_of (128 + n div 64 mod 64) # char_of (128 + n mod 64) # s) = (n, 4)"
      using decode_four[of "n div 262144" "n div 4096 mod 64" "n div 64 mod 64" "n mod 64" s]
        digits64(3)[of n] by simp
    with 4 show ?thesis
      by (simp add: encode_scalar_def)
  qed
qed

lemma runes_encode:
  "list_all (\<lambda>r. valid_scalar (unat r)) rs \<Longrightarrow> runes (concat (map WriteRune rs)) = rs"
proof (induction rs)
  case (Cons r rs)
  let ?s = "concat (map WriteRune rs)"
  obtain c t where "encode_scalar (unat r) = c # t" "decode_rune c (t @ ?s) = (unat r, Suc (length t))"
    using decode_encode_scalar[of "unat r" ?s] Cons.prems by auto
  moreover from this have "WriteRune r = c # t"
    using Cons.prems by (simp add: WriteRune_def)
  ultimately show ?case
    using Cons by simp
qed simp

text \<open>Every rune of a string is a scalar value.\<close>

lemma contE:
  assumes "cont lo hi c" "128 \<le> lo" "hi < 192"
  obtains b where "of_char c = 128 + b" "b < 64" "lo \<le> 128 + b" "128 + b \<le> hi" "(of_char c :: nat) mod 64 = b"
proof -
  have "of_char c = 128 + (of_char c - 128 :: nat)" "of_char c - 128 < (64 :: nat)"
    using assms by (auto simp: cont_def)
  then show ?thesis
    using that[of "of_char c - 128"] assms cont_byte(2)[of "of_char c - 128"] by (auto simp: cont_def)
qed

lemma decode2_valid: "a < 32 \<Longrightarrow> valid_scalar (fst (decode2 (192 + a) s))"
proof (cases s)
  case (Cons c t)
  assume a: "a < 32"
  show ?thesis
  proof (cases "cont 0x80 0xBF c")
    case True
    then obtain b where "b < 64" "(of_char c :: nat) mod 64 = b"
      by (elim contE) simp_all
    with a mod_off[of a 32 6] Cons True show ?thesis
      by (simp add: decode2_def valid_scalar_def)
  qed (simp add: decode2_def Cons valid_scalar_def)
qed (simp add: decode2_def valid_scalar_def)

lemma decode3_valid:
  assumes a: "a < 16"
  shows "valid_scalar (fst (decode3 (224 + a) s))"
proof (cases "\<exists>c1 c2 t. s = c1 # c2 # t \<and>
    cont (if a = 0 then 0xA0 else 0x80) (if a = 13 then 0x9F else 0xBF) c1 \<and> cont 0x80 0xBF c2")
  case True
  then obtain c1 c2 t where s: "s = c1 # c2 # t"
    and c: "cont (if a = 0 then 0xA0 else 0x80) (if a = 13 then 0x9F else 0xBF) c1" "cont 0x80 0xBF c2"
    by blast
  obtain b where b: "b < 64" "(of_char c1 :: nat) mod 64 = b" "a = 13 \<longrightarrow> b < 32"
    using c(1) by (elim contE) (auto split: if_splits)
  obtain d where d: "d < 64" "(of_char c2 :: nat) mod 64 = d"
    using c(2) by (elim contE) auto
  have "fst (decode3 (224 + a) s) = a * 4096 + b * 64 + d"
    using s c b(2) d(2) mod_off[of a 16 14] a by (simp add: decode3_def)
  moreover have "valid_scalar (a * 4096 + b * 64 + d)"
    using a b d by (cases "a < 13"; cases "a = 13") (auto simp: valid_scalar_def)
  ultimately show ?thesis by simp
next
  case False
  then have "fst (decode3 (224 + a) s) = 0xFFFD"
    by (auto simp: decode3_def split: list.splits)
  then show ?thesis by (simp add: valid_scalar_def)
qed

lemma decode4_valid:
  assumes a: "a \<le> 4"
  shows "valid_scalar (fst (decode4 (240 + a) s))"
proof (cases "\<exists>c1 c2 c3 t. s = c1 # c2 # c3 # t \<and>
    cont (if a = 0 then 0x90 else 0x80) (if a = 4 then 0x8F else 0xBF) c1 \<and> cont 0x80 0xBF c2 \<and> cont 0x80 0xBF c3")
  case True
  then obtain c1 c2 c3 t where s: "s = c1 # c2 # c3 # t"
    and c: "cont (if a = 0 then 0x90 else 0x80) (if a = 4 then 0x8F else 0xBF) c1" "cont 0x80 0xBF c2" "cont 0x80 0xBF c3"
    by blast
  obtain b where b: "b < 64" "(of_char c1 :: nat) mod 64 = b" "a = 4 \<longrightarrow> b < 16" "a = 0 \<longrightarrow> 16 \<le> b"
    using c(1) by (elim contE) (auto split: if_splits)
  obtain d where d: "d < 64" "(of_char c2 :: nat) mod 64 = d"
    using c(2) by (elim contE) auto
  obtain e where e: "e < 64" "(of_char c3 :: nat) mod 64 = e"
    using c(3) by (elim contE) auto
  have "fst (decode4 (240 + a) s) = a * 262144 + b * 4096 + d * 64 + e"
    using s c b(2) d(2) e(2) mod_off[of a 8 30] a by (simp add: decode4_def)
  moreover have "valid_scalar (a * 262144 + b * 4096 + d * 64 + e)"
    using a b d e by (cases "a = 0"; cases "a = 4") (auto simp: valid_scalar_def)
  ultimately show ?thesis by simp
next
  case False
  then have "fst (decode4 (240 + a) s) = 0xFFFD"
    by (auto simp: decode4_def split: list.splits)
  then show ?thesis by (simp add: valid_scalar_def)
qed

lemma decode_valid: "valid_scalar (fst (decode_rune c s))"
proof -
  define b0 :: nat where "b0 = of_char c"
  have two: "valid_scalar (fst (decode2 b0 s))" if "192 \<le> b0" "b0 < 224"
    using decode2_valid[of "b0 - 192" s] that by simp
  have three: "valid_scalar (fst (decode3 b0 s))" if "224 \<le> b0" "b0 < 240"
    using decode3_valid[of "b0 - 224" s] that by simp
  have four: "valid_scalar (fst (decode4 b0 s))" if "240 \<le> b0" "b0 < 245"
    using decode4_valid[of "b0 - 240" s] that by simp
  have "valid_scalar 0xFFFD" "b0 < 128 \<Longrightarrow> valid_scalar b0"
    by (simp_all add: valid_scalar_def)
  with two three four show ?thesis
    by (simp add: decode_rune_def b0_def[symmetric] Let_def)
qed

lemma unat_scalar: "valid_scalar n \<Longrightarrow> unat (of_nat n :: rune) = n"
  by (auto simp: valid_scalar_def unat_of_nat take_bit_nat_eq_self)

lemma runes_valid: "list_all (\<lambda>r. valid_scalar (unat r)) (runes s)"
proof (induction s rule: runes.induct)
  case (2 c s)
  obtain r w where rw: "decode_rune c s = (r, w)" by (cases "decode_rune c s")
  then have "valid_scalar r"
    using decode_valid[of c s] by simp
  with 2[of "(r, w)" r w] rw show ?case
    by (simp add: unat_scalar)
qed simp

subsection \<open>Folding\<close>

lemma fold_lawD:
  assumes "fold_law F cls"
  shows "r \<in> cls r" "s \<in> cls r \<Longrightarrow> cls s = cls r" "F r \<in> cls r"
    and "sint (F r) \<le> sint r \<Longrightarrow> s \<in> cls r \<Longrightarrow> sint (F r) \<le> sint s"
    and "97 \<le> sint r \<Longrightarrow> sint r \<le> 122 \<Longrightarrow> least_of cls r (r - 32)"
    and "0 \<le> sint r \<Longrightarrow> sint r < 128 \<Longrightarrow> \<not> (97 \<le> sint r \<and> sint r \<le> 122) \<Longrightarrow> least_of cls r r"
    and "valid_scalar (unat r) \<Longrightarrow> s \<in> cls r \<Longrightarrow> valid_scalar (unat s)"
  using assms unfolding fold_law_def least_of_def by (elim conjE; simp)+

lemma least_unique: "least_of cls r m \<Longrightarrow> least_of cls r m' \<Longrightarrow> m = m'"
  by (meson least_of_def order.antisym signed_word_eqI)

lemma fold_loop_least:
  assumes "fold_law F cls"
  shows "least_of cls r (fold_loop F r)"
  using assms
proof (induction F r rule: fold_loop.induct)
  case (1 F r)
  note L = fold_lawD[OF 1(2)]
  have "cls (F r) = cls r"
    using L(2)[OF L(3)] .
  then show ?case
    using 1(1)[OF refl _ 1(2)] L(3,4)[of r]
    by (subst fold_loop.simps) (auto simp: Let_def least_of_def)
qed

lemma sint_scalar: "valid_scalar (unat r) \<Longrightarrow> 0 \<le> sint (r :: rune)"
proof -
  assume "valid_scalar (unat r)"
  then have "unat r < 1114112"
    by (auto simp: valid_scalar_def)
  then have "int (unat r) < int 1114112"
    by (simp only: of_nat_less_iff)
  then have "uint r < 1114112"
    by simp
  then have "signed_take_bit 31 (uint r) = uint r"
    by (intro signed_take_bit_int_eq_self) (simp_all add: order.trans[OF _ uint_ge_0])
  then have "sint r = uint r"
    unfolding sint_uint by simp
  then show ?thesis by simp
qed

lemma normalize_rune_least:
  assumes "fold_law F cls" "valid_scalar (unat r)"
  shows "least_of cls r (normalize_rune F r)"
  using fold_lawD(5,6)[OF assms(1), of r] fold_loop_least[OF assms(1), of r] sint_scalar[OF assms(2)]
  by (auto simp: normalize_rune_def)

lemma runes_normalizeCase:
  assumes "fold_law F cls"
  shows "runes (normalizeCase F s) = map (normalize_rune F) (runes s)"
proof -
  have "valid_scalar (unat (normalize_rune F r))" if "r \<in> set (runes s)" for r
  proof -
    have "valid_scalar (unat r)"
      using runes_valid[of s] that by (simp add: list_all_iff)
    then show ?thesis
      using normalize_rune_least[OF assms] fold_lawD(7)[OF assms] by (auto simp: least_of_def)
  qed
  then have "list_all (\<lambda>r. valid_scalar (unat r)) (map (normalize_rune F) (runes s))"
    by (simp add: list_all_iff)
  from runes_encode[OF this] show ?thesis
    by (simp add: normalizeCase_def comp_def)
qed

lemma normalize_rune_eq_iff:
  assumes "fold_law F cls" "valid_scalar (unat r)" "valid_scalar (unat s)"
  shows "normalize_rune F r = normalize_rune F s \<longleftrightarrow> s \<in> cls r"
proof
  note least = normalize_rune_least[OF assms(1,2)] normalize_rune_least[OF assms(1,3)]
  assume "normalize_rune F r = normalize_rune F s"
  then have "cls s = cls r"
    using least fold_lawD(2)[OF assms(1), of "normalize_rune F r"] by (metis least_of_def)
  then show "s \<in> cls r"
    using fold_lawD(1)[OF assms(1), of s] by simp
next
  assume "s \<in> cls r"
  then have "cls s = cls r"
    by (rule fold_lawD(2)[OF assms(1)])
  then show "normalize_rune F r = normalize_rune F s"
    using normalize_rune_least[OF assms(1,2)] normalize_rune_least[OF assms(1,3)]
    by (intro least_unique[of cls r]) (simp_all add: least_of_def)
qed

subsection \<open>Properties\<close>

text \<open>
  C28. The key of a path identifies exactly the paths that are equal up to case: for any two strings,
  \<^verbatim>\<open>normalizeCase\<close> gives the same key if and only if they have equally many runes and the runes at the
  same places are of the same case-folding class.
\<close>

theorem normalizeCase_eq_iff:
  assumes "fold_law F cls"
  shows "normalizeCase F s = normalizeCase F t \<longleftrightarrow> list_all2 (\<lambda>a b. b \<in> cls a) (runes s) (runes t)"
proof -
  have "normalizeCase F s = normalizeCase F t \<longleftrightarrow>
      map (normalize_rune F) (runes s) = map (normalize_rune F) (runes t)"
  proof
    assume "normalizeCase F s = normalizeCase F t"
    then have "runes (normalizeCase F s) = runes (normalizeCase F t)"
      by (rule arg_cong)
    then show "map (normalize_rune F) (runes s) = map (normalize_rune F) (runes t)"
      by (simp only: runes_normalizeCase[OF assms])
  next
    assume "map (normalize_rune F) (runes s) = map (normalize_rune F) (runes t)"
    then have "concat (map WriteRune (map (normalize_rune F) (runes s))) =
        concat (map WriteRune (map (normalize_rune F) (runes t)))"
      by (rule arg_cong)
    then show "normalizeCase F s = normalizeCase F t"
      by (simp add: normalizeCase_def comp_def)
  qed
  also have "\<dots> \<longleftrightarrow> list_all2 (\<lambda>a b. normalize_rune F a = normalize_rune F b) (runes s) (runes t)"
    by (simp only: list_all2_eq list_all2_map1 list_all2_map2)
  also have "\<dots> \<longleftrightarrow> list_all2 (\<lambda>a b. b \<in> cls a) (runes s) (runes t)"
  proof -
    have "normalize_rune F (runes s ! i) = normalize_rune F (runes t ! i) \<longleftrightarrow> runes t ! i \<in> cls (runes s ! i)"
      if "i < length (runes s)" "i < length (runes t)" for i
      using that runes_valid[of s] runes_valid[of t]
      by (intro normalize_rune_eq_iff[OF assms]) (simp_all add: list_all_length)
    then show ?thesis
      by (auto simp: list_all2_conv_all_nth)
  qed
  finally show ?thesis .
qed

text \<open>
  Normalising a path that is already a key changes nothing.
\<close>

theorem normalizeCase_idem:
  assumes "fold_law F cls"
  shows "normalizeCase F (normalizeCase F s) = normalizeCase F s"
proof -
  have "normalize_rune F (normalize_rune F r) = normalize_rune F r" if "r \<in> set (runes s)" for r
  proof -
    have v: "valid_scalar (unat r)"
      using runes_valid[of s] that by (simp add: list_all_iff)
    then have "normalize_rune F r \<in> cls r"
      using normalize_rune_least[OF assms] by (simp add: least_of_def)
    moreover from this have "valid_scalar (unat (normalize_rune F r))"
      by (rule fold_lawD(7)[OF assms v])
    ultimately have "normalize_rune F r = normalize_rune F (normalize_rune F r)"
      using normalize_rune_eq_iff[OF assms v, of "normalize_rune F r"] by blast
    then show ?thesis by (rule sym)
  qed
  then have "map (\<lambda>r. WriteRune (normalize_rune F r)) (map (normalize_rune F) (runes s)) =
      map (\<lambda>r. WriteRune (normalize_rune F r)) (runes s)"
    by simp
  then show ?thesis
    by (simp only: normalizeCase_def[of F "normalizeCase F s"] runes_normalizeCase[OF assms])
      (simp add: normalizeCase_def)
qed

text \<open>The folding of the ASCII letters obeys the law.\<close>

lemma sint_shift:
  "65 \<le> sint (r :: rune) \<Longrightarrow> sint r \<le> 90 \<Longrightarrow> sint (r + 32) = sint r + 32"
  "97 \<le> sint (r :: rune) \<Longrightarrow> sint r \<le> 122 \<Longrightarrow> sint (r - 32) = sint r - 32"
  by (simp_all add: sint_word_ariths signed_take_bit_int_eq_self)

lemma sint_eq_iff: "sint (r :: rune) = sint s \<longleftrightarrow> r = s"
  by (metis signed_word_eqI)

lemma ascii_scalar: "0 \<le> sint (r :: rune) \<Longrightarrow> sint r < 128 \<Longrightarrow> valid_scalar (unat r)"
proof -
  assume r: "0 \<le> sint r" "sint r < 128"
  have "uint r = take_bit 32 (sint r)"
    by (simp add: uint_sint)
  also have "\<dots> = sint r"
    using r by (intro take_bit_int_eq_self) simp_all
  finally have "nat (uint r) < 128"
    using r by simp
  then show ?thesis
    by (simp add: valid_scalar_def)
qed

lemma ascii_fold_sint:
  "sint (ascii_fold r) =
     (if 65 \<le> sint r \<and> sint r \<le> 90 then sint r + 32
      else if 97 \<le> sint r \<and> sint r \<le> 122 then sint r - 32 else sint r)"
  by (simp add: ascii_fold_def sint_shift)

lemma ascii_fold_twice: "ascii_fold (ascii_fold r) = r"
  by (subst sint_eq_iff[symmetric]) (auto simp: ascii_fold_sint)

lemma ascii_fold_law: "fold_law ascii_fold (\<lambda>r. {r, ascii_fold r})"
proof -
  have "valid_scalar (unat (ascii_fold r))" if "valid_scalar (unat r)" for r
  proof (cases "ascii_fold r = r")
    case False
    then have "65 \<le> sint r \<and> sint r \<le> 90 \<or> 97 \<le> sint r \<and> sint r \<le> 122"
      by (simp add: ascii_fold_def split: if_splits)
    then show ?thesis
      using ascii_fold_sint[of r] by (intro ascii_scalar) (auto split: if_splits)
  qed (use that in simp)
  moreover have "r - 32 = ascii_fold r" if "97 \<le> sint r" "sint r \<le> 122" for r
    using that by (simp add: ascii_fold_def)
  ultimately show ?thesis
    unfolding fold_law_def by (intro conjI) (auto simp: ascii_fold_twice ascii_fold_sint)
qed

theorem normalizeCase_eq_iff_witness:
  "normalizeCase ascii_fold ''/Ab'' = normalizeCase ascii_fold ''/aB'' \<longleftrightarrow>
   list_all2 (\<lambda>a b. b \<in> {a, ascii_fold a}) (runes ''/Ab'') (runes ''/aB'')"
  by (rule normalizeCase_eq_iff[OF ascii_fold_law])

theorem normalizeCase_idem_witness:
  "normalizeCase ascii_fold (normalizeCase ascii_fold ''/Ab'') = normalizeCase ascii_fold ''/Ab''"
  by (rule normalizeCase_idem[OF ascii_fold_law])

end
