(* ===== verification/CacheState.thy ===== *)
theory CacheState
  imports Storage Presence Lru Casefold
begin

text \<open>
  The state of a \<^verbatim>\<open>Cache\<close> of \<^verbatim>\<open>src/cache/cache.go\<close>, what its operations depend on outside the repository
  (\<open>env\<close>), and the elementary accesses the operations are made of.

  The operations run one after the other here: each of them holds the lock of its path from
  beginning to end (\<^verbatim>\<open>lockPath\<close>), and the calls to \<^verbatim>\<open>lockPath\<close> and \<^verbatim>\<open>unlockPath\<close>, which keep their own map,
  are modelled separately in the theory \<open>PathLock\<close>.  A \<^verbatim>\<open>*node_t\<close> that the operations share is an entry of the open map, named by
  the inode number under which it is there; \<open>node_at\<close> reads through such a pointer and \<open>upd_node\<close>
  writes through it.  The channel \<^verbatim>\<open>done\<close> is nil, open or closed: \<open>c_done\<close> is \<^const>\<open>None\<close>, \<open>Some False\<close> or
  \<open>Some True\<close>.
\<close>

record Config =
  DirPathTimeout :: i64
  DirPathMaxCount :: int
  NegPathTimeout :: i64
  NegPathMaxCount :: int
  LoopPeriod :: i64
  UploadDelay :: i64
  EvictDelay :: i64

record ('d, 's) env =
  e_bolt :: "'d bolt"
  e_storage :: "'s storage"
  e_golib :: golib
  e_sha256 :: "bytes \<Rightarrow> bytes"
  e_SimpleFold :: "rune \<Rightarrow> rune"

record ('d, 's) cache =
  c_path :: gostring
  c_config :: Config
  c_isCaseIns :: bool
  c_info :: "StorageInfo option"
  c_infotime :: gotime
  c_openmap :: "(u64, node) fmap"
  c_dirpres :: pathPresenceCache
  c_negpres :: pathPresenceCache
  c_lru :: lru
  c_done :: "bool option"
  c_db :: 'd
  c_st :: 's
  c_os :: osstate

definition pathKey :: "('d, 's) env \<Rightarrow> ('d, 's) cache \<Rightarrow> gostring \<Rightarrow> gostring" where
  "pathKey E c p = (if c_isCaseIns c then normalizeCase (e_SimpleFold E) p else p)"

text \<open>Running a step of one part of the state.\<close>

definition on_db :: "('d \<Rightarrow> 'a res \<times> 'd) \<Rightarrow> ('d, 's) cache \<Rightarrow> 'a res \<times> ('d, 's) cache" where
  "on_db f c = (let (r, d) = f (c_db c) in (r, c\<lparr>c_db := d\<rparr>))"

definition on_st :: "('s \<Rightarrow> 'a res \<times> 's) \<Rightarrow> ('d, 's) cache \<Rightarrow> 'a res \<times> ('d, 's) cache" where
  "on_st f c = (let (r, s) = f (c_st c) in (r, c\<lparr>c_st := s\<rparr>))"

definition on_os :: "(osstate \<Rightarrow> 'a \<times> osstate) \<Rightarrow> ('d, 's) cache \<Rightarrow> 'a \<times> ('d, 's) cache" where
  "on_os f c = (let (r, w) = f (c_os c) in (r, c\<lparr>c_os := w\<rparr>))"

definition time_now :: "('d, 's) cache \<Rightarrow> gotime \<times> ('d, 's) cache" where
  "time_now c = on_os time_Now c"

definition Update :: "('d, 's) env \<Rightarrow> ('d \<Rightarrow> 'a res \<times> 'd) \<Rightarrow> ('d, 's) cache \<Rightarrow> 'a res \<times> ('d, 's) cache" where
  "Update E fn c = on_db (db_Update (e_bolt E) fn) c"

definition View :: "('d, 's) env \<Rightarrow> ('d \<Rightarrow> 'a res) \<Rightarrow> ('d, 's) cache \<Rightarrow> 'a res" where
  "View E fn c = db_View (e_bolt E) fn (c_db c)"

text \<open>The queues and the presence caches, with the clock.\<close>

definition touch :: "u64 \<Rightarrow> bool \<Rightarrow> ('d, 's) cache \<Rightarrow> ('d, 's) cache" where
  "touch ino rw c = (let (t, c) = time_now c in c\<lparr>c_lru := touchIno (UnixNano t) ino rw (c_lru c)\<rparr>)"

definition neg_has :: "gostring \<Rightarrow> ('d, 's) cache \<Rightarrow> bool \<times> ('d, 's) cache" where
  "neg_has k c =
     (let (t, c) = time_now c; (b, p) = hasPath (UnixNano t) k (c_negpres c) in (b, c\<lparr>c_negpres := p\<rparr>))"

definition neg_add :: "gostring \<Rightarrow> ('d, 's) cache \<Rightarrow> ('d, 's) cache" where
  "neg_add k c = (let (t, c) = time_now c in c\<lparr>c_negpres := addPath (UnixNano t) k (c_negpres c)\<rparr>)"

definition neg_remove :: "gostring \<Rightarrow> ('d, 's) cache \<Rightarrow> ('d, 's) cache" where
  "neg_remove k c = c\<lparr>c_negpres := removePath k (c_negpres c)\<rparr>"

definition neg_removeAll :: "gostring \<Rightarrow> ('d, 's) cache \<Rightarrow> ('d, 's) cache" where
  "neg_removeAll k c = c\<lparr>c_negpres := removeAllPath k (c_negpres c)\<rparr>"

definition dir_has :: "gostring \<Rightarrow> ('d, 's) cache \<Rightarrow> bool \<times> ('d, 's) cache" where
  "dir_has k c =
     (let (t, c) = time_now c; (b, p) = hasPath (UnixNano t) k (c_dirpres c) in (b, c\<lparr>c_dirpres := p\<rparr>))"

definition dir_add :: "gostring \<Rightarrow> ('d, 's) cache \<Rightarrow> ('d, 's) cache" where
  "dir_add k c = (let (t, c) = time_now c in c\<lparr>c_dirpres := addPath (UnixNano t) k (c_dirpres c)\<rparr>)"

text \<open>The open map.\<close>

definition node_at :: "('d, 's) cache \<Rightarrow> u64 \<Rightarrow> node" where
  "node_at c h = (case fmlookup (c_openmap c) h of None \<Rightarrow> node0 | Some n \<Rightarrow> n)"

definition upd_node :: "u64 \<Rightarrow> (node \<Rightarrow> node) \<Rightarrow> ('d, 's) cache \<Rightarrow> ('d, 's) cache" where
  "upd_node h f c =
     (case fmlookup (c_openmap c) h of
        None \<Rightarrow> c
      | Some n \<Rightarrow> c\<lparr>c_openmap := fmupd h (f n) (c_openmap c)\<rparr>)"

definition has_ENOENT :: "('d, 's) env \<Rightarrow> error \<Rightarrow> bool" where
  "has_ENOENT E e = errors_HasAttachment (e_golib E) e ENOENT"

subsection \<open>What the elementary accesses change\<close>

text \<open>
  A step of the files, the storage or the database changes only that part; the queues are changed by
  \<open>touch\<close> alone, the open map by \<open>upd_node\<close> alone.
\<close>

named_theorems cache_frame \<open>parts of a cache that a step leaves alone\<close>

lemma on_frame [cache_frame]:
  "c_lru (snd (on_db f c)) = c_lru c" "c_openmap (snd (on_db f c)) = c_openmap c"
  "c_st (snd (on_db f c)) = c_st c" "c_os (snd (on_db f c)) = c_os c"
  "c_lru (snd (on_st g c)) = c_lru c" "c_openmap (snd (on_st g c)) = c_openmap c"
  "c_db (snd (on_st g c)) = c_db c" "c_os (snd (on_st g c)) = c_os c"
  "c_lru (snd (on_os h c)) = c_lru c" "c_openmap (snd (on_os h c)) = c_openmap c"
  "c_db (snd (on_os h c)) = c_db c" "c_st (snd (on_os h c)) = c_st c"
  by (simp_all add: on_db_def on_st_def on_os_def case_prod_beta Let_def)

end
