(* ===== verification/CacheOps.thy ===== *)
theory CacheOps
  imports CacheState
begin

text \<open>
  The operations a client of the cache calls (\<^verbatim>\<open>src/cache/cache.go\<close>): \<^verbatim>\<open>Open\<close>, \<^verbatim>\<open>Make\<close>, \<^verbatim>\<open>Remove\<close>, \<^verbatim>\<open>Rename\<close>,
  \<^verbatim>\<open>Stat\<close>, \<^verbatim>\<open>Chtime\<close>, \<^verbatim>\<open>Readdir\<close>, \<^verbatim>\<open>ReadAt\<close>, \<^verbatim>\<open>WriteAt\<close>, \<^verbatim>\<open>Truncate\<close>, \<^verbatim>\<open>Sync\<close>, \<^verbatim>\<open>Close\<close> and \<^verbatim>\<open>Statfs\<close>, with the
  functions on nodes they are made of.  An operation takes a cache to a result and a cache.  The
  node of an operation is the entry \<open>h\<close> of the open map.
\<close>

abbreviation "errno_err e \<equiv> Err (ErrnoErr e)"

subsubsection \<open>Opening and closing\<close>

definition openNode :: "('d, 's) env \<Rightarrow> gostring \<Rightarrow> ('d, 's) cache \<Rightarrow> node res \<times> ('d, 's) cache" where
  "openNode E path c =
     (if \<not> prefix ''/'' path then (errno_err ENOENT, c)
      else
        (let k = pathKey E c path
         in case View E (\<lambda>d. node_Get (e_bolt E) k d node0) c of
              Ok n \<Rightarrow> (Ok n, c)
            | Err e \<Rightarrow>
                if e \<noteq> ErrnoErr ENOENT then (Err e, c)
                else bindr (Update E (\<lambda>d. NextIno (e_bolt E) node0 d) c) (\<lambda>(ino, n) c. (Ok (n\<lparr>Path := path\<rparr>), c))
            | Panic q \<Rightarrow> (Panic q, c)))"

definition Open :: "('d, 's) env \<Rightarrow> gostring \<Rightarrow> ('d, 's) cache \<Rightarrow> u64 res \<times> ('d, 's) cache" where
  "Open E path c =
     bindr (openNode E path c) (\<lambda>node c.
       let ino = Ino node;
           c = (case fmlookup (c_openmap c) ino of
                  None \<Rightarrow> c\<lparr>c_openmap := fmupd ino node (c_openmap c)\<rparr>
                | Some n \<Rightarrow> c)
       in (Ok ino, upd_node ino Reference c))"

definition closeAndUpdateNode ::
  "('d, 's) env \<Rightarrow> node \<Rightarrow> ('d, 's) cache \<Rightarrow> node res \<times> ('d, 's) cache" where
  "closeAndUpdateNode E node c =
     (case File node of
        None \<Rightarrow> (Panic PanicRuntime, c)
      | Some file \<Rightarrow>
          bindr (on_os (file_Stat file) c) (\<lambda>fileinfo c.
            let n = node\<lparr>Size := fi_Size fileinfo, Mtime := fi_ModTime fileinfo\<rparr>
            in bindr (Update E (\<lambda>d. node_Put (e_bolt E) n (pathKey E c (Path node)) d) c) (\<lambda>_ c. (Ok n, c))))"

text \<open>\<^verbatim>\<open>closeNode\<close> gets the node after it was taken out of the open map; its error is ignored.\<close>

definition closeNode :: "('d, 's) env \<Rightarrow> node \<Rightarrow> ('d, 's) cache \<Rightarrow> unit res \<times> ('d, 's) cache" where
  "closeNode E node c =
     (let (r, c) = (if File node \<noteq> None \<and> Valid node \<and> \<not> Deleted node
                    then (case closeAndUpdateNode E node c of
                            (Ok n, c) \<Rightarrow> (Ok (), c)
                          | (Err e, c) \<Rightarrow> (Err e, c)
                          | (Panic q, c) \<Rightarrow> (Panic q, c))
                    else (Ok (), c))
      in case r of
           Panic q \<Rightarrow> (Panic q, c)
         | _ \<Rightarrow> (r, if Valid node then touch (Ino node) False c else c))"

definition Close :: "('d, 's) env \<Rightarrow> u64 \<Rightarrow> ('d, 's) cache \<Rightarrow> unit res \<times> ('d, 's) cache" where
  "Close E ino c =
     (case fmlookup (c_openmap c) ino of
        None \<Rightarrow> (errno_err EBADF, c)
      | Some n \<Rightarrow>
          (let (cnt, n) = Dereference n
           in if 0 = cnt then
                (case closeNode E n (c\<lparr>c_openmap := fmdrop ino (c_openmap c)\<rparr>) of
                   (Panic q, c) \<Rightarrow> (Panic q, c)
                 | (_, c) \<Rightarrow> (Ok (), c))
              else (Ok (), c\<lparr>c_openmap := fmupd ino n (c_openmap c)\<rparr>)))"

text \<open>\<^verbatim>\<open>getOpenNode\<close>: the operations on an inode that is not open fail with \<^verbatim>\<open>EBADF\<close>.\<close>

definition with_open ::
  "u64 \<Rightarrow> (('d, 's) cache \<Rightarrow> 'a res \<times> ('d, 's) cache) \<Rightarrow> ('d, 's) cache \<Rightarrow> 'a res \<times> ('d, 's) cache" where
  "with_open ino op c =
     (case fmlookup (c_openmap c) ino of None \<Rightarrow> (errno_err EBADF, c) | Some _ \<Rightarrow> op c)"

subsubsection \<open>Stat and Make\<close>

definition statNodeNoLock ::
  "('d, 's) env \<Rightarrow> u64 \<Rightarrow> gostring \<Rightarrow> ('d, 's) cache \<Rightarrow> unit res \<times> ('d, 's) cache" where
  "statNodeNoLock E h k c =
     (let (neg, c) = neg_has k c
      in if neg then (errno_err ENOENT, c)
         else
           (case on_st (st_Stat (e_storage E) (Path (node_at c h))) c of
              (Err e, c) \<Rightarrow> (Err e, if has_ENOENT E e then neg_add k c else c)
            | (Panic q, c) \<Rightarrow> (Panic q, c)
            | (Ok i, c) \<Rightarrow>
                (let n = CopyStat i (node_at c h)
                 in bindr (Update E (\<lambda>d. node_Put (e_bolt E) n k d) c) (\<lambda>_ c.
                      (Ok (), neg_remove k (upd_node h (CopyStat i) c))))))"

definition statNode :: "('d, 's) env \<Rightarrow> u64 \<Rightarrow> ('d, 's) cache \<Rightarrow> ObjectInfo res \<times> ('d, 's) cache" where
  "statNode E h c =
     (let k = pathKey E c (Path (node_at c h))
      in bindr (if \<not> Valid (node_at c h) then
                  (if Deleted (node_at c h) then (errno_err EPERM, c) else statNodeNoLock E h k c)
                else (Ok (), c))
           (\<lambda>_ c. on_os (node_Stat (node_at c h)) c))"

definition Stat :: "('d, 's) env \<Rightarrow> u64 \<Rightarrow> ('d, 's) cache \<Rightarrow> ObjectInfo res \<times> ('d, 's) cache" where
  "Stat E ino c = with_open ino (statNode E ino) c"

text \<open>The storage call of \<^verbatim>\<open>makeNode\<close>: a directory, or an empty object; the writer is closed at the end.\<close>

definition make_object ::
  "'s storage \<Rightarrow> gostring \<Rightarrow> bool \<Rightarrow> 's \<Rightarrow> (ObjectInfo \<times> nat option) res \<times> 's" where
  "make_object S p dir s =
     (if dir then bindr (st_Mkdir S p s) (\<lambda>i s. (Ok (i, None), s))
      else
        bindr (st_OpenWrite S p 0 s) (\<lambda>w s.
          case wr_Wait S w s of
            (Ok i, s) \<Rightarrow> (Ok (i, Some w), s)
          | (Err e, s) \<Rightarrow> (Err e, wr_Close S w s)
          | (Panic q, s) \<Rightarrow> (Panic q, wr_Close S w s)))"

definition close_writer :: "'s storage \<Rightarrow> nat option \<Rightarrow> ('d, 's) cache \<Rightarrow> ('d, 's) cache" where
  "close_writer S w c = (case w of None \<Rightarrow> c | Some w \<Rightarrow> c\<lparr>c_st := wr_Close S w (c_st c)\<rparr>)"

definition makeNode :: "('d, 's) env \<Rightarrow> u64 \<Rightarrow> bool \<Rightarrow> ('d, 's) cache \<Rightarrow> unit res \<times> ('d, 's) cache" where
  "makeNode E h dir c =
     (let k = pathKey E c (Path (node_at c h))
      in if Deleted (node_at c h) then (errno_err EPERM, c)
         else
           (case statNodeNoLock E h k c of
              (Panic q, c) \<Rightarrow> (Panic q, c)
            | (_, c) \<Rightarrow>
                if Valid (node_at c h) then (errno_err EEXIST, c)
                else
                  bindr (on_st (make_object (e_storage E) (Path (node_at c h)) dir) c) (\<lambda>(info, w) c.
                    let n = CopyStat info (node_at c h);
                        (r, c) = bindr (Update E (\<lambda>d. node_Put (e_bolt E) n k d) c) (\<lambda>_ c.
                                   (Ok (), neg_remove k (upd_node h (CopyStat info) c)))
                    in (r, close_writer (e_storage E) w c))))"

definition Make :: "('d, 's) env \<Rightarrow> u64 \<Rightarrow> bool \<Rightarrow> ('d, 's) cache \<Rightarrow> unit res \<times> ('d, 's) cache" where
  "Make E ino dir c = with_open ino (makeNode E ino dir) c"

definition chtimeNode :: "u64 \<Rightarrow> gotime \<Rightarrow> ('d, 's) cache \<Rightarrow> unit res \<times> ('d, 's) cache" where
  "chtimeNode h mtime c = (errno_err ENOSYS, c)"

definition Chtime :: "u64 \<Rightarrow> gotime \<Rightarrow> ('d, 's) cache \<Rightarrow> unit res \<times> ('d, 's) cache" where
  "Chtime ino mtime c = with_open ino (chtimeNode ino mtime) c"

subsubsection \<open>Remove\<close>

text \<open>The loop that counts the nodes of a subtree, to two at most.\<close>

fun count_subtree :: "bytes \<Rightarrow> (bytes \<times> bytes) list \<Rightarrow> nat \<Rightarrow> nat" where
  "count_subtree k [] nodecnt = nodecnt"
| "count_subtree k ((i, v) # r) nodecnt =
     (if 1 \<ge> nodecnt then
        (if \<not> pathKeyHasPrefix i k then nodecnt else count_subtree k r (nodecnt + 1))
      else nodecnt)"

definition removeNode :: "('d, 's) env \<Rightarrow> u64 \<Rightarrow> bool \<Rightarrow> ('d, 's) cache \<Rightarrow> unit res \<times> ('d, 's) cache" where
  "removeNode E h dir c =
     (let node = node_at c h;
          k = pathKey E c (Path node);
          nodecnt = (case View E (\<lambda>d. Ok (count_subtree k (cursor_seek (e_bolt E) catname k d) 0)) c of
                       Ok n \<Rightarrow> n | _ \<Rightarrow> 0)
      in if Deleted node then (errno_err EPERM, c)
         else if Valid node \<and> dir \<and> \<not> IsDir node then (errno_err ENOTDIR, c)
         else if Valid node \<and> \<not> dir \<and> IsDir node then (errno_err EISDIR, c)
         else if Valid node \<and> 1 < nodecnt then (errno_err ENOTEMPTY, c)
         else
           (let (r, c) = on_st (if dir then st_Rmdir (e_storage E) (Path node)
                                else st_Remove (e_storage E) (Path node)) c
            in if (case r of Ok _ \<Rightarrow> False | Err e \<Rightarrow> \<not> has_ENOENT E e | Panic _ \<Rightarrow> True) then (r, c)
               else
                 (case Update E (\<lambda>d. node_Del (e_bolt E) k d) c of
                    (Ok _, c) \<Rightarrow> (r, neg_add k (upd_node h (\<lambda>n. n\<lparr>Deleted := True\<rparr>) c))
                  | (Err e, c) \<Rightarrow> ((case r of Ok _ \<Rightarrow> Err e | _ \<Rightarrow> r), c)
                  | (Panic q, c) \<Rightarrow> (Panic q, c))))"

definition Remove :: "('d, 's) env \<Rightarrow> u64 \<Rightarrow> bool \<Rightarrow> ('d, 's) cache \<Rightarrow> unit res \<times> ('d, 's) cache" where
  "Remove E ino dir c = with_open ino (removeNode E ino dir) c"

subsubsection \<open>Rename\<close>

text \<open>
  \<^verbatim>\<open>newpath + n.Path[len(oldpath):]\<close>, which panics when the path is shorter; the new key of a node of
  the subtree; and the loop of the transaction.
\<close>

definition reroot :: "gostring \<Rightarrow> gostring \<Rightarrow> gostring \<Rightarrow> gostring option" where
  "reroot oldpath newpath p =
     (if length oldpath \<le> length p then Some (newpath @ drop (length oldpath) p) else None)"

definition newkey :: "bytes \<Rightarrow> bytes \<Rightarrow> bytes \<Rightarrow> bytes" where
  "newkey k newk i = newk @ drop (length k) i"

definition rename_one ::
  "'d bolt \<Rightarrow> bytes \<Rightarrow> bytes \<Rightarrow> gostring \<Rightarrow> gostring \<Rightarrow> bytes \<Rightarrow> 'd \<Rightarrow> u64 res \<times> 'd" where
  "rename_one B k newk oldpath newpath i d =
     bindr (node_Get B i d node0, d) (\<lambda>n d.
     bindr (node_Del B i d) (\<lambda>_ d.
     bindr (node_Del B (newkey k newk i) d) (\<lambda>_ d.
     case reroot oldpath newpath (Path n) of
       None \<Rightarrow> (Panic PanicRuntime, d)
     | Some p \<Rightarrow> bindr (node_Put B (n\<lparr>Path := p\<rparr>) (newkey k newk i) d) (\<lambda>_ d. (Ok (Ino n), d)))))"

fun rename_loop ::
  "'d bolt \<Rightarrow> bytes \<Rightarrow> bytes \<Rightarrow> gostring \<Rightarrow> gostring \<Rightarrow> bytes list \<Rightarrow> 'd \<Rightarrow> u64 list res \<times> 'd" where
  "rename_loop B k newk oldpath newpath [] d = (Ok [], d)"
| "rename_loop B k newk oldpath newpath (i # keys) d =
     bindr (rename_one B k newk oldpath newpath i d) (\<lambda>ino d.
     bindr (rename_loop B k newk oldpath newpath keys d) (\<lambda>inos d. (Ok (ino # inos), d)))"

definition rename_tx ::
  "'d bolt \<Rightarrow> bytes \<Rightarrow> bytes \<Rightarrow> gostring \<Rightarrow> gostring \<Rightarrow> 'd \<Rightarrow> u64 list res \<times> 'd" where
  "rename_tx B k newk oldpath newpath d =
     (let keys = map fst (takeWhile (\<lambda>p. pathKeyHasPrefix (fst p) k) (cursor_seek B catname k d))
      in rename_loop B k newk oldpath newpath keys d)"

text \<open>
  The loop over the open nodes; a path that the old one does not start with makes the slice expression
  panic, and the nodes before it keep their new paths.  The panic leaves the mutex of the open map locked,
  which is not part of the state: every later operation would wait for it for ever.
\<close>

fun rename_open ::
  "gostring \<Rightarrow> gostring \<Rightarrow> u64 list \<Rightarrow> (u64, node) fmap \<Rightarrow> bool \<times> (u64, node) fmap" where
  "rename_open oldpath newpath [] m = (True, m)"
| "rename_open oldpath newpath (ino # inos) m =
     (case fmlookup m ino of
        None \<Rightarrow> rename_open oldpath newpath inos m
      | Some n \<Rightarrow>
          (case reroot oldpath newpath (Path n) of
             None \<Rightarrow> (False, m)
           | Some p \<Rightarrow> rename_open oldpath newpath inos (fmupd ino (n\<lparr>Path := p\<rparr>) m)))"

definition renameNode :: "('d, 's) env \<Rightarrow> u64 \<Rightarrow> gostring \<Rightarrow> ('d, 's) cache \<Rightarrow> unit res \<times> ('d, 's) cache" where
  "renameNode E h newpath c =
     (let oldpath = Path (node_at c h);
          k = pathKey E c oldpath;
          newk = pathKey E c newpath
      in if k \<noteq> newk \<and> (pathKeyHasPrefix k newk \<or> pathKeyHasPrefix newk k) then (errno_err EINVAL, c)
         else if Deleted (node_at c h) then (errno_err EPERM, c)
         else
           (case on_st (st_Rename (e_storage E) oldpath newpath) c of
              (Err e, c) \<Rightarrow> (if has_ENOENT E e then errno_err EPERM else Err e, c)
            | (Panic q, c) \<Rightarrow> (Panic q, c)
            | (Ok _, c) \<Rightarrow>
                bindr (Update E (rename_tx (e_bolt E) k newk oldpath newpath) c) (\<lambda>inos c.
                  let (ok, m) = rename_open oldpath newpath inos (c_openmap c); c = c\<lparr>c_openmap := m\<rparr>
                  in if \<not> ok then (Panic PanicRuntime, c)
                     else (Ok (), if k \<noteq> newk then neg_add k (neg_removeAll newk c) else c))))"

definition Rename :: "('d, 's) env \<Rightarrow> u64 \<Rightarrow> gostring \<Rightarrow> ('d, 's) cache \<Rightarrow> unit res \<times> ('d, 's) cache" where
  "Rename E ino newpath c = with_open ino (renameNode E ino newpath) c"

subsubsection \<open>Readdir\<close>

text \<open>
  The answer from the catalogue: the loop over the cursor.  A value that does not decode is skipped,
  but its error stays in the result variable until the next value that does.
\<close>

fun readdir_cached ::
  "int \<Rightarrow> bytes \<Rightarrow> (bytes \<times> bytes) list \<Rightarrow> int \<Rightarrow> ObjectInfo list \<Rightarrow> error option \<Rightarrow> osstate \<Rightarrow>
     ObjectInfo list res \<times> osstate" where
  "readdir_cached maxcount k [] count infos err w =
     ((case err of None \<Rightarrow> Ok infos | Some e \<Rightarrow> Err e), w)"
| "readdir_cached maxcount k ((i, v) # r) count infos err w =
     (if \<not> pathKeyHasPrefix i k then ((case err of None \<Rightarrow> Ok infos | Some e \<Rightarrow> Err e), w)
      else if i = k \<or> slash \<in> set (drop (length k + 1) i) then readdir_cached maxcount k r count infos err w
      else
        (case Decode v node0 of
           Err e \<Rightarrow> readdir_cached maxcount k r count infos (Some e) w
         | Panic q \<Rightarrow> (Panic q, w)
         | Ok n \<Rightarrow>
             bindr (node_Stat n w) (\<lambda>info w.
               if 0 < maxcount \<and> 0 \<ge> count - 1 then (Ok (infos @ [info]), w)
               else readdir_cached maxcount k r (if 0 < maxcount then count - 1 else count)
                      (infos @ [info]) None w)))"

text \<open>The loop over the pages of the storage's listing; nothing but the storage bounds it.\<close>

partial_function (option) list_loop ::
  "'s storage \<Rightarrow> gostring \<Rightarrow> int \<Rightarrow> gostring \<Rightarrow> int \<Rightarrow> ObjectInfo list \<Rightarrow> 's \<Rightarrow>
     (ObjectInfo list res \<times> 's) option" where
  "list_loop S p maxcount marker count infos s =
     (case st_List S p marker count s of
        (Err e, s) \<Rightarrow> Some (Err e, s)
      | (Panic q, s) \<Rightarrow> Some (Panic q, s)
      | (Ok (marker, i), s) \<Rightarrow>
          (let infos = infos @ i
           in if '''' = marker then Some (Ok infos, s)
              else if 0 < maxcount then
                (let count = count - int (length i)
                 in if 0 \<ge> count then Some (Ok infos, s)
                    else list_loop S p maxcount marker count infos s)
              else list_loop S p maxcount marker count infos s))"

text \<open>
  The transaction that enters a listing into the catalogue.  A node that is there already takes the
  place of the storage's information; nodes from the database have no open file, so \<^verbatim>\<open>Stat\<close> of one does
  not look at the files.
\<close>

fun readdir_store ::
  "'d bolt \<Rightarrow> (gostring \<Rightarrow> gostring) \<Rightarrow> osstate \<Rightarrow> gostring \<Rightarrow> gostring \<Rightarrow> ObjectInfo list \<Rightarrow> 'd \<Rightarrow>
     (ObjectInfo list \<times> u64 list) res \<times> 'd" where
  "readdir_store B key w dirkey dirpath [] d = (Ok ([], []), d)"
| "readdir_store B key w dirkey dirpath (info # rest) d =
     (let name = oi_Name info;
          k = path_Join dirkey (key name)
      in bindr
           (case node_Get B k d node0 of
              Ok n \<Rightarrow> bindr (fst (node_Stat n w), d) (\<lambda>info d. (Ok (info, Ino n), d))
            | _ \<Rightarrow>
                bindr (NextIno B node0 d) (\<lambda>(ino, n) d.
                  let n = CopyStat info (n\<lparr>Path := path_Join dirpath name\<rparr>)
                  in bindr (node_Put B n k d) (\<lambda>_ d. (Ok (info, ino), d))))
           (\<lambda>(info, ino) d.
             bindr (readdir_store B key w dirkey dirpath rest d) (\<lambda>(infos, inos) d.
               (Ok (info # infos, ino # inos), d))))"

definition readdirNode ::
  "('d, 's) env \<Rightarrow> u64 \<Rightarrow> int \<Rightarrow> ('d, 's) cache \<Rightarrow> (ObjectInfo list res \<times> ('d, 's) cache) option" where
  "readdirNode E h maxcount c =
     (let node = node_at c h;
          k = pathKey E c (Path node)
      in if Deleted node then Some (errno_err EPERM, c)
         else
           (case dir_has k c of
              (True, c) \<Rightarrow>
                Some (bindr (View E (\<lambda>d. Ok (cursor_seek (e_bolt E) catname k d)) c, c) (\<lambda>l c.
                  on_os (readdir_cached maxcount k l maxcount [] None) c))
            | (False, c) \<Rightarrow>
                (case list_loop (e_storage E) (Path node) maxcount '''' maxcount [] (c_st c) of
                   None \<Rightarrow> None
                 | Some (r, s) \<Rightarrow>
                     Some (bindr (r, c\<lparr>c_st := s\<rparr>) (\<lambda>infos c.
                       bindr (Update E (readdir_store (e_bolt E) (pathKey E c) (c_os c) k (Path node) infos) c)
                         (\<lambda>(infos, inos) c.
                           (Ok infos, neg_remove k (dir_add k (fold (\<lambda>ino. touch ino False) inos c)))))))))"

definition Readdir ::
  "('d, 's) env \<Rightarrow> u64 \<Rightarrow> int \<Rightarrow> ('d, 's) cache \<Rightarrow> (ObjectInfo list res \<times> ('d, 's) cache) option" where
  "Readdir E ino maxcount c =
     (case fmlookup (c_openmap c) ino of
        None \<Rightarrow> Some (errno_err EBADF, c)
      | Some _ \<Rightarrow> readdirNode E ino maxcount c)"

subsubsection \<open>Reading and writing files\<close>

text \<open>The part of \<^verbatim>\<open>readNodeFromStorage\<close> after the local file was opened.\<close>

definition fetch_object ::
  "('d, 's) env \<Rightarrow> gostring \<Rightarrow> gostring \<Rightarrow> i64 \<Rightarrow> fileno \<Rightarrow> ('d, 's) cache \<Rightarrow>
     (ObjectInfo option \<times> bytes \<times> fileno) res \<times> ('d, 's) cache" where
  "fetch_object E p sig sz f c =
     bindr (on_st (st_OpenRead (e_storage E) p sig) c) (\<lambda>(i, reader) c.
       case reader of
         None \<Rightarrow> (Ok (None, [], f), c)
       | Some r \<Rightarrow>
           (let (err, c) = on_os (if - 1 = sz then io_Copy f r else io_CopyN f r sz) c;
                err = (if - 1 \<noteq> sz \<and> err = Some ErrEOF then None else err);
                got = (if - 1 = sz then fst r else take (nat (sint sz)) (fst r))
            in case err of
                 Some e \<Rightarrow> (Err e, c)
               | None \<Rightarrow> (Ok (Some i, e_sha256 E got, f), c)))"

definition readNodeFromStorage ::
  "('d, 's) env \<Rightarrow> node \<Rightarrow> i64 \<Rightarrow> ('d, 's) cache \<Rightarrow>
     (ObjectInfo option \<times> bytes \<times> fileno) res \<times> ('d, 's) cache" where
  "readNodeFromStorage E node sz c =
     (let fp = filePath (c_path c) (Ino node)
      in case on_os (openFile fp) c of
           (Ok f, c) \<Rightarrow> fetch_object E (Path node) (Sig node) sz f c
         | (_, c) \<Rightarrow>
             bindr (on_os (os_MkdirAll (filepath_Dir fp)) c) (\<lambda>_ c.
             bindr (on_os (createFile fp) c) (\<lambda>f c.
               case fetch_object E (Path node) '''' sz f c of
                 (Ok x, c) \<Rightarrow> (Ok x, c)
               | (Err e, c) \<Rightarrow> (Err e, snd (on_os (os_Remove fp) c))
               | (Panic q, c) \<Rightarrow> (Panic q, c))))"

text \<open>
  \<^verbatim>\<open>performFileIoOnNode\<close>: the first part makes sure that the node has an open file; the second runs the
  given function on it.  The result of the function is a value and an error beside it.
\<close>

definition ensureFile ::
  "('d, 's) env \<Rightarrow> u64 \<Rightarrow> i64 \<Rightarrow> ('d, 's) cache \<Rightarrow> unit res \<times> ('d, 's) cache" where
  "ensureFile E h sz c =
     (let node = node_at c h;
          k = pathKey E c (Path node)
      in if Deleted node then (errno_err EPERM, c)
         else
           bindr (readNodeFromStorage E node sz c) (\<lambda>(info, hash, file) c.
           bindr
             (case info of
                None \<Rightarrow> (Ok (), c)
              | Some info \<Rightarrow>
                  (let n = (CopyStat info node)\<lparr>Hash := hash\<rparr>
                   in bindr (Update E (\<lambda>d. node_Put (e_bolt E) n k d) c) (\<lambda>_ c.
                        (Ok (), upd_node h (\<lambda>n. (CopyStat info n)\<lparr>Hash := hash\<rparr>) c))))
             (\<lambda>_ c. (Ok (), neg_remove k (upd_node h (\<lambda>n. n\<lparr>File := Some file\<rparr>) c)))))"

definition performFileIoOnNode ::
  "('d, 's) env \<Rightarrow> u64 \<Rightarrow> bool \<Rightarrow> i64 \<Rightarrow> (fileno \<Rightarrow> ('d, 's) cache \<Rightarrow> ('a \<times> error option) \<times> ('d, 's) cache) \<Rightarrow>
     'a \<Rightarrow> ('d, 's) cache \<Rightarrow> ('a \<times> error option) res \<times> ('d, 's) cache" where
  "performFileIoOnNode E h ensure sz fn dflt c =
     bindr (if ensure \<and> None = File (node_at c h) then ensureFile E h sz c else (Ok (), c)) (\<lambda>_ c.
       case File (node_at c h) of
         None \<Rightarrow> (Ok (dflt, None), c)
       | Some file \<Rightarrow> (let (r, c) = fn file c in (Ok r, c)))"

definition ReadAt ::
  "('d, 's) env \<Rightarrow> u64 \<Rightarrow> nat \<Rightarrow> i64 \<Rightarrow> ('d, 's) cache \<Rightarrow> (bytes \<times> error option) res \<times> ('d, 's) cache" where
  "ReadAt E ino len off c =
     with_open ino (performFileIoOnNode E ino True (- 1) (\<lambda>file c. on_os (file_ReadAt file len off) c) []) c"

definition WriteAt ::
  "('d, 's) env \<Rightarrow> u64 \<Rightarrow> bytes \<Rightarrow> i64 \<Rightarrow> ('d, 's) cache \<Rightarrow> (nat \<times> error option) res \<times> ('d, 's) cache" where
  "WriteAt E ino buf off c =
     with_open ino (performFileIoOnNode E ino True (- 1) (\<lambda>file c.
       let ((n, err), c) = on_os (file_WriteAt file buf off) c
       in ((n, err), if None = err then touch (Ino (node_at c ino)) True c else c)) 0) c"

definition Truncate ::
  "('d, 's) env \<Rightarrow> u64 \<Rightarrow> i64 \<Rightarrow> ('d, 's) cache \<Rightarrow> (unit \<times> error option) res \<times> ('d, 's) cache" where
  "Truncate E ino sz c =
     with_open ino (performFileIoOnNode E ino True sz (\<lambda>file c.
       case on_os (file_Truncate file sz) c of
         (Ok _, c) \<Rightarrow> (((), None), touch (Ino (node_at c ino)) True c)
       | (Err e, c) \<Rightarrow> (((), Some e), c)
       | (Panic q, c) \<Rightarrow> (((), None), c)) ()) c"

definition Sync ::
  "('d, 's) env \<Rightarrow> u64 \<Rightarrow> ('d, 's) cache \<Rightarrow> (unit \<times> error option) res \<times> ('d, 's) cache" where
  "Sync E ino c =
     with_open ino (performFileIoOnNode E ino False (- 1) (\<lambda>file c.
       case on_os (file_Sync file) c of
         (Err e, c) \<Rightarrow> (((), Some e), c)
       | (_, c) \<Rightarrow> (((), None), c)) ()) c"

definition refreshInfo :: "('d, 's) env \<Rightarrow> gotime \<Rightarrow> ('d, 's) cache \<Rightarrow> StorageInfo res \<times> ('d, 's) cache" where
  "refreshInfo E now c =
     bindr (on_st (st_Info (e_storage E) True) c) (\<lambda>info c.
       (Ok info, c\<lparr>c_info := Some info, c_infotime := now\<rparr>))"

definition Statfs :: "('d, 's) env \<Rightarrow> ('d, 's) cache \<Rightarrow> StorageInfo res \<times> ('d, 's) cache" where
  "Statfs E c =
     (let (now, c) = time_now c
      in case c_info c of
           None \<Rightarrow> refreshInfo E now c
         | Some info \<Rightarrow>
             if c_infotime c + sint (EvictDelay (c_config c)) < now then refreshInfo E now c
             else (Ok info, c))"

end
