(* ===== verification/Background.thy ===== *)
theory Background
  imports CacheOps
begin

text \<open>
  The background work of the cache (\<^verbatim>\<open>src/cache/cache.go\<close>): \<^verbatim>\<open>uploadOne\<close>, \<^verbatim>\<open>evictOne\<close>, the loops \<^verbatim>\<open>uploadAll\<close>,
  \<^verbatim>\<open>evictAll\<close> and \<^verbatim>\<open>resetCache\<close>, and the opening, listing and closing of a cache.

  \<^verbatim>\<open>uploadOne\<close> and \<^verbatim>\<open>evictOne\<close> take an item from a queue first, without the lock of its path, and do their
  work under that lock afterwards; other operations may come in between.  The two parts are separate
  definitions, \<open>pick\<close> and \<open>uploadBody\<close> or \<open>evictBody\<close>, so that the interleavings can be stated; the
  functions of the source are their compositions.  The error \<^verbatim>\<open>errNoItem\<close>, a value of the package that no
  other code can return, is the result \<^const>\<open>None\<close>.  The progress callback has no effect on the cache
  and is left out.
\<close>

definition pick :: "bool \<Rightarrow> bool \<Rightarrow> ('d, 's) cache \<Rightarrow> u64 option \<times> ('d, 's) cache" where
  "pick rw force c =
     (let (t, c) = time_now c;
          delay = (if rw then UploadDelay (c_config c) else EvictDelay (c_config c));
          (item, l) = take_first rw force delay (UnixNano t) (c_lru c)
      in (item, c\<lparr>c_lru := l\<rparr>))"

text \<open>
  \<^verbatim>\<open>getLockedNodeWithIno\<close>: the node is read again after its path was locked, until the path is the one
  that is locked.  While no other operation runs, the second reading decides.
\<close>

function getLocked_loop ::
  "('d, 's) env \<Rightarrow> u64 \<Rightarrow> gostring \<Rightarrow> ('d, 's) cache \<Rightarrow> (node \<times> gostring) res" where
  "getLocked_loop E ino pk0 c =
     (case View E (\<lambda>d. node_GetWithIno (e_bolt E) ino d node0) c of
        Err e \<Rightarrow> Err e
      | Panic q \<Rightarrow> Panic q
      | Ok n \<Rightarrow>
          (let pk = pathKey E c (Path n)
           in if pk0 = pk then Ok (n, pk) else getLocked_loop E ino pk c))"
  by pat_completeness auto
termination
  by (relation "measure (\<lambda>(E, ino, pk0, c).
        if \<exists>n. View E (\<lambda>d. node_GetWithIno (e_bolt E) ino d node0) c = Ok n \<and> pk0 = pathKey E c (Path n)
        then 0 else 1)") auto

declare getLocked_loop.simps [simp del]

definition getLockedNodeWithIno ::
  "('d, 's) env \<Rightarrow> u64 \<Rightarrow> ('d, 's) cache \<Rightarrow> (node \<times> gostring) res" where
  "getLockedNodeWithIno E ino c = getLocked_loop E ino '''' c"

text \<open>
  \<^verbatim>\<open>io.CopyN(writer, io.TeeReader(file, h), n)\<close>: chunks of at most 32 KB, the buffer of \<^verbatim>\<open>io.Copy\<close>, are read
  from the file and written to the writer until \<open>n\<close> bytes are copied; a file that ends before that is the
  error \<^verbatim>\<open>io.EOF\<close>.  \<open>acc\<close> holds the bytes read so far, which are those that went into the hash.
\<close>

lemma file_Read_Ok: "file_Read f len pos w = (Ok got, w') \<Longrightarrow> 0 < len \<Longrightarrow> got \<noteq> [] \<and> length got \<le> len"
  by (auto simp: file_Read_def Let_def split: option.splits if_splits)

function copy_upload ::
  "'s storage \<Rightarrow> nat \<Rightarrow> fileno \<Rightarrow> nat \<Rightarrow> bytes \<Rightarrow> ('d, 's) cache \<Rightarrow> bytes res \<times> ('d, 's) cache" where
  "copy_upload S w f n acc c =
     (if n = 0 then (Ok acc, c)
      else
        (case on_os (file_Read f (min 32768 n) (length acc)) c of
           (Err e, c) \<Rightarrow> (Err e, c)
         | (Panic q, c) \<Rightarrow> (Panic q, c)
         | (Ok got, c) \<Rightarrow>
             bindr (on_st (wr_Write S w got) c) (\<lambda>_ c. copy_upload S w f (n - length got) (acc @ got) c)))"
  by pat_completeness auto
termination
  by (relation "measure (\<lambda>(S, w, f, n, acc, c). n)")
    (auto simp: on_os_def dest!: file_Read_Ok split: prod.splits)

declare copy_upload.simps [simp del]

text \<open>The transfer of a file to the storage: from \<^verbatim>\<open>OpenWrite\<close> to the end of \<^verbatim>\<open>uploadOne\<close>.\<close>

definition uploadFinish ::
  "('d, 's) env \<Rightarrow> u64 \<Rightarrow> node \<Rightarrow> gostring \<Rightarrow> bytes \<Rightarrow> ObjectInfo \<Rightarrow> ('d, 's) cache \<Rightarrow> unit res \<times> ('d, 's) cache" where
  "uploadFinish E ino n k b info c =
     bindr (on_os (os_Chtimes (filePath (c_path c) ino) (oi_Mtime info)) c) (\<lambda>_ c.
       let n = (CopyStat info n)\<lparr>Hash := e_sha256 E b\<rparr>
       in bindr (Update E (\<lambda>d. node_Put (e_bolt E) n k d) c) (\<lambda>_ c.
            (Ok (), upd_node ino (\<lambda>m. (CopyStat info m)\<lparr>Hash := Hash n\<rparr>) c)))"

definition uploadFile ::
  "('d, 's) env \<Rightarrow> u64 \<Rightarrow> node \<Rightarrow> gostring \<Rightarrow> fileno \<Rightarrow> ('d, 's) cache \<Rightarrow> unit res \<times> ('d, 's) cache" where
  "uploadFile E ino n k file c =
     bindr (on_os (file_Stat file) c) (\<lambda>stat c.
     bindr (on_st (st_OpenWrite (e_storage E) (Path n) (fi_Size stat)) c) (\<lambda>w c.
       let (r, c) =
             bindr (copy_upload (e_storage E) w file (nat (sint (fi_Size stat))) [] c) (\<lambda>b c.
             bindr (on_st (wr_Wait (e_storage E) w) c) (\<lambda>info c.
               uploadFinish E ino n k b info c))
       in (r, close_writer (e_storage E) (Some w) c)))"

text \<open>
  The body of \<^verbatim>\<open>uploadOne\<close>: the result and whether the deferred function touches the inode.  A node read
  from the database is never marked deleted, as the code nevertheless tests.
\<close>

definition uploadWork ::
  "('d, 's) env \<Rightarrow> u64 \<Rightarrow> ('d, 's) cache \<Rightarrow> (unit res \<times> bool) \<times> ('d, 's) cache" where
  "uploadWork E ino c =
     (case getLockedNodeWithIno E ino c of
        Err e \<Rightarrow> ((if e = ErrnoErr ENOENT then Ok () else Err e, True), c)
      | Panic q \<Rightarrow> ((Panic q, True), c)
      | Ok (n, k) \<Rightarrow>
          if Deleted n then ((Ok (), False), c)
          else if fmlookup (rwmap (c_lru c)) ino \<noteq> None then ((Ok (), False), c)
          else
            (case on_os (openFile (filePath (c_path c) ino)) c of
               (Err e, c) \<Rightarrow> ((if os_IsNotExist e then Ok () else Err e, True), c)
             | (Panic q, c) \<Rightarrow> ((Panic q, True), c)
             | (Ok file, c) \<Rightarrow> (let (r, c) = uploadFile E ino n k file c in ((r, True), c))))"

definition uploadBody :: "('d, 's) env \<Rightarrow> u64 \<Rightarrow> ('d, 's) cache \<Rightarrow> unit res \<times> ('d, 's) cache" where
  "uploadBody E ino c =
     (let ((r, tch), c) = uploadWork E ino c
      in (r, if tch then touch ino (case r of Ok _ \<Rightarrow> False | Err _ \<Rightarrow> True | Panic _ \<Rightarrow> False) c else c))"

definition uploadOne :: "('d, 's) env \<Rightarrow> bool \<Rightarrow> ('d, 's) cache \<Rightarrow> unit res option \<times> ('d, 's) cache" where
  "uploadOne E force c =
     (case pick True force c of
        (None, c) \<Rightarrow> (None, c)
      | (Some ino, c) \<Rightarrow> (let (r, c) = uploadBody E ino c in (Some r, c)))"

definition evictWork :: "('d, 's) env \<Rightarrow> u64 \<Rightarrow> ('d, 's) cache \<Rightarrow> unit res \<times> ('d, 's) cache" where
  "evictWork E ino c =
     (case getLockedNodeWithIno E ino c of
        Err e \<Rightarrow>
          if e \<noteq> ErrnoErr ENOENT then (Err e, c)
          else (Ok (), snd (on_os (os_Remove (filePath (c_path c) ino)) c))
      | Panic q \<Rightarrow> (Panic q, c)
      | Ok (n, k) \<Rightarrow>
          if fmlookup (rwmap (c_lru c)) ino \<noteq> None \<or> fmlookup (romap (c_lru c)) ino \<noteq> None then (Ok (), c)
          else if fmlookup (c_openmap c) ino \<noteq> None then (Ok (), c)
          else
            bindr (Update E (\<lambda>d. node_Del (e_bolt E) k d) c) (\<lambda>_ c.
              (Ok (), snd (on_os (os_Remove (filePath (c_path c) ino)) c))))"

definition evictBody :: "('d, 's) env \<Rightarrow> u64 \<Rightarrow> ('d, 's) cache \<Rightarrow> unit res \<times> ('d, 's) cache" where
  "evictBody E ino c =
     (let (r, c) = evictWork E ino c in (r, case r of Err _ \<Rightarrow> touch ino False c | _ \<Rightarrow> c))"

definition evictOne :: "('d, 's) env \<Rightarrow> bool \<Rightarrow> ('d, 's) cache \<Rightarrow> unit res option \<times> ('d, 's) cache" where
  "evictOne E force c =
     (case pick False force c of
        (None, c) \<Rightarrow> (None, c)
      | (Some ino, c) \<Rightarrow> (let (r, c) = evictBody E ino c in (Some r, c)))"

text \<open>The loops go on while a step succeeds; their end is not an error when the queue has run out.\<close>

partial_function (option) uploadAll ::
  "('d, 's) env \<Rightarrow> bool \<Rightarrow> ('d, 's) cache \<Rightarrow> (unit res \<times> ('d, 's) cache) option" where
  "uploadAll E force c =
     (case uploadOne E force c of
        (Some (Ok _), c) \<Rightarrow> uploadAll E force c
      | (None, c) \<Rightarrow> Some (Ok (), c)
      | (Some (Err e), c) \<Rightarrow> Some (Err e, c)
      | (Some (Panic q), c) \<Rightarrow> Some (Panic q, c))"

partial_function (option) evictAll ::
  "('d, 's) env \<Rightarrow> bool \<Rightarrow> ('d, 's) cache \<Rightarrow> (unit res \<times> ('d, 's) cache) option" where
  "evictAll E force c =
     (case evictOne E force c of
        (Some (Ok _), c) \<Rightarrow> evictAll E force c
      | (None, c) \<Rightarrow> Some (Ok (), c)
      | (Some (Err e), c) \<Rightarrow> Some (Err e, c)
      | (Some (Panic q), c) \<Rightarrow> Some (Panic q, c))"

text \<open>\<^verbatim>\<open>resetCache\<close>; the error is wrapped by the error package, \<open>wrap\<close>.\<close>

definition resetCache ::
  "('d, 's) env \<Rightarrow> (error \<Rightarrow> error) \<Rightarrow> bool \<Rightarrow> ('d, 's) cache \<Rightarrow> (unit res \<times> ('d, 's) cache) option" where
  "resetCache E wrap force c =
     (case uploadAll E force c of
        None \<Rightarrow> None
      | Some (Ok _, c) \<Rightarrow>
          (case evictAll E force c of
             None \<Rightarrow> None
           | Some (Err e, c) \<Rightarrow> Some (Err (wrap e), c)
           | Some (r, c) \<Rightarrow> Some (r, c))
      | Some (Err e, c) \<Rightarrow> Some (Err (wrap e), c)
      | Some (Panic q, c) \<Rightarrow> Some (Panic q, c))"

definition ResetCache ::
  "('d, 's) env \<Rightarrow> (error \<Rightarrow> error) \<Rightarrow> ('d, 's) cache \<Rightarrow> (unit res \<times> ('d, 's) cache) option" where
  "ResetCache E wrap c = resetCache E wrap True c"

text \<open>
  \<^verbatim>\<open>loop\<close>, the goroutine of an active cache: what its \<^verbatim>\<open>select\<close> receives, a tick of the timer or the end, is a list; at the end of
  the list it waits for ever.  The error of \<^verbatim>\<open>resetCache\<close> is ignored; a panic ends the program.
\<close>

datatype loopev = Tick | Done

fun loop ::
  "('d, 's) env \<Rightarrow> (error \<Rightarrow> error) \<Rightarrow> loopev list \<Rightarrow> ('d, 's) cache \<Rightarrow> (unit res \<times> ('d, 's) cache) option" where
  "loop E wrap [] c = None"
| "loop E wrap (Done # evs) c = Some (Ok (), c)"
| "loop E wrap (Tick # evs) c =
     (case resetCache E wrap False c of
        None \<Rightarrow> None
      | Some (Panic q, c) \<Rightarrow> Some (Panic q, c)
      | Some (_, c) \<Rightarrow> loop E wrap evs c)"

text \<open>\<^verbatim>\<open>CloseCache\<close>; closing a cache a second time closes a closed channel, which panics.\<close>

definition CloseCache ::
  "('d, 's) env \<Rightarrow> (error \<Rightarrow> error) \<Rightarrow> ('d, 's) cache \<Rightarrow> (unit res \<times> ('d, 's) cache) option" where
  "CloseCache E wrap c =
     (case (case c_done c of
              None \<Rightarrow> Some (Ok (), c)
            | Some closed \<Rightarrow>
                if closed then Some (Panic PanicRuntime, c)
                else resetCache E wrap True (c\<lparr>c_done := Some True\<rparr>)) of
        None \<Rightarrow> None
      | Some (r, c) \<Rightarrow>
          (case r of
             Panic q \<Rightarrow> Some (Panic q, c)
           | _ \<Rightarrow>
               (let (err0, d) = db_Close (e_bolt E) (c_db c);
                    r = (case r of Ok _ \<Rightarrow> (case err0 of None \<Rightarrow> Ok () | Some e \<Rightarrow> Err e) | _ \<Rightarrow> r)
                in Some ((case r of Err e \<Rightarrow> Err (wrap e) | _ \<Rightarrow> r), c\<lparr>c_db := d\<rparr>))))"

subsubsection \<open>Opening a cache\<close>

text \<open>The defaults of the configuration; durations are in nanoseconds.\<close>

definition DefaultLoopPeriod :: i64 where "DefaultLoopPeriod = 10 * 1000000000"

definition config_defaults :: "Config \<Rightarrow> Config" where
  "config_defaults cfg =
     (let second = 1000000000 :: i64;
          cfg = (if 0 \<ge> sint (DirPathTimeout cfg) then cfg\<lparr>DirPathTimeout := second * 10\<rparr> else cfg);
          cfg = (if 0 \<ge> DirPathMaxCount cfg then cfg\<lparr>DirPathMaxCount := 100\<rparr> else cfg);
          cfg = (if 0 \<ge> sint (NegPathTimeout cfg) then cfg\<lparr>NegPathTimeout := second * 3\<rparr> else cfg);
          cfg = (if 0 \<ge> NegPathMaxCount cfg then cfg\<lparr>NegPathMaxCount := 100\<rparr> else cfg);
          cfg = (if 0 \<ge> sint (LoopPeriod cfg) then cfg\<lparr>LoopPeriod := DefaultLoopPeriod\<rparr> else cfg);
          cfg = (if 0 \<ge> sint (UploadDelay cfg) then cfg\<lparr>UploadDelay := DefaultLoopPeriod\<rparr> else cfg)
      in if 0 \<ge> sint (EvictDelay cfg) then cfg\<lparr>EvictDelay := DefaultLoopPeriod * 3\<rparr> else cfg)"

definition config_zero :: Config where
  "config_zero =
     \<lparr>DirPathTimeout = 0, DirPathMaxCount = 0, NegPathTimeout = 0, NegPathMaxCount = 0, LoopPeriod = 0,
      UploadDelay = 0, EvictDelay = 0\<rparr>"

text \<open>The transaction that checks the version of the database and makes the buckets.\<close>

definition version_buf :: bytes where
  "version_buf = (case putUint64 (replicate 8 CHR 0x00) 0 1 of Some (b, _) \<Rightarrow> b | None \<Rightarrow> [])"

definition init_tx :: "'d bolt \<Rightarrow> error \<Rightarrow> 'd \<Rightarrow> unit res \<times> 'd" where
  "init_tx B badversion d =
     (let metaname = ''m''; vername = ''version''
      in bindr
           (if tx_Bucket B metaname d then (Ok (tx_Get B metaname vername d), d)
            else if \<not> tx_Bucket B idxname d then
              bindr (tx_CreateBucket B metaname d) (\<lambda>_ d.
              bindr (tx_Put B metaname vername version_buf d) (\<lambda>_ d. (Ok (Some version_buf), d)))
            else (Ok None, d))
           (\<lambda>version d.
             if version_buf \<noteq> (case version of None \<Rightarrow> [] | Some v \<Rightarrow> v) then (Err badversion, d)
             else
               bindr (tx_CreateBucketIfNotExists B idxname d) (\<lambda>_ d.
                 tx_CreateBucketIfNotExists B catname d)))"

text \<open>
  The walk over the local files: a file whose name is that of an inode without a node is removed.
  The files are visited in the order of their names.
\<close>

definition walk_file :: "('d, 's) env \<Rightarrow> gostring \<Rightarrow> ('d, 's) cache \<Rightarrow> ('d, 's) cache" where
  "walk_file E p c =
     (case parseIno (c_path c) p of
        None \<Rightarrow> c
      | Some ino \<Rightarrow>
          (if node_GetWithIno (e_bolt E) ino (c_db c) node0 = errno_err ENOENT
           then snd (on_os (os_Remove p) c) else c))"

definition walk_files :: "('d, 's) env \<Rightarrow> ('d, 's) cache \<Rightarrow> ('d, 's) cache" where
  "walk_files E c =
     (case db_Begin (e_bolt E) (c_db c) of
        Some _ \<Rightarrow> c
      | None \<Rightarrow>
          fold (walk_file E)
            (filter (\<lambda>p. pathKeyHasPrefix p (c_path c)) (sorted_list_of_fset (fmdom (os_files (c_os c))))) c)"

text \<open>The queues are filled from the catalogue: a node whose file differs from its hash awaits upload.\<close>

definition seed_node :: "('d, 's) env \<Rightarrow> i64 \<Rightarrow> bytes \<times> bytes \<Rightarrow> ('d, 's) cache \<Rightarrow> ('d, 's) cache" where
  "seed_node E past kv c =
     (case Decode (snd kv) node0 of
        Ok n \<Rightarrow>
          (let (r, c) = on_os (hashFile (e_sha256 E) (filePath (c_path c) (Ino n))) c;
               rw = (case r of Ok hash \<Rightarrow> Hash n \<noteq> hash | _ \<Rightarrow> False)
           in c\<lparr>c_lru := lru_seed past (Ino n) rw (c_lru c)\<rparr>)
      | _ \<Rightarrow> c)"

definition seed_queues :: "('d, 's) env \<Rightarrow> ('d, 's) cache \<Rightarrow> ('d, 's) cache" where
  "seed_queues E c =
     (let (t, c) = time_now c;
          past = UnixNano (t + sint (- UploadDelay (c_config c) - EvictDelay (c_config c)))
      in case db_Begin (e_bolt E) (c_db c) of
           Some _ \<Rightarrow> c
         | None \<Rightarrow> fold (seed_node E past) (tx_pairs (e_bolt E) catname (c_db c)) c)"

definition ListCache :: "('d, 's) env \<Rightarrow> ('d, 's) cache \<Rightarrow> gostring list \<times> ('d, 's) cache" where
  "ListCache E c =
     (case db_Begin (e_bolt E) (c_db c) of
        Some _ \<Rightarrow> ([], c)
      | None \<Rightarrow>
          fold (\<lambda>(k, v) (paths, c).
              case Decode v node0 of
                Ok n \<Rightarrow>
                  (let (r, c) = on_os (hashFile (e_sha256 E) (filePath (c_path c) (Ino n))) c;
                       mark = (case r of Ok hash \<Rightarrow> if Hash n = hash then ''='' else ''+'' | _ \<Rightarrow> ''-'')
                   in (paths @ [mark @ Path n], c))
              | _ \<Rightarrow> (paths, c))
            (tx_pairs (e_bolt E) catname (c_db c)) ([], c))"

text \<open>
  \<^verbatim>\<open>OpenCache\<close>.  The current directory, the opening of the database file and the wrapping of errors are
  arguments; the operating system and the storage are the states the cache starts with.
\<close>

datatype openflag = OpenIfExists | OpenOnly | Activate

definition filepath_Abs :: "gostring res \<Rightarrow> gostring \<Rightarrow> gostring res" where
  "filepath_Abs cwd p =
     (if prefix ''/'' p then Ok (path_Clean p)
      else (case cwd of Ok d \<Rightarrow> Ok (path_Join d p) | Err e \<Rightarrow> Err e | Panic q \<Rightarrow> Panic q))"

definition os_Stat :: "gostring \<Rightarrow> osstate \<Rightarrow> unit res \<times> osstate" where
  "os_Stat p w =
     (case os_fails w of
        Some e \<Rightarrow> (Err e, os_tick w)
      | None \<Rightarrow>
          (if fmlookup (os_files w) p \<noteq> None \<or> p |\<in>| os_dirs w then Ok () else Err (OsErr NotExist), os_tick w))"

definition new_cache ::
  "gostring \<Rightarrow> Config option \<Rightarrow> bool \<Rightarrow> 'd \<Rightarrow> 's \<Rightarrow> osstate \<Rightarrow> ('d, 's) cache" where
  "new_cache path config caseins d s w =
     (let cfg = config_defaults (case config of None \<Rightarrow> config_zero | Some cfg \<Rightarrow> cfg)
      in \<lparr>c_path = path, c_config = cfg, c_isCaseIns = caseins, c_info = None, c_infotime = zero_time,
          c_openmap = fmempty,
          c_dirpres = newPathPresenceCache (DirPathTimeout cfg) (DirPathMaxCount cfg),
          c_negpres = newPathPresenceCache (NegPathTimeout cfg) (NegPathMaxCount cfg),
          c_lru = lru_new, c_done = None, c_db = d, c_st = s, c_os = w\<rparr>)"

definition startCache ::
  "('d, 's) env \<Rightarrow> (error \<Rightarrow> error) \<Rightarrow> openflag \<Rightarrow> ('d, 's) cache \<Rightarrow> (('d, 's) cache res) option" where
  "startCache E wrap flag c =
     (let c = seed_queues E (walk_files E c)
      in if flag = Activate then
           (case resetCache E wrap True c of
              None \<Rightarrow> None
            | Some (Panic q, c) \<Rightarrow> Some (Panic q)
            | Some (_, c) \<Rightarrow> Some (Ok (c\<lparr>c_done := Some False\<rparr>)))
         else Some (Ok c))"

definition OpenCache ::
  "('d, 's) env \<Rightarrow> (error \<Rightarrow> error) \<Rightarrow> error \<Rightarrow> gostring res \<Rightarrow> (gostring \<Rightarrow> osstate \<Rightarrow> 'd res \<times> osstate) \<Rightarrow>
     gostring \<Rightarrow> Config option \<Rightarrow> openflag \<Rightarrow> 's \<Rightarrow> osstate \<Rightarrow> (('d, 's) cache res) option" where
  "OpenCache E wrap badversion cwd bolt_Open path config flag s w =
     (case filepath_Abs cwd path of
        Err e \<Rightarrow> Some (Err (wrap e))
      | Panic q \<Rightarrow> Some (Panic q)
      | Ok path \<Rightarrow>
          (let idxpath = path_Join path ''index'';
               (r, w) = (if flag = OpenIfExists then os_Stat idxpath w else (Ok (), w))
           in case r of
                Err e \<Rightarrow> Some (Err (wrap e))
              | Panic q \<Rightarrow> Some (Panic q)
              | Ok _ \<Rightarrow>
                  (case st_Info (e_storage E) False s of
                     (Err e, s) \<Rightarrow> Some (Err (wrap e))
                   | (Panic q, s) \<Rightarrow> Some (Panic q)
                   | (Ok info, s) \<Rightarrow>
                       (case bindr (os_MkdirAll path w) (\<lambda>_ w. bolt_Open idxpath w) of
                          (Err e, w) \<Rightarrow> Some (Err (wrap e))
                        | (Panic q, w) \<Rightarrow> Some (Panic q)
                        | (Ok d, w) \<Rightarrow>
                            (case db_Update (e_bolt E) (init_tx (e_bolt E) badversion) d of
                               (Err e, d) \<Rightarrow> Some (Err (wrap e))
                             | (Panic q, d) \<Rightarrow> Some (Panic q)
                             | (Ok _, d) \<Rightarrow>
                                 startCache E wrap flag
                                   (new_cache path config (si_IsCaseInsensitive info) d s w))))))"

end
