(* ===== verification/Demo.thy ===== *)
theory Demo
  imports Background
begin

text \<open>
  A concrete instance for the witnesses: the database and the storage in memory, a folding of the
  ASCII letters, a hash that is the first 32 bytes, and an operating system without failures whose clock
  counts the calls.  \<open>demo_cache\<close> has the node 7 of \<^const>\<open>demo_node\<close> in its catalogue and open, with a
  local file, and enters it into the queue of the inodes that may be evicted.
\<close>

definition demo_env :: "(memdb, memstore) env" where
  "demo_env =
     \<lparr>e_bolt = mem_bolt, e_storage = mem_storage, e_golib = demo_golib, e_sha256 = take 32,
      e_SimpleFold = ascii_fold\<rparr>"

definition demo_os :: osstate where
  "demo_os =
     \<lparr>os_files = fmupd (filePath ''/c'' 7) 0 fmempty, os_dirs = {|''/'', ''/c''|},
      os_data = (\<lambda>_. \<lparr>fd_bytes = ''old'', fd_mtime = 0\<rparr>), os_next = 1, os_fault = (\<lambda>_. None),
      os_clock = (\<lambda>n. int n), os_calls = 0\<rparr>"

definition demo_db :: memdb where
  "demo_db = snd (node_Put mem_bolt demo_node ''/a/b'' memdb0)"

definition demo_cache :: "(memdb, memstore) cache" where
  "demo_cache =
     (new_cache ''/c'' None False demo_db memstore0 demo_os)
       \<lparr>c_openmap := fmupd 7 (demo_node\<lparr>File := Some 0, refcnt := 1\<rparr>) fmempty,
        c_lru := touchIno 5 7 False lru_new\<rparr>"

lemma demo_db_store:
  "cat mem_bolt demo_db = [''/a/b'' \<mapsto> persist demo_node node0]" "idx mem_bolt demo_db = [7 \<mapsto> ''/a/b'']"
proof -
  obtain d where put: "node_Put mem_bolt demo_node ''/a/b'' memdb0 = (Ok (), d)"
    using mem_Put[of demo_node "''/a/b''" memdb0] demo_node_encodable by (auto simp: encodable_def)
  note spec = node_Put_spec[OF mem_bolt_ok demo_node_encodable put]
  have "cat mem_bolt memdb0 = Map.empty" "idx mem_bolt memdb0 = Map.empty"
    by (auto simp: cat_def idx_def node_Get_def mem_bolt_def memdb0_def)
  then show "cat mem_bolt demo_db = [''/a/b'' \<mapsto> persist demo_node node0]" "idx mem_bolt demo_db = [7 \<mapsto> ''/a/b'']"
    using spec(1,2) put by (simp_all add: demo_db_def demo_node_def)
qed

lemma mem_begin [simp]: "db_Begin mem_bolt d = None"
  by (simp add: mem_bolt_def)

lemma demo_cache_simps [simp]:
  "c_openmap demo_cache = fmupd 7 (demo_node\<lparr>File := Some 0, refcnt := 1\<rparr>) fmempty"
  "c_lru demo_cache = touchIno 5 7 False lru_new" "c_db demo_cache = demo_db" "c_os demo_cache = demo_os"
  "c_isCaseIns demo_cache = False" "c_path demo_cache = ''/c''" "c_st demo_cache = memstore0"
  by (simp_all add: demo_cache_def new_cache_def Let_def)

lemma demo_env_simps [simp]:
  "e_bolt demo_env = mem_bolt" "e_storage demo_env = mem_storage" "e_golib demo_env = demo_golib"
  "e_sha256 demo_env b = take 32 b"
  by (simp_all add: demo_env_def)

text \<open>Reading a stored node under the lock of its path: the second reading ends the loop.\<close>

lemma getLocked_stored:
  assumes "db_Begin (e_bolt E) (c_db c) = None" "idx (e_bolt E) (c_db c) ino = Some k"
    "cat (e_bolt E) (c_db c) k = Some n"
  shows "getLockedNodeWithIno E ino c = Ok (n, pathKey E c (Path n))"
proof -
  have v: "View E (\<lambda>d. node_GetWithIno (e_bolt E) ino d node0) c = Ok n"
    using assms by (simp add: View_def db_View_def node_GetWithIno_idx)
  then have "getLocked_loop E ino (pathKey E c (Path n)) c = Ok (n, pathKey E c (Path n))"
    by (simp add: getLocked_loop.simps)
  with v show ?thesis
    by (simp add: getLockedNodeWithIno_def getLocked_loop.simps[of E ino "[]"] Let_def)
qed

end
