(* ===== verification/Pending.thy ===== *)
theory Pending
  imports Demo
begin

text \<open>
  The inodes that await upload, across the operations of the cache.

  The operations of a client change the queues only through \<^verbatim>\<open>touchIno\<close>; \<open>touched\<close> is that relation, and
  it is shown of each operation.  \<open>clientop\<close> collects the operations and \<open>client_step\<close> runs one.
\<close>

definition touch_op :: "i64 \<times> u64 \<times> bool \<Rightarrow> lru \<Rightarrow> lru" where
  "touch_op t l = (case t of (now, ino, rw) \<Rightarrow> touchIno now ino rw l)"

definition touched :: "lru \<Rightarrow> lru \<Rightarrow> bool" where
  "touched l l' \<longleftrightarrow> (\<exists>ts. l' = fold touch_op ts l)"

definition pending :: "('d, 's) cache \<Rightarrow> u64 set" where
  "pending c = queued True (c_lru c)"

datatype clientop =
    OpOpen gostring
  | OpMake u64 bool
  | OpRemove u64 bool
  | OpRename u64 gostring
  | OpStat u64
  | OpChtime u64 gotime
  | OpReaddir u64 int
  | OpReadAt u64 nat i64
  | OpWriteAt u64 bytes i64
  | OpTruncate u64 i64
  | OpSync u64
  | OpClose u64
  | OpStatfs

fun client_step :: "('d, 's) env \<Rightarrow> clientop \<Rightarrow> ('d, 's) cache \<Rightarrow> ('d, 's) cache option" where
  "client_step E (OpOpen p) c = Some (snd (Open E p c))"
| "client_step E (OpMake i d) c = Some (snd (Make E i d c))"
| "client_step E (OpRemove i d) c = Some (snd (Remove E i d c))"
| "client_step E (OpRename i p) c = Some (snd (Rename E i p c))"
| "client_step E (OpStat i) c = Some (snd (Stat E i c))"
| "client_step E (OpChtime i t) c = Some (snd (Chtime i t c))"
| "client_step E (OpReaddir i n) c = map_option snd (Readdir E i n c)"
| "client_step E (OpReadAt i n off) c = Some (snd (ReadAt E i n off c))"
| "client_step E (OpWriteAt i b off) c = Some (snd (WriteAt E i b off c))"
| "client_step E (OpTruncate i n) c = Some (snd (Truncate E i n c))"
| "client_step E (OpSync i) c = Some (snd (Sync E i c))"
| "client_step E (OpClose i) c = Some (snd (Close E i c))"
| "client_step E OpStatfs c = Some (snd (Statfs E c))"

subsection \<open>The queues are only touched\<close>

named_theorems keeps \<open>rules that a step at most touches the queues\<close>

lemma touched_refl [simp]: "touched l l"
  unfolding touched_def by (rule exI[of _ "[]"]) simp

lemma touched_trans: "touched l l' \<Longrightarrow> touched l' l'' \<Longrightarrow> touched l l''"
  unfolding touched_def by (metis fold_append comp_apply)

lemma touched_touchIno: "touched l (touchIno now ino rw l)"
  unfolding touched_def by (rule exI[of _ "[(now, ino, rw)]"]) (simp add: touch_op_def)

lemma touch_op_simp [simp]: "touch_op (now, ino, rw) l = touchIno now ino rw l"
  by (simp add: touch_op_def)

lemma bindr_keeps [keeps]:
  assumes "touched l (c_lru (snd m))"
    and "\<And>a c. m = (Ok a, c) \<Longrightarrow> touched l (c_lru c) \<Longrightarrow> touched l (c_lru (snd (f a c)))"
  shows "touched l (c_lru (snd (bindr m f)))"
  using assms by (cases m; cases "fst m") (auto simp: bindr_def)

lemma on_keeps [keeps]:
  "touched l (c_lru c) \<Longrightarrow> touched l (c_lru (snd (on_db f c)))"
  "touched l (c_lru c) \<Longrightarrow> touched l (c_lru (snd (on_st g c)))"
  "touched l (c_lru c) \<Longrightarrow> touched l (c_lru (snd (on_os h c)))"
  "touched l (c_lru c) \<Longrightarrow> touched l (c_lru (snd (Update E u c)))"
  by (simp_all add: cache_frame Update_def)

lemma time_now_frame [simp]: "c_lru (snd (time_now c)) = c_lru c"
  by (simp add: time_now_def cache_frame)

lemma pres_keeps [simp]:
  "c_lru (snd (neg_has k c)) = c_lru c" "c_lru (neg_add k c) = c_lru c" "c_lru (neg_remove k c) = c_lru c"
  "c_lru (neg_removeAll k c) = c_lru c" "c_lru (snd (dir_has k c)) = c_lru c" "c_lru (dir_add k c) = c_lru c"
  by (simp_all add: neg_has_def neg_add_def neg_remove_def neg_removeAll_def dir_has_def dir_add_def
      case_prod_beta Let_def)

lemma upd_node_lru [simp]: "c_lru (upd_node h f c) = c_lru c"
  by (simp add: upd_node_def split: option.split)

lemma close_writer_lru [simp]: "c_lru (close_writer S w c) = c_lru c"
  by (simp add: close_writer_def split: option.split)

lemma touch_keeps [keeps]: "touched l (c_lru c) \<Longrightarrow> touched l (c_lru (touch ino rw c))"
  using touched_trans[OF _ touched_touchIno] by (simp add: touch_def case_prod_beta Let_def)

lemma snd_eqD: "p = (a, c) \<Longrightarrow> c = snd p"
  by simp

text \<open>A case distinction on a result keeps the queues if each case does.\<close>

lemma with_open_keeps [keeps]:
  assumes "touched l (c_lru c)" "touched l (c_lru (snd (op c)))"
  shows "touched l (c_lru (snd (with_open ino op c)))"
  using assms by (simp add: with_open_def split: option.split)

lemmas keep_splits = res.split option.split bool.split

lemma openNode_keeps [keeps]: "touched l (c_lru c) \<Longrightarrow> touched l (c_lru (snd (openNode E p c)))"
  by (auto simp: openNode_def Let_def intro!: keeps split: keep_splits)

lemma Open_keeps: "touched (c_lru c) (c_lru (snd (Open E p c)))"
  by (auto simp: Open_def Let_def intro!: keeps split: keep_splits)

lemma statNodeNoLock_keeps [keeps]:
  "touched l (c_lru c) \<Longrightarrow> touched l (c_lru (snd (statNodeNoLock E h k c)))"
  by (auto simp: statNodeNoLock_def case_prod_beta Let_def intro!: keeps split: keep_splits)

lemma Stat_keeps: "touched (c_lru c) (c_lru (snd (Stat E i c)))"
  by (auto simp: Stat_def statNode_def Let_def intro!: keeps split: keep_splits)

lemma Make_keeps: "touched (c_lru c) (c_lru (snd (Make E i d c)))"
  by (auto simp: Make_def makeNode_def case_prod_beta Let_def intro!: keeps split: keep_splits)

lemma Remove_keeps: "touched (c_lru c) (c_lru (snd (Remove E i d c)))"
  by (auto simp: Remove_def removeNode_def case_prod_beta Let_def intro!: keeps split: keep_splits)

lemma Rename_keeps: "touched (c_lru c) (c_lru (snd (Rename E i p c)))"
  by (auto simp: Rename_def renameNode_def case_prod_beta Let_def intro!: keeps split: keep_splits)

lemma Close_keeps: "touched (c_lru c) (c_lru (snd (Close E i c)))"
  by (auto simp: Close_def closeNode_def closeAndUpdateNode_def Dereference_def case_prod_beta Let_def
      intro!: keeps split: keep_splits)

lemma Statfs_keeps: "touched (c_lru c) (c_lru (snd (Statfs E c)))"
  by (auto simp: Statfs_def refreshInfo_def case_prod_beta Let_def intro!: keeps split: keep_splits)

lemma fetch_object_keeps [keeps]:
  "touched l (c_lru c) \<Longrightarrow> touched l (c_lru (snd (fetch_object E p sig sz f c)))"
  by (auto simp: fetch_object_def case_prod_beta Let_def intro!: keeps split: keep_splits)

lemma readNodeFromStorage_keeps [keeps]:
  "touched l (c_lru c) \<Longrightarrow> touched l (c_lru (snd (readNodeFromStorage E n sz c)))"
  by (auto simp: readNodeFromStorage_def case_prod_beta Let_def intro!: keeps split: keep_splits)

lemma ensureFile_keeps [keeps]: "touched l (c_lru c) \<Longrightarrow> touched l (c_lru (snd (ensureFile E h sz c)))"
  by (auto simp: ensureFile_def case_prod_beta Let_def intro!: keeps split: keep_splits)

lemma performFileIo_keeps [keeps]:
  assumes "touched l (c_lru c)"
    and "\<And>f c. touched l (c_lru c) \<Longrightarrow> touched l (c_lru (snd (fn f c)))"
  shows "touched l (c_lru (snd (performFileIoOnNode E h ens sz fn dflt c)))"
  using assms
  by (auto simp: performFileIoOnNode_def case_prod_beta Let_def intro!: keeps split: keep_splits)

lemma io_keeps:
  "touched (c_lru c) (c_lru (snd (ReadAt E i n off c)))"
  "touched (c_lru c) (c_lru (snd (WriteAt E i b off c)))"
  "touched (c_lru c) (c_lru (snd (Truncate E i sz c)))"
  "touched (c_lru c) (c_lru (snd (Sync E i c)))"
  unfolding ReadAt_def WriteAt_def Truncate_def Sync_def
  by (auto simp: case_prod_beta Let_def intro!: keeps split: keep_splits)

lemma fold_touch_keeps: "touched l (c_lru c) \<Longrightarrow> touched l (c_lru (fold (\<lambda>ino. touch ino False) inos c))"
  by (induction inos arbitrary: c) (auto intro: keeps)

lemma Readdir_keeps:
  assumes "Readdir E i n c = Some (r, c')"
  shows "touched (c_lru c) (c_lru c')"
proof -
  have "touched (c_lru c) (c_lru (snd rc))" if "readdirNode E i n c = Some rc" for rc
    using that
    by (auto simp: readdirNode_def case_prod_beta Let_def split: if_splits bool.splits option.splits
        intro!: keeps fold_touch_keeps)
  then show ?thesis
    using assms by (force simp: Readdir_def split: option.splits)
qed

lemma Chtime_keeps: "touched (c_lru c) (c_lru (snd (Chtime i t c)))"
  by (auto simp: Chtime_def chtimeNode_def intro!: keeps)

lemma client_step_touches:
  "client_step E op c = Some c' \<Longrightarrow> touched (c_lru c) (c_lru c')"
  by (cases op)
    (auto simp: Open_keeps Stat_keeps Make_keeps Remove_keeps Rename_keeps Chtime_keeps
      Close_keeps Statfs_keeps io_keeps dest: Readdir_keeps)

lemma touched_pending:
  assumes "lru_inv l" "touched l l'"
  shows "lru_inv l'" "queued True l \<subseteq> queued True l'"
proof -
  have "lru_inv (fold touch_op ts l) \<and> queued True l \<subseteq> queued True (fold touch_op ts l)" for ts
  proof (induction ts rule: rev_induct)
    case (snoc t ts)
    then show ?case
      using queues.inv_touch[of "fold touch_op ts l"] queues.pending_touch[of "fold touch_op ts l"]
      by (cases t) auto
  qed (simp add: assms(1))
  with assms(2) show "lru_inv l'" "queued True l \<subseteq> queued True l'"
    by (auto simp: touched_def)
qed

lemma touch_pending:
  assumes "lru_inv (c_lru c)"
  shows "pending (touch ino rw c) = (if rw then insert ino (pending c) else pending c)"
    and "lru_inv (c_lru (touch ino rw c))"
  using queues.pending_touch[OF assms] queues.inv_touch[OF assms]
  by (simp_all add: touch_def pending_def case_prod_beta Let_def)

subsection \<open>The open map\<close>

text \<open>
  Every entry of the open map is a node with the number it is entered under, with at least one
  reference.
\<close>

definition open_inv :: "(u64, node) fmap \<Rightarrow> bool" where
  "open_inv m \<longleftrightarrow> (\<forall>h n. fmlookup m h = Some n \<longrightarrow> Ino n = h \<and> 0 < refcnt n)"

named_theorems opens \<open>rules that a step keeps the invariant of the open map\<close>

lemma bindr_opens [opens]:
  assumes "open_inv (c_openmap (snd m))"
    and "\<And>a c. m = (Ok a, c) \<Longrightarrow> open_inv (c_openmap c) \<Longrightarrow> open_inv (c_openmap (snd (f a c)))"
  shows "open_inv (c_openmap (snd (bindr m f)))"
  using assms by (cases m; cases "fst m") (auto simp: bindr_def)

lemma on_opens [opens]:
  "open_inv (c_openmap c) \<Longrightarrow> open_inv (c_openmap (snd (on_db f c)))"
  "open_inv (c_openmap c) \<Longrightarrow> open_inv (c_openmap (snd (on_st g c)))"
  "open_inv (c_openmap c) \<Longrightarrow> open_inv (c_openmap (snd (on_os h c)))"
  "open_inv (c_openmap c) \<Longrightarrow> open_inv (c_openmap (snd (Update E u c)))"
  by (simp_all add: cache_frame Update_def)

lemma open_frame [simp]:
  "c_openmap (snd (time_now c)) = c_openmap c"
  "c_openmap (snd (neg_has k c)) = c_openmap c" "c_openmap (neg_add k c) = c_openmap c"
  "c_openmap (neg_remove k c) = c_openmap c" "c_openmap (neg_removeAll k c) = c_openmap c"
  "c_openmap (snd (dir_has k c)) = c_openmap c" "c_openmap (dir_add k c) = c_openmap c"
  "c_openmap (close_writer S w c) = c_openmap c" "c_openmap (touch ino rw c) = c_openmap c"
  by (simp_all add: neg_has_def neg_add_def neg_remove_def neg_removeAll_def dir_has_def dir_add_def
      close_writer_def touch_def time_now_def on_os_def case_prod_beta Let_def split: option.split)

lemma upd_node_opens [opens]:
  assumes "open_inv (c_openmap c)" "\<And>n. Ino (f n) = Ino n" "\<And>n. 0 < refcnt n \<Longrightarrow> 0 < refcnt (f n)"
  shows "open_inv (c_openmap (upd_node h f c))"
  using assms by (auto simp: open_inv_def upd_node_def split: option.split)

lemma CopyStat_keeps [simp]: "Ino (CopyStat i n) = Ino n" "refcnt (CopyStat i n) = refcnt n"
  by (simp_all add: CopyStat_def)

lemma with_open_opens [opens]:
  assumes "open_inv (c_openmap c)" "open_inv (c_openmap (snd (op c)))"
  shows "open_inv (c_openmap (snd (with_open ino op c)))"
  using assms by (simp add: with_open_def split: option.split)

lemma openNode_opens [opens]: "open_inv (c_openmap c) \<Longrightarrow> open_inv (c_openmap (snd (openNode E p c)))"
  by (auto simp: openNode_def Let_def intro!: opens split: keep_splits)

lemma statNodeNoLock_opens [opens]:
  "open_inv (c_openmap c) \<Longrightarrow> open_inv (c_openmap (snd (statNodeNoLock E h k c)))"
  by (auto simp: statNodeNoLock_def case_prod_beta Let_def intro!: opens split: keep_splits)

lemma Stat_opens: "open_inv (c_openmap c) \<Longrightarrow> open_inv (c_openmap (snd (Stat E i c)))"
  by (auto simp: Stat_def statNode_def Let_def intro!: opens split: keep_splits)

lemma Make_opens: "open_inv (c_openmap c) \<Longrightarrow> open_inv (c_openmap (snd (Make E i d c)))"
  by (auto simp: Make_def makeNode_def case_prod_beta Let_def intro!: opens split: keep_splits)

lemma Remove_opens: "open_inv (c_openmap c) \<Longrightarrow> open_inv (c_openmap (snd (Remove E i d c)))"
  by (auto simp: Remove_def removeNode_def case_prod_beta Let_def intro!: opens split: keep_splits)

lemma rename_open_opens [opens]: "open_inv m \<Longrightarrow> open_inv (snd (rename_open p q inos m))"
proof (induction inos arbitrary: m)
  case (Cons ino inos)
  have upd: "open_inv (fmupd ino (n\<lparr>Path := r\<rparr>) m)" if "fmlookup m ino = Some n" for n r
    using Cons.prems that by (simp add: open_inv_def)
  show ?case
    using Cons.prems by (auto split: option.split intro: Cons.IH Cons.IH[OF upd])
qed simp

lemma Rename_opens: "open_inv (c_openmap c) \<Longrightarrow> open_inv (c_openmap (snd (Rename E i p c)))"
  by (auto simp: Rename_def renameNode_def case_prod_beta Let_def intro!: opens split: keep_splits)

lemma Statfs_opens: "open_inv (c_openmap c) \<Longrightarrow> open_inv (c_openmap (snd (Statfs E c)))"
  by (auto simp: Statfs_def refreshInfo_def case_prod_beta Let_def intro!: opens split: keep_splits)

lemma fetch_object_opens [opens]:
  "open_inv (c_openmap c) \<Longrightarrow> open_inv (c_openmap (snd (fetch_object E p sig sz f c)))"
  by (auto simp: fetch_object_def case_prod_beta Let_def intro!: opens split: keep_splits)

lemma readNodeFromStorage_opens [opens]:
  "open_inv (c_openmap c) \<Longrightarrow> open_inv (c_openmap (snd (readNodeFromStorage E n sz c)))"
  by (auto simp: readNodeFromStorage_def case_prod_beta Let_def intro!: opens split: keep_splits)

lemma ensureFile_opens [opens]:
  "open_inv (c_openmap c) \<Longrightarrow> open_inv (c_openmap (snd (ensureFile E h sz c)))"
  by (auto simp: ensureFile_def case_prod_beta Let_def intro!: opens split: keep_splits)

lemma performFileIo_opens [opens]:
  assumes "open_inv (c_openmap c)"
    and "\<And>f c. open_inv (c_openmap c) \<Longrightarrow> open_inv (c_openmap (snd (fn f c)))"
  shows "open_inv (c_openmap (snd (performFileIoOnNode E h ens sz fn dflt c)))"
  using assms
  by (auto simp: performFileIoOnNode_def case_prod_beta Let_def intro!: opens split: keep_splits)

lemma io_opens:
  assumes "open_inv (c_openmap c)"
  shows "open_inv (c_openmap (snd (ReadAt E i n off c)))" "open_inv (c_openmap (snd (WriteAt E i b off c)))"
    "open_inv (c_openmap (snd (Truncate E i sz c)))" "open_inv (c_openmap (snd (Sync E i c)))"
  unfolding ReadAt_def WriteAt_def Truncate_def Sync_def using assms
  by (auto simp: case_prod_beta Let_def intro!: opens split: keep_splits)

lemma fold_touch_open [simp]: "c_openmap (fold (\<lambda>ino. touch ino False) inos c) = c_openmap c"
  by (induction inos arbitrary: c) auto

lemma Readdir_opens:
  assumes "Readdir E i n c = Some (r, c')" "open_inv (c_openmap c)"
  shows "open_inv (c_openmap c')"
proof -
  have "open_inv (c_openmap (snd rc))" if "readdirNode E i n c = Some rc" for rc
    using that assms(2)
    by (auto simp: readdirNode_def case_prod_beta Let_def split: if_splits bool.splits option.splits
        intro!: opens)
  then show ?thesis
    using assms by (force simp: Readdir_def split: option.splits)
qed

lemma node_Get_transient: "node_Get B k d node0 = Ok n \<Longrightarrow> refcnt n = 0 \<and> File n = None \<and> \<not> Deleted n"
  by (auto simp: node_Get_def Decode_def Decode_slice_def decode_fields_def bind_eq_Some_conv node0_def
      split: option.splits res.splits)

lemma openNode_fresh: "openNode E p c = (Ok n, c') \<Longrightarrow> refcnt n = 0"
  using node_Get_transient[of "e_bolt E" "pathKey E c p" "c_db c" n]
  by (auto simp: openNode_def View_def db_View_def Update_def on_db_def db_Update_def NextIno_def node0_def
      bindr_def case_prod_beta Let_def split: if_splits res.splits option.splits prod.splits)

lemma Open_opens:
  assumes "open_inv (c_openmap c)"
  shows "open_inv (c_openmap (snd (Open E p c)))"
proof (cases "openNode E p c")
  case (Pair r c1)
  have c1: "open_inv (c_openmap c1)"
    using openNode_opens[OF assms, of E p] Pair by simp
  show ?thesis
  proof (cases r)
    case (Ok n)
    then have "refcnt n = 0"
      using openNode_fresh Pair by blast
    with c1 Pair Ok show ?thesis
      by (auto simp: Open_def open_inv_def upd_node_def Reference_def Let_def intro: less_imp_le
          split: option.splits if_splits)
  qed (use c1 Pair in \<open>simp_all add: Open_def\<close>)
qed

lemma open_inv_drop [opens]: "open_inv m \<Longrightarrow> open_inv (fmdrop h m)"
  by (simp add: open_inv_def)

lemma Close_opens: "open_inv (c_openmap c) \<Longrightarrow> open_inv (c_openmap (snd (Close E i c)))"
proof -
  assume c: "open_inv (c_openmap c)"
  have closeNode: "open_inv (c_openmap c1) \<Longrightarrow> open_inv (c_openmap (snd (closeNode E n c1)))" for n c1
    by (auto simp: closeNode_def closeAndUpdateNode_def case_prod_beta Let_def intro!: opens split: keep_splits)
  have "open_inv (fmupd i (n\<lparr>refcnt := refcnt n - 1\<rparr>) (c_openmap c))"
    if "fmlookup (c_openmap c) i = Some n" "refcnt n \<noteq> 1" for n
    using c that by (fastforce simp: open_inv_def)
  with c show ?thesis
    by (auto simp: Close_def Dereference_def case_prod_beta Let_def intro!: closeNode opens split: keep_splits)
qed

lemma client_step_open:
  "client_step E op c = Some c' \<Longrightarrow> open_inv (c_openmap c) \<Longrightarrow> open_inv (c_openmap c')"
  by (cases op)
    (auto simp: Open_opens Stat_opens Make_opens Remove_opens Rename_opens Close_opens Statfs_opens io_opens
      Chtime_def chtimeNode_def intro!: with_open_opens dest: Readdir_opens)

subsection \<open>A write makes its inode pending\<close>

named_theorems same_open \<open>rules that a step leaves the open map as it is\<close>

lemma bindr_same_open [same_open]:
  assumes "c_openmap (snd m) = om" "\<And>a c. m = (Ok a, c) \<Longrightarrow> c_openmap c = om \<Longrightarrow> c_openmap (snd (f a c)) = om"
  shows "c_openmap (snd (bindr m f)) = om"
  using assms by (cases m; cases "fst m") (auto simp: bindr_def)

lemma on_same_open [simp]:
  "c_openmap (snd (on_db f c)) = c_openmap c" "c_openmap (snd (on_st g c)) = c_openmap c"
  "c_openmap (snd (on_os h c)) = c_openmap c" "c_openmap (snd (Update E u c)) = c_openmap c"
  by (simp_all add: cache_frame Update_def)

lemma fetch_object_open [simp]: "c_openmap (snd (fetch_object E p sig sz f c)) = c_openmap c"
  by (auto simp: fetch_object_def case_prod_beta Let_def intro!: same_open split: keep_splits)

lemma readNodeFromStorage_open [simp]: "c_openmap (snd (readNodeFromStorage E n sz c)) = c_openmap c"
  by (auto simp: readNodeFromStorage_def case_prod_beta Let_def intro!: same_open split: keep_splits)

lemma Ok_same_open:
  "readNodeFromStorage E n sz c = (Ok x, c') \<Longrightarrow> c_openmap c' = c_openmap c"
  "Update E u c = (r, c') \<Longrightarrow> c_openmap c' = c_openmap c"
  "on_os h c = (y, c') \<Longrightarrow> c_openmap c' = c_openmap c"
  using readNodeFromStorage_open[of E n sz c] on_same_open(3)[of h c] on_same_open(4)[of E u c] by auto

lemma node_at_upd: "fmlookup (c_openmap c) h = Some n \<Longrightarrow> node_at (upd_node h f c) h = f n"
  by (simp add: node_at_def upd_node_def)

lemma ensureFile_file:
  assumes "ensureFile E h sz c = (Ok (), c')" "fmlookup (c_openmap c) h = Some n"
  shows "\<exists>file. File (node_at c' h) = Some file"
  using assms
  by (auto simp: ensureFile_def Let_def node_at_upd upd_node_def node_at_def neg_remove_def
      elim!: bindr_OkE dest!: Ok_same_open split: if_splits option.splits prod.splits)

text \<open>The file on which an operation works is the one its node has in the end.\<close>

lemma performFileIo_OkE:
  assumes "with_open ino (performFileIoOnNode E ino True sz fn dflt) c = (Ok r, c')"
  obtains fl c1 where "fn fl c1 = (r, c')" "File (node_at c1 ino) = Some fl"
    "touched (c_lru c) (c_lru c1)" "open_inv (c_openmap c) \<Longrightarrow> open_inv (c_openmap c1)"
proof -
  obtain n where n: "fmlookup (c_openmap c) ino = Some n"
    using assms by (auto simp: with_open_def split: option.splits)
  let ?m = "if None = File (node_at c ino) then ensureFile E ino sz c else (Ok (), c)"
  obtain c1 where c1: "?m = (Ok (), c1)"
    "(case File (node_at c1 ino) of None \<Rightarrow> (Ok (dflt, None), c1)
      | Some file \<Rightarrow> (let (r, c) = fn file c1 in (Ok r, c))) = (Ok r, c')"
    using assms n by (auto simp: with_open_def performFileIoOnNode_def elim!: bindr_OkE)
  obtain fl where fl: "File (node_at c1 ino) = Some fl"
    using c1(1) ensureFile_file[of E ino sz c c1 n] n by (cases "File (node_at c ino)") auto
  have "touched (c_lru c) (c_lru (snd ?m))"
    by (auto intro!: keeps)
  moreover have "open_inv (c_openmap c) \<Longrightarrow> open_inv (c_openmap (snd ?m))"
    by (auto intro!: opens)
  moreover have "fn fl c1 = (r, c')"
    using c1(2) fl by (auto simp: case_prod_beta Let_def)
  ultimately show ?thesis
    using that[of fl c1] c1(1) fl by simp
qed

lemma open_inv_ino: "open_inv (c_openmap c) \<Longrightarrow> File (node_at c h) = Some f \<Longrightarrow> Ino (node_at c h) = h"
  by (auto simp: open_inv_def node_at_def node0_def split: option.splits)

lemma WriteAt_pending:
  assumes "lru_inv (c_lru c)" "open_inv (c_openmap c)" "WriteAt E ino b off c = (Ok (n, None), c')"
  shows "ino \<in> pending c'"
proof -
  obtain fl c1 where c1: "(let ((n, err), c) = on_os (file_WriteAt fl b off) c1
        in ((n, err), if None = err then touch (Ino (node_at c ino)) True c else c)) = ((n, None), c')"
    "File (node_at c1 ino) = Some fl" "touched (c_lru c) (c_lru c1)" "open_inv (c_openmap c1)"
    using assms(2,3) unfolding WriteAt_def by (elim performFileIo_OkE) blast
  obtain c2 where c2: "on_os (file_WriteAt fl b off) c1 = ((n, None), c2)"
    "c' = touch (Ino (node_at c2 ino)) True c2"
    using c1(1) by (cases "on_os (file_WriteAt fl b off) c1") (auto simp: case_prod_beta Let_def split: if_splits)
  have "node_at c2 ino = node_at c1 ino" "c_lru c2 = c_lru c1"
    using Ok_same_open(3)[OF c2(1)] on_frame(9)[of "file_WriteAt fl b off" c1] c2(1)
    by (simp_all add: node_at_def)
  then show ?thesis
    using touch_pending(1)[of c2 _ True] touched_pending(1)[OF assms(1) c1(3)] c2(2) open_inv_ino[OF c1(4,2)] by simp
qed

lemma Truncate_pending:
  assumes "lru_inv (c_lru c)" "open_inv (c_openmap c)" "Truncate E ino sz c = (Ok ((), None), c')"
  shows "ino \<in> pending c'"
proof -
  obtain fl c1 where c1: "(case on_os (file_Truncate fl sz) c1 of
         (Ok _, c) \<Rightarrow> (((), None), touch (Ino (node_at c ino)) True c)
       | (Err e, c) \<Rightarrow> (((), Some e), c)
       | (Panic q, c) \<Rightarrow> (((), None), c)) = (((), None), c')"
    "File (node_at c1 ino) = Some fl" "touched (c_lru c) (c_lru c1)" "open_inv (c_openmap c1)"
    using assms(2,3) unfolding Truncate_def by (elim performFileIo_OkE) blast
  have "fst (on_os (file_Truncate fl sz) c1) \<noteq> Panic q" for q
    by (auto simp: on_os_def file_Truncate_def case_prod_beta Let_def split: option.splits)
  then obtain c2 where c2: "on_os (file_Truncate fl sz) c1 = (Ok (), c2)"
    "c' = touch (Ino (node_at c2 ino)) True c2"
    using c1(1) by (auto split: prod.splits res.splits)
  have "node_at c2 ino = node_at c1 ino" "c_lru c2 = c_lru c1"
    using Ok_same_open(3)[OF c2(1)] on_frame(9)[of "file_Truncate fl sz" c1] c2(1)
    by (simp_all add: node_at_def)
  then show ?thesis
    using touch_pending(1)[of c2 _ True] touched_pending(1)[OF assms(1) c1(3)] c2(2) open_inv_ino[OF c1(4,2)] by simp
qed

end
