(* ===== verification/UploadFile.thy ===== *)
theory UploadFile
  imports Pending
begin

text \<open>
  The transfer of a local file to the storage, taken apart: what the copy loop reads and writes, and what
  holds of the storage when \<^verbatim>\<open>uploadOne\<close> has come to its end without an error.
\<close>

subsection \<open>Taking a step apart\<close>

lemma on_osE:
  assumes "on_os f c = (r, c')"
  obtains w where "f (c_os c) = (r, w)" "c' = c\<lparr>c_os := w\<rparr>"
  using assms by (cases "f (c_os c)") (auto simp: on_os_def)

lemma on_stE:
  assumes "on_st f c = (r, c')"
  obtains s where "f (c_st c) = (r, s)" "c' = c\<lparr>c_st := s\<rparr>"
  using assms by (cases "f (c_st c)") (auto simp: on_st_def)

lemma UpdateE:
  assumes "Update E f c = (r, c')"
  obtains d where "db_Update (e_bolt E) f (c_db c) = (r, d)" "c' = c\<lparr>c_db := d\<rparr>"
  using assms by (cases "db_Update (e_bolt E) f (c_db c)") (auto simp: Update_def on_db_def)

lemma os_tick_fields [simp]:
  "os_data (os_tick w) = os_data w" "os_files (os_tick w) = os_files w" "os_fault (os_tick w) = os_fault w"
  by (simp_all add: os_tick_def)

lemma file_Stat_OkE:
  assumes "file_Stat f w = (Ok i, w')"
  shows "w' = os_tick w" "fi_Size i = of_nat (length (fd_bytes (os_data w f)))"
    "nat (sint (fi_Size i)) = length (fd_bytes (os_data w f))"
proof -
  show "w' = os_tick w" "fi_Size i = of_nat (length (fd_bytes (os_data w f)))"
    using assms by (auto simp: file_Stat_def Let_def split: option.splits if_splits)
  moreover have "length (fd_bytes (os_data w f)) < 2 ^ 63"
    using assms by (auto simp: file_Stat_def Let_def split: option.splits if_splits)
  ultimately show "nat (sint (fi_Size i)) = length (fd_bytes (os_data w f))"
    by (simp add: signed_of_nat signed_take_bit_int_eq_self)
qed

lemma openFile_OkE:
  assumes "openFile p w = (Ok f, w')"
  shows "w' = os_tick w" "fmlookup (os_files w) p = Some f"
  using assms by (auto simp: openFile_def split: option.splits)

lemma file_Read_data: "os_data (snd (file_Read f len pos w)) = os_data w"
  by (auto simp: file_Read_def Let_def split: option.split)

lemma file_Read_OkE:
  assumes "file_Read f len pos w = (Ok got, w')"
  shows "got = take len (drop pos (fd_bytes (os_data w f)))"
  using assms by (auto simp: file_Read_def Let_def split: option.splits if_splits)

lemma upd_node_frame [simp]:
  "c_st (upd_node h f c) = c_st c" "c_db (upd_node h f c) = c_db c" "c_os (upd_node h f c) = c_os c"
  by (simp_all add: upd_node_def split: option.split)

lemma touch_frame [simp]: "c_st (touch ino rw c) = c_st c" "c_db (touch ino rw c) = c_db c"
  by (simp_all add: touch_def time_now_def cache_frame case_prod_beta Let_def)

subsection \<open>The copy loop\<close>

text \<open>The loop changes the storage and the state of the operating system, but no data of a file.\<close>

lemma copy_upload_frame:
  "\<exists>s v. snd (copy_upload S w f n acc c) = c\<lparr>c_st := s, c_os := v\<rparr> \<and> os_data v = os_data (c_os c)"
proof (induction S w f n acc c rule: copy_upload.induct)
  case (1 S w f n acc c)
  show ?case
  proof (cases "n = 0")
    case True
    then show ?thesis
      by (intro exI[of _ "c_st c"] exI[of _ "c_os c"]) (simp add: copy_upload.simps)
  next
    case False
    obtain r v where r: "file_Read f (min 32768 n) (length acc) (c_os c) = (r, v)" by fastforce
    have v: "os_data v = os_data (c_os c)"
      using file_Read_data[of f "min 32768 n" "length acc" "c_os c"] r by simp
    show ?thesis
    proof (cases r)
      case (Ok got)
      obtain q s where q: "wr_Write S w got (c_st c) = (q, s)" by fastforce
      have o: "on_os (file_Read f (min 32768 n) (length acc)) c = (r, c\<lparr>c_os := v\<rparr>)"
        "on_st (wr_Write S w got) (c\<lparr>c_os := v\<rparr>) = (q, c\<lparr>c_os := v, c_st := s\<rparr>)"
        using r q by (simp_all add: on_os_def on_st_def)
      note eq = copy_upload.simps[of S w f n acc c]
      show ?thesis
      proof (cases "\<exists>u. q = Ok u")
        case True
        then have "snd (copy_upload S w f n acc c) =
            snd (copy_upload S w f (n - length got) (acc @ got) (c\<lparr>c_os := v, c_st := s\<rparr>))"
          using eq o Ok False by (auto simp: bindr_def)
        with 1[OF False o(1)[symmetric] Ok, of "c\<lparr>c_os := v, c_st := s\<rparr>"] v show ?thesis
          by auto
      next
        case nok: False
        then have "snd (copy_upload S w f n acc c) = c\<lparr>c_os := v, c_st := s\<rparr>"
          using eq o Ok False by (cases q) (auto simp: bindr_def)
        with v show ?thesis
          by (intro exI[of _ s] exI[of _ v]) simp
      qed
    next
      case (Err e)
      with r v False show ?thesis
        by (intro exI[of _ "c_st c"] exI[of _ v]) (simp add: copy_upload.simps on_os_def)
    next
      case (Panic q)
      with r v False show ?thesis
        by (intro exI[of _ "c_st c"] exI[of _ v]) (simp add: copy_upload.simps on_os_def)
    qed
  qed
qed

lemma copy_upload_same [simp]:
  "c_lru (snd (copy_upload S w f n acc c)) = c_lru c" "c_openmap (snd (copy_upload S w f n acc c)) = c_openmap c"
  using copy_upload_frame[of S w f n acc c] by auto

lemma copy_upload_keeps [keeps]:
  "touched l (c_lru c) \<Longrightarrow> touched l (c_lru (snd (copy_upload S w f n acc c)))"
  by simp

lemma copy_upload_opens [opens]:
  "open_inv (c_openmap c) \<Longrightarrow> open_inv (c_openmap (snd (copy_upload S w f n acc c)))"
  by simp

lemma take_step: "got = take m r \<Longrightarrow> m \<le> n \<Longrightarrow> got @ take (n - length got) (drop (length got) r) = take n r"
  using take_add[of m "n - m" r] by (cases "m \<le> length r") (simp_all add: min_def)

text \<open>A loop that ends well has written to the writer what it read, the next \<open>n\<close> bytes of the file.\<close>

lemma copy_upload_Ok:
  "copy_upload S w f n acc c = (Ok b, c') \<Longrightarrow> writes_ok S pnd content \<Longrightarrow> pnd (c_st c) w = Some (name, acc) \<Longrightarrow>
   b = acc @ take n (drop (length acc) (fd_bytes (os_data (c_os c) f))) \<and> pnd (c_st c') w = Some (name, b)"
proof (induction S w f n acc c rule: copy_upload.induct)
  case (1 S w f n acc c)
  show ?case
  proof (cases "n = 0")
    case True
    with 1(2,4) show ?thesis by (simp add: copy_upload.simps)
  next
    case False
    obtain got v where r: "file_Read f (min 32768 n) (length acc) (c_os c) = (Ok got, v)"
      and "bindr (on_st (wr_Write S w got) (c\<lparr>c_os := v\<rparr>)) (\<lambda>_ c. copy_upload S w f (n - length got) (acc @ got) c) = (Ok b, c')"
      using 1(2) False by (subst (asm) copy_upload.simps) (auto split: res.splits prod.splits elim!: on_osE)
    then obtain s where s: "wr_Write S w got (c_st c) = (Ok (), s)"
      and rest: "copy_upload S w f (n - length got) (acc @ got) (c\<lparr>c_os := v, c_st := s\<rparr>) = (Ok b, c')"
      by (auto elim!: bindr_OkE on_stE)
    have v: "os_data v = os_data (c_os c)"
      using file_Read_data[of f "min 32768 n" "length acc" "c_os c"] r by simp
    have p: "pnd s w = Some (name, acc @ got)"
      using writes_okD(2)[OF 1(3) s 1(4)] .
    have o: "on_os (file_Read f (min 32768 n) (length acc)) c = (Ok got, c\<lparr>c_os := v\<rparr>)"
      using r by (simp add: on_os_def)
    let ?rest = "drop (length acc) (fd_bytes (os_data (c_os c) f))"
    have "b = (acc @ got) @ take (n - length got) (drop (length (acc @ got)) (fd_bytes (os_data (c_os c) f)))
        \<and> pnd (c_st c') w = Some (name, b)"
      using 1(1)[OF False o[symmetric] refl rest 1(3)] p v by simp
    moreover have "got @ take (n - length got) (drop (length got) ?rest) = take n ?rest"
      by (rule take_step[OF file_Read_OkE[OF r]]) simp
    ultimately show ?thesis
      by (simp add: add.commute)
  qed
qed

subsection \<open>The end of a successful transfer\<close>

lemma bindr_st:
  assumes "c_st (snd m) = s" "\<And>a c. c_st c = s \<Longrightarrow> c_st (snd (f a c)) = s"
  shows "c_st (snd (bindr m f)) = s"
  using assms by (cases m; cases "fst m") (auto simp: bindr_def)

lemma uploadFinish_st: "c_st (snd (uploadFinish E ino n k b info c)) = c_st c"
  unfolding uploadFinish_def Let_def
  by (intro bindr_st) (simp_all add: cache_frame Update_def)

text \<open>
  The object has the bytes of the file, and the rest of the work was done by \<^const>\<open>uploadFinish\<close> on what the
  writer's \<^verbatim>\<open>Wait\<close> returned.
\<close>

lemma uploadFile_OkE:
  assumes "uploadFile E ino n k f c = (Ok (), c')" "writes_ok (e_storage E) pnd content"
    and b: "b = fd_bytes (os_data (c_os c) f)"
  obtains w s0 s info v c2 where "wr_Wait (e_storage E) w s0 = (Ok info, s)" "oi_Size info = of_nat (length b)"
    "uploadFinish E ino n k b info (c\<lparr>c_os := v, c_st := s\<rparr>) = (Ok (), c2)" "c_db c' = c_db c2"
    "content (c_st c') (Path n) = Some b"
proof -
  let ?S = "e_storage E"
  obtain i v1 where i: "file_Stat f (c_os c) = (Ok i, v1)"
    and r1: "bindr (on_st (st_OpenWrite ?S (Path n) (fi_Size i)) (c\<lparr>c_os := v1\<rparr>)) (\<lambda>w c.
       let (r, c) =
             bindr (copy_upload ?S w f (nat (sint (fi_Size i))) [] c) (\<lambda>b c.
             bindr (on_st (wr_Wait ?S w) c) (\<lambda>info c.
               uploadFinish E ino n k b info c))
       in (r, close_writer ?S (Some w) c)) = (Ok (), c')"
    using assms(1) unfolding uploadFile_def by (elim bindr_OkE on_osE) auto
  have v1: "os_data v1 = os_data (c_os c)" "nat (sint (fi_Size i)) = length b"
    using file_Stat_OkE[OF i] b by simp_all
  obtain w s1 c2 where w: "st_OpenWrite ?S (Path n) (fi_Size i) (c_st c) = (Ok w, s1)"
    and r2: "bindr (copy_upload ?S w f (length b) [] (c\<lparr>c_os := v1, c_st := s1\<rparr>)) (\<lambda>b c.
             bindr (on_st (wr_Wait ?S w) c) (\<lambda>info c.
               uploadFinish E ino n k b info c)) = (Ok (), c2)"
    and c': "c' = close_writer ?S (Some w) c2"
    using r1 v1 by (auto simp: Let_def split: prod.splits elim!: bindr_OkE on_stE)
  obtain b' c3 where cp: "copy_upload ?S w f (length b) [] (c\<lparr>c_os := v1, c_st := s1\<rparr>) = (Ok b', c3)"
    and r3: "bindr (on_st (wr_Wait ?S w) c3) (\<lambda>info c. uploadFinish E ino n k b' info c) = (Ok (), c2)"
    using r2 by (rule bindr_OkE)
  have pnd: "b' = b" "pnd (c_st c3) w = Some (Path n, b)"
    using copy_upload_Ok[OF cp assms(2), of "Path n"] writes_okD(1)[OF assms(2) w] v1(1) b by auto
  obtain s2 v2 where c3: "c3 = c\<lparr>c_st := s2, c_os := v2\<rparr>"
    using copy_upload_frame[of ?S w f "length b" "[]" "c\<lparr>c_os := v1, c_st := s1\<rparr>"] cp by auto
  obtain info s3 where s3: "wr_Wait ?S w s2 = (Ok info, s3)"
    and fin: "uploadFinish E ino n k b info (c\<lparr>c_os := v2, c_st := s3\<rparr>) = (Ok (), c2)"
    using r3 pnd(1) c3 by (auto elim!: bindr_OkE on_stE)
  have "pnd s2 w = Some (Path n, b)"
    using pnd(2) c3 by simp
  from writes_okD(3)[OF assms(2) s3 this]
  have s: "content s3 (Path n) = Some b" "oi_Size info = of_nat (length b)" by auto
  have "c_st c2 = s3"
    using uploadFinish_st[of E ino n k b info "c\<lparr>c_os := v2, c_st := s3\<rparr>"] fin by simp
  then have "content (c_st c') (Path n) = Some b"
    using s(1) c' writes_okD(4)[OF assms(2)] by (simp add: close_writer_def)
  moreover have "c_db c' = c_db c2"
    by (simp add: c' close_writer_def)
  ultimately show thesis
    using that[OF s3 s(2) fin] by blast
qed

end
