(* ===== verification/Interleave.thy ===== *)
theory Interleave
  imports UploadFile
begin

text \<open>
  The cache as a system of two parties: the clients, whose operations each run under a path lock, and
  the background thread, which takes an item from a queue and later works on it under the item's path
  lock.  Any client operations may come between the two.  \<open>sys_step\<close> is the relation; the state also
  records which inodes have been written to and not yet been found safe (\<open>s_dirty\<close>).

  The record does not depend on what the code reports.  An inode is safe after an upload step when the
  storage has the bytes of its local file under its path; it has nothing to upload when its node is gone
  from the database, or when the operating system says that there is no local file.  \<open>content\<close> gives the
  bytes of an object in a state of the storage.
\<close>

datatype bgstate = Idle | Uploading u64 | Evicting u64

record ('d, 's) sys =
  s_cache :: "('d, 's) cache"
  s_bg :: bgstate
  s_dirty :: "u64 set"

text \<open>The inodes that an operation writes to successfully.\<close>

fun written :: "('d, 's) env \<Rightarrow> clientop \<Rightarrow> ('d, 's) cache \<Rightarrow> u64 set" where
  "written E (OpWriteAt i b off) c = (case fst (WriteAt E i b off c) of Ok (n, None) \<Rightarrow> {i} | _ \<Rightarrow> {})"
| "written E (OpTruncate i sz) c = (case fst (Truncate E i sz c) of Ok (u, None) \<Rightarrow> {i} | _ \<Rightarrow> {})"
| "written E _ c = {}"

text \<open>
  The node of an inode, as the database has it, and the bytes of its local file.  A panic ends the
  program, so no step follows it.
\<close>

definition node_of :: "('d, 's) env \<Rightarrow> u64 \<Rightarrow> ('d, 's) cache \<Rightarrow> node res" where
  "node_of E ino c = View E (\<lambda>d. node_GetWithIno (e_bolt E) ino d node0) c"

definition local_bytes :: "u64 \<Rightarrow> ('d, 's) cache \<Rightarrow> bytes option" where
  "local_bytes ino c =
     map_option (\<lambda>f. fd_bytes (os_data (c_os c) f)) (fmlookup (os_files (c_os c)) (filePath (c_path c) ino))"

definition no_local_file :: "u64 \<Rightarrow> ('d, 's) cache \<Rightarrow> bool" where
  "no_local_file ino c \<longleftrightarrow> fst (openFile (filePath (c_path c) ino) (c_os c)) = Err (OsErr NotExist)"

definition stored ::
  "('d, 's) env \<Rightarrow> ('s \<Rightarrow> gostring \<Rightarrow> bytes option) \<Rightarrow> u64 \<Rightarrow> ('d, 's) cache \<Rightarrow> ('d, 's) cache \<Rightarrow> bool" where
  "stored E content ino c c' \<longleftrightarrow>
     (case node_of E ino c of
        Ok n \<Rightarrow> local_bytes ino c \<noteq> None \<and> content (c_st c') (Path n) = local_bytes ino c
      | _ \<Rightarrow> False)"

definition safe ::
  "('d, 's) env \<Rightarrow> ('s \<Rightarrow> gostring \<Rightarrow> bytes option) \<Rightarrow> u64 \<Rightarrow> ('d, 's) cache \<Rightarrow> ('d, 's) cache \<Rightarrow> bool" where
  "safe E content ino c c' \<longleftrightarrow>
     node_of E ino c = errno_err ENOENT \<or> no_local_file ino c \<or> stored E content ino c c'"

inductive sys_step ::
  "('d, 's) env \<Rightarrow> ('s \<Rightarrow> gostring \<Rightarrow> bytes option) \<Rightarrow> ('d, 's) sys \<Rightarrow> ('d, 's) sys \<Rightarrow> bool" for E content where
  client: "client_step E op c = Some c' \<Longrightarrow>
    sys_step E content \<lparr>s_cache = c, s_bg = b, s_dirty = D\<rparr>
      \<lparr>s_cache = c', s_bg = b, s_dirty = D \<union> written E op c\<rparr>"
| pick_upload: "pick True force c = (i, c') \<Longrightarrow>
    sys_step E content \<lparr>s_cache = c, s_bg = Idle, s_dirty = D\<rparr>
      \<lparr>s_cache = c', s_bg = (case i of None \<Rightarrow> Idle | Some ino \<Rightarrow> Uploading ino), s_dirty = D\<rparr>"
| pick_evict: "pick False force c = (i, c') \<Longrightarrow>
    sys_step E content \<lparr>s_cache = c, s_bg = Idle, s_dirty = D\<rparr>
      \<lparr>s_cache = c', s_bg = (case i of None \<Rightarrow> Idle | Some ino \<Rightarrow> Evicting ino), s_dirty = D\<rparr>"
| upload: "uploadBody E ino c = (r, c') \<Longrightarrow> \<forall>q. r \<noteq> Panic q \<Longrightarrow>
    sys_step E content \<lparr>s_cache = c, s_bg = Uploading ino, s_dirty = D\<rparr>
      \<lparr>s_cache = c', s_bg = Idle, s_dirty = (if safe E content ino c c' then D - {ino} else D)\<rparr>"
| evict: "evictBody E ino c = (r, c') \<Longrightarrow>
    sys_step E content \<lparr>s_cache = c, s_bg = Evicting ino, s_dirty = D\<rparr> \<lparr>s_cache = c', s_bg = Idle, s_dirty = D\<rparr>"

inductive reachable ::
  "('d, 's) env \<Rightarrow> ('s \<Rightarrow> gostring \<Rightarrow> bytes option) \<Rightarrow> ('d, 's) sys \<Rightarrow> ('d, 's) sys \<Rightarrow> bool" for E content where
  start: "reachable E content s s"
| step: "reachable E content s0 s \<Longrightarrow> sys_step E content s s' \<Longrightarrow> reachable E content s0 s'"

text \<open>The states in which the system starts: nothing written yet, the background thread idle.\<close>

definition sys_init :: "('d, 's) sys \<Rightarrow> bool" where
  "sys_init s \<longleftrightarrow>
     lru_inv (c_lru (s_cache s)) \<and> open_inv (c_openmap (s_cache s)) \<and> s_bg s = Idle \<and> s_dirty s = {}"

definition sys_inv :: "('d, 's) sys \<Rightarrow> bool" where
  "sys_inv s \<longleftrightarrow>
     lru_inv (c_lru (s_cache s)) \<and> open_inv (c_openmap (s_cache s)) \<and>
     (\<forall>ino \<in> s_dirty s. ino \<in> pending (s_cache s) \<or> s_bg s = Uploading ino)"

inductive_cases upload_stepE: "sys_step E content \<lparr>s_cache = c, s_bg = Uploading ino, s_dirty = D\<rparr> s"

subsection \<open>The background steps and the queues\<close>

lemma pick_lru:
  assumes "lru_inv (c_lru c)" "pick rw force c = (i, c')"
  shows "lru_inv (c_lru c')"
    and "i = Some ino \<Longrightarrow> ino \<in> queued rw (c_lru c)"
    and "queued b (c_lru c') = (case i of None \<Rightarrow> queued b (c_lru c)
           | Some ino \<Rightarrow> if b = rw then queued b (c_lru c) - {ino} else queued b (c_lru c))"
    and "i = None \<Longrightarrow> force \<Longrightarrow> queued rw (c_lru c) = {}"
    and "c_openmap c' = c_openmap c"
proof -
  obtain delay now where t: "take_first rw force delay now (c_lru c) = (i, c_lru c')"
    using assms(2) by (auto simp: pick_def case_prod_beta Let_def)
  show "lru_inv (c_lru c')"
    using queues.inv_take[OF assms(1), of rw force delay now] t by simp
  show "i = Some ino \<Longrightarrow> ino \<in> queued rw (c_lru c)"
    using queues.take_Some[OF assms(1), of rw force delay now ino "c_lru c'"] t by simp
  show "queued b (c_lru c') = (case i of None \<Rightarrow> queued b (c_lru c)
      | Some ino \<Rightarrow> if b = rw then queued b (c_lru c) - {ino} else queued b (c_lru c))"
    using queues.take_Some[OF assms(1), of rw force delay now _ "c_lru c'" b]
      queues.take_None[OF assms(1), of rw force delay now "c_lru c'"] t
    by (auto split: option.split)
  show "i = None \<Longrightarrow> force \<Longrightarrow> queued rw (c_lru c) = {}"
    using queues.take_None[OF assms(1), of rw force delay now "c_lru c'"] t by simp
  show "c_openmap c' = c_openmap c"
    using assms(2) by (auto simp: pick_def case_prod_beta Let_def)
qed

lemma uploadWork_keeps [keeps]:
  "touched l (c_lru c) \<Longrightarrow> touched l (c_lru (snd (uploadWork E ino c)))"
  by (auto simp: uploadWork_def uploadFile_def uploadFinish_def case_prod_beta Let_def intro!: keeps
      split: keep_splits)

lemma uploadWork_opens [opens]:
  "open_inv (c_openmap c) \<Longrightarrow> open_inv (c_openmap (snd (uploadWork E ino c)))"
  by (auto simp: uploadWork_def uploadFile_def uploadFinish_def case_prod_beta Let_def intro!: opens
      split: keep_splits)

lemma uploadWork_Err: "uploadWork E ino c = ((Err e, tch), c') \<Longrightarrow> tch"
  by (auto simp: uploadWork_def case_prod_beta Let_def split: res.splits prod.splits if_splits)

lemma uploadBody_keeps: "touched (c_lru c) (c_lru (snd (uploadBody E ino c)))"
  by (auto simp: uploadBody_def case_prod_beta Let_def intro!: keeps)

lemma uploadBody_opens: "open_inv (c_openmap c) \<Longrightarrow> open_inv (c_openmap (snd (uploadBody E ino c)))"
  by (auto simp: uploadBody_def case_prod_beta Let_def intro!: opens)

text \<open>A failed upload puts the inode back into the upload queue.\<close>

lemma uploadBody_retry:
  assumes "lru_inv (c_lru c)" "uploadBody E ino c = (Err e, c')"
  shows "ino \<in> pending c'"
proof -
  obtain tch c1 where c1: "uploadWork E ino c = ((Err e, tch), c1)"
    "c' = (if tch then touch ino True c1 else c1)"
    using assms(2) by (auto simp: uploadBody_def case_prod_beta Let_def prod_eq_iff)
  have "tch"
    using uploadWork_Err[OF c1(1)] .
  moreover have "lru_inv (c_lru c1)"
    using uploadWork_keeps[of "c_lru c" c E ino] c1(1) touched_pending(1)[OF assms(1)] by simp
  ultimately show ?thesis
    using c1(2) touch_pending(1)[of c1 ino True] by simp
qed

text \<open>
  An upload that reports success and has not left the inode in the queue has found it safe: the errors of
  the database, of the operating system and of the storage all come back as errors, but for a node that is
  gone and a local file that does not exist.
\<close>

lemma getLocked_node_of:
  "getLockedNodeWithIno E ino c = Ok (n, k) \<Longrightarrow> node_of E ino c = Ok n"
  "getLockedNodeWithIno E ino c = Err e \<Longrightarrow> node_of E ino c = Err e"
  "getLockedNodeWithIno E ino c = Panic q \<Longrightarrow> node_of E ino c = Panic q"
proof -
  have "(getLocked_loop E ino k0 c = Ok (n, k) \<longrightarrow> node_of E ino c = Ok n) \<and>
      (getLocked_loop E ino k0 c = Err e \<longrightarrow> node_of E ino c = Err e) \<and>
      (getLocked_loop E ino k0 c = Panic q \<longrightarrow> node_of E ino c = Panic q)" for k0
    by (induction E ino k0 c rule: getLocked_loop.induct)
      (subst (1 2 3) getLocked_loop.simps, auto simp: node_of_def Let_def split: res.splits if_splits)
  then show "getLockedNodeWithIno E ino c = Ok (n, k) \<Longrightarrow> node_of E ino c = Ok n"
    "getLockedNodeWithIno E ino c = Err e \<Longrightarrow> node_of E ino c = Err e"
    "getLockedNodeWithIno E ino c = Panic q \<Longrightarrow> node_of E ino c = Panic q"
    by (auto simp: getLockedNodeWithIno_def)
qed

lemma node_of_transient: "node_of E ino c = Ok n \<Longrightarrow> \<not> Deleted n"
  using node_Get_transient
  by (fastforce simp: node_of_def View_def db_View_def node_GetWithIno_def split: option.splits res.splits)

lemma uploadWork_Ok_safe:
  assumes "uploadWork E ino c = ((Ok (), tch), c')" "writes_ok (e_storage E) pnd content"
    and "fmlookup (rwmap (c_lru c)) ino = None"
  shows "safe E content ino c c'"
proof (cases "getLockedNodeWithIno E ino c")
  case (Err e)
  then have "e = ErrnoErr ENOENT"
    using assms(1) by (auto simp: uploadWork_def split: if_splits)
  with getLocked_node_of(2)[OF Err] show ?thesis
    by (simp add: safe_def)
next
  case (Panic q)
  with assms(1) show ?thesis
    by (simp add: uploadWork_def)
next
  case (Ok nk)
  then obtain n k where nk: "getLockedNodeWithIno E ino c = Ok (n, k)" by (cases nk) simp
  note n = getLocked_node_of(1)[OF nk]
  obtain r v where o: "openFile (filePath (c_path c) ino) (c_os c) = (r, v)" by fastforce
  show ?thesis
  proof (cases r)
    case (Ok f)
    then have up: "uploadFile E ino n k f (c\<lparr>c_os := v\<rparr>) = (Ok (), c')"
      using assms(1,3) nk node_of_transient[OF n] o
      by (auto simp: uploadWork_def on_os_def Let_def split: prod.splits)
    have f: "local_bytes ino c = Some (fd_bytes (os_data (c_os c) f))" "os_data v = os_data (c_os c)"
      using openFile_OkE[OF o[unfolded Ok]] by (simp_all add: local_bytes_def)
    have "content (c_st c') (Path n) = local_bytes ino c"
      by (rule uploadFile_OkE[OF up assms(2) refl]) (simp add: f)
    with n f show ?thesis
      by (simp add: safe_def stored_def)
  next
    case (Err e)
    then have "os_IsNotExist e"
      using assms(1,3) nk node_of_transient[OF n] o by (auto simp: uploadWork_def on_os_def split: if_splits)
    with Err o show ?thesis
      by (simp add: safe_def no_local_file_def os_IsNotExist_def)
  next
    case (Panic q)
    with assms(1,3) nk node_of_transient[OF n] o show ?thesis
      by (simp add: uploadWork_def on_os_def)
  qed
qed

lemma uploadBody_Ok_safe:
  assumes "lru_inv (c_lru c)" "uploadBody E ino c = (Ok (), c')" "writes_ok (e_storage E) pnd content"
  shows "safe E content ino c c' \<or> ino \<in> pending c'"
proof (cases "fmlookup (rwmap (c_lru c)) ino")
  case None
  obtain tch c1 where c1: "uploadWork E ino c = ((Ok (), tch), c1)" "c' = (if tch then touch ino False c1 else c1)"
    using assms(2) by (auto simp: uploadBody_def Let_def split: prod.splits)
  have "safe E content ino c c1"
    using uploadWork_Ok_safe[OF c1(1) assms(3) None] .
  then have "safe E content ino c c'"
    using c1(2) by (auto simp: safe_def stored_def split: res.splits)
  then show ?thesis ..
next
  case (Some a)
  then have "ino \<in> pending c"
    by (simp add: pending_def queued_iff qmap_def)
  then have "ino \<in> pending c'"
    using touched_pending(2)[OF assms(1) uploadBody_keeps[of c E ino]] assms(2) by (auto simp: pending_def)
  then show ?thesis ..
qed

lemma evictBody_keeps: "touched (c_lru c) (c_lru (snd (evictBody E ino c)))"
  by (auto simp: evictBody_def evictWork_def case_prod_beta Let_def intro!: keeps split: keep_splits)

lemma evictBody_opens: "open_inv (c_openmap c) \<Longrightarrow> open_inv (c_openmap (snd (evictBody E ino c)))"
  by (auto simp: evictBody_def evictWork_def case_prod_beta Let_def intro!: opens split: keep_splits)

subsection \<open>The invariant\<close>

lemma written_pending:
  assumes "lru_inv (c_lru c)" "open_inv (c_openmap c)" "client_step E op c = Some c'"
  shows "written E op c \<subseteq> pending c'"
proof (cases op)
  case (OpWriteAt i b off)
  then have c': "WriteAt E i b off c = (fst (WriteAt E i b off c), c')"
    using assms(3) by (simp add: prod_eq_iff)
  show ?thesis
  proof (cases "\<exists>n. fst (WriteAt E i b off c) = Ok (n, None)")
    case True
    then obtain n where "fst (WriteAt E i b off c) = Ok (n, None)" by blast
    with OpWriteAt c' WriteAt_pending[OF assms(1,2), of E i b off n c'] show ?thesis by simp
  next
    case False
    then show ?thesis
      by (auto simp: OpWriteAt split: res.splits option.splits)
  qed
next
  case (OpTruncate i sz)
  then have c': "Truncate E i sz c = (fst (Truncate E i sz c), c')"
    using assms(3) by (simp add: prod_eq_iff)
  show ?thesis
  proof (cases "fst (Truncate E i sz c) = Ok ((), None)")
    case True
    with OpTruncate c' Truncate_pending[OF assms(1,2), of E i sz c'] show ?thesis by simp
  next
    case False
    then show ?thesis
      by (auto simp: OpTruncate split: res.splits option.splits)
  qed
qed simp_all

lemma sys_inv_step:
  assumes "writes_ok (e_storage E) pnd content"
  shows "sys_step E content s s' \<Longrightarrow> sys_inv s \<Longrightarrow> sys_inv s'"
proof (induction rule: sys_step.induct)
  case (client op c c' b D)
  then show ?case
    using client_step_touches[OF client(1)] touched_pending[of "c_lru c" "c_lru c'"]
      client_step_open[OF client(1)] written_pending[OF _ _ client(1)]
    by (auto simp: sys_inv_def pending_def)
next
  case (pick_upload force c i c' D)
  then show ?case
    using pick_lru(1,5)[OF _ pick_upload(1)] pick_lru(3)[OF _ pick_upload(1), of True]
    by (auto simp: sys_inv_def pending_def split: option.split)
next
  case (pick_evict force c i c' D)
  then show ?case
    using pick_lru(1,5)[OF _ pick_evict(1)] pick_lru(3)[OF _ pick_evict(1), of True]
    by (auto simp: sys_inv_def pending_def split: option.split)
next
  case (upload ino c r c' D)
  have inv: "lru_inv (c_lru c)"
    using upload(3) by (simp add: sys_inv_def)
  have "safe E content ino c c' \<or> ino \<in> pending c'"
    using uploadBody_Ok_safe[OF inv _ assms] uploadBody_retry[OF inv] upload(1,2) by (cases r) auto
  then show ?case
    using upload(1,3) uploadBody_keeps[of c E ino] uploadBody_opens[of c E ino]
      touched_pending[OF inv, of "c_lru c'"]
    by (auto simp: sys_inv_def pending_def split: if_splits)
next
  case (evict ino c r c' D)
  then show ?case
    using evictBody_keeps[of c E ino] evictBody_opens[of c E ino] touched_pending[of "c_lru c" "c_lru c'"]
    by (auto simp: sys_inv_def pending_def)
qed

lemma sys_inv_reachable:
  assumes "writes_ok (e_storage E) pnd content"
  shows "reachable E content s0 s \<Longrightarrow> sys_init s0 \<Longrightarrow> sys_inv s"
proof (induction rule: reachable.induct)
  case (start s)
  then show ?case by (simp add: sys_init_def sys_inv_def)
next
  case (step s0 s s')
  then show ?case using sys_inv_step[OF assms] by blast
qed

text \<open>
  The eviction of an inode that awaits upload: a node that is there keeps everything as it is; without a
  node, or when it cannot be read, at most the local file of an inode without a node goes.
\<close>

lemma touch_data [simp]:
  "os_data (c_os (touch ino rw c)) = os_data (c_os c)" "os_files (c_os (touch ino rw c)) = os_files (c_os c)"
  by (simp_all add: touch_def time_now_def time_Now_def on_os_def case_prod_beta Let_def)

lemma os_Remove_files:
  "os_data (snd (os_Remove p w)) = os_data w"
  "os_files (snd (os_Remove p w)) = os_files w \<or> os_files (snd (os_Remove p w)) = fmdrop p (os_files w)"
  by (auto simp: os_Remove_def split: option.split)

lemma evictBody_pending:
  assumes "lru_inv (c_lru c)" "ino \<in> pending c" "evictBody E ino c = (r, c')"
  shows "node_of E ino c = Ok n \<Longrightarrow> r = Ok () \<and> c' = c"
    and "c_db c' = c_db c \<and> c_st c' = c_st c \<and> os_data (c_os c') = os_data (c_os c)"
    and "os_files (c_os c') = os_files (c_os c) \<or>
         node_of E ino c = errno_err ENOENT \<and>
         os_files (c_os c') = fmdrop (filePath (c_path c) ino) (os_files (c_os c))"
    and "ino \<in> pending c'"
proof -
  have q: "fmlookup (rwmap (c_lru c)) ino \<noteq> None"
    using assms(2) by (simp add: pending_def queued_iff qmap_def)
  have rm: "c_db (snd (on_os g c)) = c_db c \<and> c_st (snd (on_os g c)) = c_st c \<and> c_os (snd (on_os g c)) = snd (g (c_os c))"
    for g :: "osstate \<Rightarrow> unit res \<times> osstate"
    by (simp add: on_os_def case_prod_beta)
  note rest = q assms(3) os_Remove_files[of "filePath (c_path c) ino" "c_os c"] rm
  show "ino \<in> pending c'"
    using touched_pending(2)[OF assms(1) evictBody_keeps[of c E ino]] assms(2,3) by (auto simp: pending_def)
  show "node_of E ino c = Ok n \<Longrightarrow> r = Ok () \<and> c' = c"
    using q assms(3)
    by (cases "getLockedNodeWithIno E ino c")
      (auto simp: evictBody_def evictWork_def dest: getLocked_node_of)
  show "c_db c' = c_db c \<and> c_st c' = c_st c \<and> os_data (c_os c') = os_data (c_os c)"
    using rest by (cases "getLockedNodeWithIno E ino c") (auto simp: evictBody_def evictWork_def split: if_splits)
  show "os_files (c_os c') = os_files (c_os c) \<or>
      node_of E ino c = errno_err ENOENT \<and> os_files (c_os c') = fmdrop (filePath (c_path c) ino) (os_files (c_os c))"
    using rest
    by (cases "getLockedNodeWithIno E ino c")
      (auto simp: evictBody_def evictWork_def dest: getLocked_node_of split: if_splits)
qed

subsection \<open>Properties\<close>

text \<open>
  C1. No written data is forgotten.  In every state the system can reach, whatever the clients do between
  the steps of the background thread, and whatever fails, an inode that was written to awaits its upload
  or is being uploaded, until an upload step has found it safe: the storage has, under the path of its
  node, exactly the bytes of its local file; or its node is gone from the database, as after a
  \<^verbatim>\<open>Remove\<close>; or the operating system says that there is no local file.  A step that merely reports
  success does not count.  The storage is taken to keep the contract of its writers, that an object has the bytes
  that were written and waited for (\<^const>\<open>writes_ok\<close>); it may fail at any call.
\<close>

theorem no_lost_update:
  assumes "writes_ok (e_storage E) pnd content"
    and "reachable E content s0 s" and "sys_init s0" and "ino \<in> s_dirty s"
  shows "ino \<in> pending (s_cache s) \<or> s_bg s = Uploading ino"
  using sys_inv_reachable[OF assms(1-3)] assms(4) by (simp add: sys_inv_def)

lemma demo_init: "sys_init \<lparr>s_cache = demo_cache, s_bg = Idle, s_dirty = {}\<rparr>"
  by (simp add: sys_init_def open_inv_def queues.inv_touch[OF lru_inv_new] demo_node_def)

lemma demo_write: "fst (WriteAt demo_env 7 ''new'' 0 c) = Ok (3, None)"
  if "c_openmap c = c_openmap demo_cache" "os_fault (c_os c) = (\<lambda>_. None)"
  using that
  by (simp add: WriteAt_def with_open_def performFileIoOnNode_def node_at_def on_os_def file_WriteAt_def
      demo_cache_simps Let_def)

abbreviation demo_content :: "memstore \<Rightarrow> gostring \<Rightarrow> bytes option" where
  "demo_content \<equiv> \<lambda>s. fmlookup (ms_objects s)"

lemma demo_writes_ok: "writes_ok (e_storage demo_env) ms_writers demo_content"
  by (simp add: mem_writes_ok)

theorem no_lost_update_witness:
  "\<exists>s. reachable demo_env demo_content \<lparr>s_cache = demo_cache, s_bg = Idle, s_dirty = {}\<rparr> s \<and> s_dirty s = {7} \<and>
       (7 \<in> pending (s_cache s) \<or> s_bg s = Uploading 7)"
proof -
  let ?c = "snd (WriteAt demo_env 7 ''new'' 0 demo_cache)"
  let ?s = "\<lparr>s_cache = ?c, s_bg = Idle, s_dirty = {} \<union> written demo_env (OpWriteAt 7 ''new'' 0) demo_cache\<rparr>"
  have "sys_step demo_env demo_content \<lparr>s_cache = demo_cache, s_bg = Idle, s_dirty = {}\<rparr> ?s"
    by (rule sys_step.client) simp
  then have r: "reachable demo_env demo_content \<lparr>s_cache = demo_cache, s_bg = Idle, s_dirty = {}\<rparr> ?s"
    by (rule reachable.step[OF reachable.start])
  have d: "s_dirty ?s = {7}"
    using demo_write[of demo_cache] by (simp add: demo_os_def)
  from no_lost_update[OF demo_writes_ok r demo_init] d r show ?thesis
    by blast
qed

text \<open>
  C6. The eviction never drops written data: when the background thread, having picked an inode to evict,
  comes to work on it and it has been written to meanwhile, then nothing changes at all if its node is in
  the database.  If the node cannot be read or is gone, the catalogue, the storage and the contents of all
  local files are as before, and no local file is removed but that of an inode whose node is gone from the
  database, as after a \<^verbatim>\<open>Remove\<close>.  In every case the inode goes on awaiting its upload.
\<close>

theorem evict_spares_dirty:
  assumes "writes_ok (e_storage E) pnd content"
    and "reachable E content s0 s" and "sys_init s0" and "ino \<in> s_dirty s" and "s_bg s = Evicting ino"
    and "c = s_cache s" and "evictBody E ino c = (r, c')"
  shows "(case node_of E ino c of
            Ok n \<Rightarrow> r = Ok () \<and> c' = c
          | _ \<Rightarrow>
              c_db c' = c_db c \<and> c_st c' = c_st c \<and> os_data (c_os c') = os_data (c_os c) \<and>
              (os_files (c_os c') = os_files (c_os c) \<or>
               node_of E ino c = errno_err ENOENT \<and>
               os_files (c_os c') = fmdrop (filePath (c_path c) ino) (os_files (c_os c)))) \<and>
         ino \<in> pending c'"
proof -
  have "lru_inv (c_lru c)" "ino \<in> pending c"
    using sys_inv_reachable[OF assms(1-3)] assms(4-6) by (auto simp: sys_inv_def)
  note ev = evictBody_pending[OF this assms(7)]
  show ?thesis
    using ev(2-4) ev(1)[of "case node_of E ino c of Ok n \<Rightarrow> n"] by (cases "node_of E ino c") auto
qed

lemma demo_write_db: "c_db (snd (WriteAt demo_env 7 ''new'' 0 c)) = c_db c"
  if "c_openmap c = c_openmap demo_cache" "os_fault (c_os c) = (\<lambda>_. None)"
  using that
  by (simp add: WriteAt_def with_open_def performFileIoOnNode_def node_at_def on_os_def file_WriteAt_def
      touch_def time_now_def demo_cache_simps case_prod_beta Let_def)

lemma demo_pick:
  obtains c1 where "pick False True demo_cache = (Some 7, c1)" "c_openmap c1 = c_openmap demo_cache"
    "os_fault (c_os c1) = (\<lambda>_. None)" "c_db c1 = demo_db"
proof -
  obtain i c1 where i: "pick False True demo_cache = (i, c1)"
    by (cases "pick False True demo_cache")
  have inv: "lru_inv (c_lru demo_cache)"
    by (simp add: queues.inv_touch[OF lru_inv_new])
  have "queued rw lru_new = {}" for rw
    by (simp add: queued_def lru_new_def qmap_def)
  then have q: "queued False (c_lru demo_cache) = {7}"
    using queues.evictable_touch[OF lru_inv_new] by simp
  have "i = Some 7"
    using pick_lru(2,4)[OF inv i] q by (cases i) auto
  moreover have "os_fault (c_os c1) = (\<lambda>_. None)" "c_db c1 = demo_db"
    using i by (auto simp: pick_def time_now_def on_os_def time_Now_def os_tick_def demo_os_def Let_def
        case_prod_beta)
  ultimately show ?thesis
    using that i pick_lru(5)[OF inv i] by blast
qed

theorem evict_spares_dirty_witness:
  "\<exists>s. reachable demo_env demo_content \<lparr>s_cache = demo_cache, s_bg = Idle, s_dirty = {}\<rparr> s \<and> s_dirty s = {7} \<and>
       s_bg s = Evicting 7 \<and> evictBody demo_env 7 (s_cache s) = (Ok (), s_cache s)"
proof -
  obtain c1 where c1: "pick False True demo_cache = (Some 7, c1)" "c_openmap c1 = c_openmap demo_cache"
    "os_fault (c_os c1) = (\<lambda>_. None)" "c_db c1 = demo_db"
    by (rule demo_pick)
  let ?init = "\<lparr>s_cache = demo_cache, s_bg = Idle, s_dirty = {}\<rparr>"
  let ?mid = "\<lparr>s_cache = c1, s_bg = Evicting 7, s_dirty = {}\<rparr>"
  let ?c = "snd (WriteAt demo_env 7 ''new'' 0 c1)"
  let ?s = "\<lparr>s_cache = ?c, s_bg = Evicting 7, s_dirty = {} \<union> written demo_env (OpWriteAt 7 ''new'' 0) c1\<rparr>"
  have "sys_step demo_env demo_content ?init ?mid"
    using sys_step.pick_evict[OF c1(1), of demo_env demo_content "{}"] by simp
  then have r1: "reachable demo_env demo_content ?init ?mid"
    by (rule reachable.step[OF reachable.start])
  have "sys_step demo_env demo_content ?mid ?s"
    by (rule sys_step.client) simp
  then have r: "reachable demo_env demo_content ?init ?s"
    by (rule reachable.step[OF r1])
  have d: "s_dirty ?s = {7}"
    using demo_write[OF c1(2,3)] by simp
  have "c_db ?c = demo_db"
    using demo_write_db[OF c1(2,3)] c1(4) by simp
  then have "getLockedNodeWithIno demo_env 7 ?c = Ok (persist demo_node node0, pathKey demo_env ?c ''/a/b'')"
    using getLocked_stored[of demo_env ?c 7 "''/a/b''" "persist demo_node node0"] demo_db_store
    by (simp add: persist_def demo_node_def)
  then have n: "node_of demo_env 7 ?c = Ok (persist demo_node node0)"
    by (rule getLocked_node_of(1))
  obtain r' c' where e: "evictBody demo_env 7 (s_cache ?s) = (r', c')" by fastforce
  have "r' = Ok () \<and> c' = ?c"
    using evict_spares_dirty[OF demo_writes_ok r demo_init _ _ refl e] d n by simp
  with e r d show ?thesis
    by (intro exI[of _ ?s]) simp
qed

end
