(* ===== verification/Flush.thy ===== *)
theory Flush
  imports Interleave
begin

text \<open>
  The loops of the background work end, and a forced reset that reports no error leaves nothing to
  upload and nothing to evict.  The measure is the number of inodes in the queue: each successful step
  takes one out, and puts none back.
\<close>

named_theorems same_lru \<open>rules that a step leaves the queues as they are\<close>

lemma bindr_same_lru [same_lru]:
  assumes "c_lru (snd m) = l" "\<And>a c. m = (Ok a, c) \<Longrightarrow> c_lru c = l \<Longrightarrow> c_lru (snd (f a c)) = l"
  shows "c_lru (snd (bindr m f)) = l"
  using assms by (cases m; cases "fst m") (auto simp: bindr_def)

lemma on_same_lru [simp]:
  "c_lru (snd (on_db f c)) = c_lru c" "c_lru (snd (on_st g c)) = c_lru c"
  "c_lru (snd (on_os h c)) = c_lru c" "c_lru (snd (Update E u c)) = c_lru c"
  by (simp_all add: cache_frame Update_def)

lemma uploadWork_lru: "c_lru (snd (uploadWork E ino c)) = c_lru c"
  by (auto simp: uploadWork_def uploadFile_def uploadFinish_def case_prod_beta Let_def intro!: same_lru
      split: keep_splits)

lemma evictWork_lru: "c_lru (snd (evictWork E ino c)) = c_lru c"
  by (auto simp: evictWork_def case_prod_beta Let_def intro!: same_lru split: keep_splits)

subsection \<open>A step takes an inode out of its queue\<close>

lemma uploadBody_pending:
  assumes "lru_inv (c_lru c)" "uploadBody E ino c = (Ok (), c')"
  shows "pending c' = pending c"
proof -
  obtain tch c1 where c1: "uploadWork E ino c = ((Ok (), tch), c1)"
    "c' = (if tch then touch ino False c1 else c1)"
    using assms(2) by (auto simp: uploadBody_def case_prod_beta Let_def prod_eq_iff)
  have "c_lru c1 = c_lru c"
    using uploadWork_lru[of E ino c] c1(1) by simp
  then show ?thesis
    using c1(2) touch_pending(1)[of c1 ino False] assms(1) by (simp add: pending_def)
qed

lemma card_less: "finite Q \<Longrightarrow> ino \<in> Q \<Longrightarrow> card (Q - {ino}) < card Q"
  by (rule card_Diff1_less)

lemma uploadOne_Ok:
  assumes "lru_inv (c_lru c)" "uploadOne E force c = (Some (Ok ()), c')"
  shows "lru_inv (c_lru c')" "card (pending c') < card (pending c)"
proof -
  obtain ino c1 where c1: "pick True force c = (Some ino, c1)" "uploadBody E ino c1 = (Ok (), c')"
    using assms(2) by (auto simp: uploadOne_def Let_def split: prod.splits option.splits)
  have inv: "lru_inv (c_lru c1)"
    using pick_lru(1)[OF assms(1) c1(1)] .
  show "lru_inv (c_lru c')"
    using touched_pending(1)[OF inv] uploadBody_keeps[of c1 E ino] c1(2) by simp
  have "pending c' = pending c - {ino}" "ino \<in> pending c"
    using uploadBody_pending[OF inv c1(2)] pick_lru(2,3)[OF assms(1) c1(1)] by (simp_all add: pending_def)
  then show "card (pending c') < card (pending c)"
    using card_less[OF queues.finite_queue[OF assms(1), of True]] by (simp only: pending_def)
qed

lemma uploadOne_other:
  assumes "lru_inv (c_lru c)" "uploadOne E force c = (r, c')"
  shows "lru_inv (c_lru c')" "r = None \<Longrightarrow> force \<Longrightarrow> pending c' = {}"
proof -
  obtain i c1 where c1: "pick True force c = (i, c1)" by (cases "pick True force c")
  have inv: "lru_inv (c_lru c1)"
    using pick_lru(1)[OF assms(1) c1] .
  show "lru_inv (c_lru c')"
    using assms(2) c1 inv touched_pending(1)[OF inv uploadBody_keeps]
    by (auto simp: uploadOne_def case_prod_beta Let_def split: option.splits)
  show "r = None \<Longrightarrow> force \<Longrightarrow> pending c' = {}"
    using assms(2) c1 pick_lru(3,4)[OF assms(1) c1]
    by (auto simp: uploadOne_def pending_def case_prod_beta Let_def split: option.splits)
qed

lemma evictOne_step:
  assumes "lru_inv (c_lru c)" "evictOne E force c = (r, c')"
  shows "lru_inv (c_lru c')" "pending c' = pending c"
    "r = Some (Ok ()) \<Longrightarrow> card (queued False (c_lru c')) < card (queued False (c_lru c))"
    "r = None \<Longrightarrow> force \<Longrightarrow> queued False (c_lru c') = {}"
proof -
  obtain i c1 where c1: "pick False force c = (i, c1)" by (cases "pick False force c")
  note P = pick_lru[OF assms(1) c1]
  have body: "c_lru (snd (evictBody E ino c1)) = c_lru c1 \<or>
      (\<exists>t. c_lru (snd (evictBody E ino c1)) = touchIno t ino False (c_lru c1)) \<and>
      (\<exists>e. fst (evictBody E ino c1) = Err e)" for ino
    using evictWork_lru[of E ino c1]
    by (auto simp: evictBody_def touch_def case_prod_beta Let_def split: res.split)
  show "lru_inv (c_lru c')"
    using assms(2) c1 P(1) touched_pending(1)[OF P(1) evictBody_keeps]
    by (auto simp: evictOne_def case_prod_beta Let_def split: option.splits)
  show "pending c' = pending c"
    using assms(2) c1 P(3)[of True] body queues.pending_touch[OF P(1)]
    by (auto simp: evictOne_def pending_def case_prod_beta Let_def split: option.splits) (metis)+
  show "card (queued False (c_lru c')) < card (queued False (c_lru c))" if r: "r = Some (Ok ())"
  proof -
    obtain ino where ino: "i = Some ino" "evictBody E ino c1 = (Ok (), c')"
      using assms(2) c1 r by (auto simp: evictOne_def Let_def split: option.splits prod.splits)
    then have "c_lru c' = c_lru c1"
      using body[of ino] by auto
    then show ?thesis
      using P(2)[OF ino(1)] P(3)[of False] ino(1) card_less[OF queues.finite_queue[OF assms(1), of False]] by simp
  qed
  show "r = None \<Longrightarrow> force \<Longrightarrow> queued False (c_lru c') = {}"
    using assms(2) c1 P(3)[of False] P(4)
    by (auto simp: evictOne_def case_prod_beta Let_def split: option.splits)
qed

subsection \<open>The loops\<close>

lemma uploadAll_ends:
  "lru_inv (c_lru c) \<Longrightarrow> \<exists>r c'. uploadAll E force c = Some (r, c') \<and> lru_inv (c_lru c') \<and>
     (force \<longrightarrow> r = Ok () \<longrightarrow> pending c' = {})"
proof (induction "card (pending c)" arbitrary: c rule: less_induct)
  case less
  obtain r c1 where c1: "uploadOne E force c = (r, c1)" by (cases "uploadOne E force c")
  note other = uploadOne_other[OF less.prems c1]
  show ?case
  proof (cases "r = Some (Ok ())")
    case True
    then have "card (pending c1) < card (pending c)"
      using uploadOne_Ok(2)[OF less.prems, of E force c1] c1 by simp
    from less.hyps[OF this other(1)] True c1 show ?thesis
      by (subst uploadAll.simps) simp
  next
    case False
    with c1 other show ?thesis
      by (subst uploadAll.simps) (auto split: option.split res.split)
  qed
qed

lemma evictAll_ends:
  "lru_inv (c_lru c) \<Longrightarrow> \<exists>r c'. evictAll E force c = Some (r, c') \<and> lru_inv (c_lru c') \<and> pending c' = pending c \<and>
     (force \<longrightarrow> r = Ok () \<longrightarrow> queued False (c_lru c') = {})"
proof (induction "card (queued False (c_lru c))" arbitrary: c rule: less_induct)
  case less
  obtain r c1 where c1: "evictOne E force c = (r, c1)" by (cases "evictOne E force c")
  note step = evictOne_step[OF less.prems c1]
  show ?case
  proof (cases "r = Some (Ok ())")
    case True
    from less.hyps[OF step(3)[OF True] step(1)] True c1 step(2) show ?thesis
      by (subst evictAll.simps) simp
  next
    case False
    with c1 step(1,2,4) show ?thesis
      by (subst evictAll.simps) (auto split: option.split res.split)
  qed
qed

lemma resetCache_ends:
  assumes "lru_inv (c_lru c)"
  shows "\<exists>r c'. resetCache E wrap force c = Some (r, c') \<and> lru_inv (c_lru c') \<and>
    (force \<longrightarrow> r = Ok () \<longrightarrow> pending c' = {} \<and> queued False (c_lru c') = {})"
proof -
  obtain r c1 where c1: "uploadAll E force c = Some (r, c1)" "lru_inv (c_lru c1)" "force \<longrightarrow> r = Ok () \<longrightarrow> pending c1 = {}"
    using uploadAll_ends[OF assms, of E force] by blast
  obtain r' c2 where c2: "evictAll E force c1 = Some (r', c2)" "lru_inv (c_lru c2)" "pending c2 = pending c1"
    "force \<longrightarrow> r' = Ok () \<longrightarrow> queued False (c_lru c2) = {}"
    using evictAll_ends[OF c1(2), of E force] by blast
  show ?thesis
    using c1 c2 by (cases r; cases r') (auto simp: resetCache_def)
qed

lemma loop_ends:
  assumes "lru_inv (c_lru c)"
  shows "\<exists>r c'. loop E wrap (replicate n Tick @ Done # evs) c = Some (r, c') \<and> lru_inv (c_lru c')"
  using assms
proof (induction n arbitrary: c)
  case (Suc n)
  obtain r c1 where c1: "resetCache E wrap False c = Some (r, c1)" "lru_inv (c_lru c1)"
    using resetCache_ends[OF Suc.prems, of E wrap False] by blast
  from Suc.IH[OF c1(2)] c1 show ?case
    by (cases r) auto
qed simp

subsection \<open>Properties\<close>

text \<open>
  C8. The loops of the background work end: whatever the storage, the database and the disk do,
  \<^verbatim>\<open>uploadAll\<close> and \<^verbatim>\<open>evictAll\<close> return from every state with consistent queues, and the goroutine of an active cache, after
  any number of ticks, takes the signal to stop and ends with consistent queues.
\<close>

theorem background_terminates:
  assumes "lru_inv (c_lru c)"
  shows "(\<exists>r c'. uploadAll E force c = Some (r, c')) \<and> (\<exists>r c'. evictAll E force c = Some (r, c')) \<and>
    (\<exists>r c'. loop E wrap (replicate n Tick @ Done # evs) c = Some (r, c') \<and> lru_inv (c_lru c'))"
  using uploadAll_ends[OF assms, of E force] evictAll_ends[OF assms, of E force] loop_ends[OF assms] by blast

theorem background_terminates_witness:
  "(\<exists>r c'. uploadAll demo_env True demo_cache = Some (r, c')) \<and>
   (\<exists>r c'. evictAll demo_env True demo_cache = Some (r, c')) \<and>
   (\<exists>r c'. loop demo_env (\<lambda>e. e) (replicate 5 Tick @ Done # []) demo_cache = Some (r, c') \<and> lru_inv (c_lru c'))"
  by (rule background_terminates) (simp add: queues.inv_touch[OF lru_inv_new])

text \<open>
  C7. A forced reset flushes the cache: \<^verbatim>\<open>ResetCache\<close> returns, and if it reports no error then no inode
  awaits upload and none awaits eviction any more.  This is what \<^verbatim>\<open>CloseCache\<close> relies on before it
  closes the database.
\<close>

theorem reset_flushes:
  assumes "lru_inv (c_lru c)"
  shows "\<exists>r c'. ResetCache E wrap c = Some (r, c') \<and>
    (r = Ok () \<longrightarrow> pending c' = {} \<and> queued False (c_lru c') = {})"
  using resetCache_ends[OF assms, of E wrap True] by (auto simp: ResetCache_def)

theorem reset_flushes_witness:
  "\<exists>r c'. ResetCache demo_env (\<lambda>e. e) demo_cache = Some (r, c') \<and>
     (r = Ok () \<longrightarrow> pending c' = {} \<and> queued False (c_lru c') = {})"
  by (rule reset_flushes) (simp add: queues.inv_touch[OF lru_inv_new])

end
