(* ===== verification/Upload.thy ===== *)
theory Upload
  imports Flush
begin

text \<open>
  What a successful upload has done: the object has the bytes of the local file, the stored node has
  the hash of those bytes, and the inode waits for its eviction.
\<close>

text \<open>
  The information a storage returns fits the format of a stored node; and the failures of the
  operating system are not reported as a missing file, which the upload takes for an evicted one.
\<close>

definition info_fits :: "ObjectInfo \<Rightarrow> bool" where
  "info_fits i \<longleftrightarrow> length (oi_Sig i) < 2 ^ 16 \<and> int64_time (oi_Btime i) \<and> int64_time (oi_Mtime i)"

definition waits_fit :: "'s storage \<Rightarrow> bool" where
  "waits_fit S \<longleftrightarrow> (\<forall>w s i s'. wr_Wait S w s = (Ok i, s') \<longrightarrow> info_fits i)"

definition faults_plain :: "osstate \<Rightarrow> bool" where
  "faults_plain w \<longleftrightarrow> (\<forall>i k. os_fault w i \<noteq> Some (k, OsErr NotExist))"

subsection \<open>Taking a step apart\<close>

lemma openFile_existing:
  assumes "fmlookup (os_files w) p = Some f" "faults_plain w" "openFile p w = (r, w')"
  shows "w' = os_tick w" "r = Ok f \<or> (\<exists>e. r = Err e \<and> \<not> os_IsNotExist e)"
  using assms
  by (auto simp: openFile_def os_fails_def faults_plain_def os_IsNotExist_def split: option.splits)

lemma encodable_uploaded:
  "encodable n \<Longrightarrow> info_fits i \<Longrightarrow> length h < 2 ^ 8 \<Longrightarrow> encodable ((CopyStat i n)\<lparr>Hash := h\<rparr>)"
  by (simp add: encodable_def info_fits_def CopyStat_def bad_node_def)

subsection \<open>The upload of a file\<close>

definition uploaded :: "node \<Rightarrow> ObjectInfo \<Rightarrow> bytes \<Rightarrow> node" where
  "uploaded n i h = persist ((CopyStat i n)\<lparr>Hash := h\<rparr>) node0"

lemma uploadFinish_Ok:
  assumes "uploadFinish E ino n k b info c = (Ok (), c')" "bolt_ok (e_bolt E)"
    and "encodable n" "info_fits info" "length (e_sha256 E b) < 2 ^ 8"
  shows "c_st c' = c_st c \<and> cat (e_bolt E) (c_db c') k = Some (uploaded n info (e_sha256 E b))"
proof -
  let ?m = "(CopyStat info n)\<lparr>Hash := e_sha256 E b\<rparr>"
  obtain w d where w: "db_Update (e_bolt E) (\<lambda>d. node_Put (e_bolt E) ?m k d) (c_db c) = (Ok (), d)"
    and c': "c' = upd_node ino (\<lambda>m. (CopyStat info m)\<lparr>Hash := e_sha256 E b\<rparr>) (c\<lparr>c_os := w, c_db := d\<rparr>)"
    using assms(1) by (fastforce simp: uploadFinish_def Let_def elim!: bindr_OkE on_osE UpdateE)
  obtain d1 where d1: "node_Put (e_bolt E) ?m k (c_db c) = (Ok (), d1)" "same_view (e_bolt E) d1 d"
    using db_Update_OkE[OF assms(2) w] by blast
  show ?thesis
    using node_Put_spec(1)[OF assms(2) encodable_uploaded[OF assms(3-5)] d1(1)] same_view_store(1)[OF d1(2)] c'
    by (simp add: uploaded_def)
qed

lemma uploadFile_Ok:
  assumes "uploadFile E ino n k f c = (Ok (), c')" "writes_ok (e_storage E) pnd content" "bolt_ok (e_bolt E)"
    and "waits_fit (e_storage E)" "encodable n" "\<And>b. length (e_sha256 E b) < 2 ^ 8"
    and b: "b = fd_bytes (os_data (c_os c) f)"
  shows "content (c_st c') (Path n) = Some b \<and>
    (\<exists>info. oi_Size info = of_nat (length b) \<and> cat (e_bolt E) (c_db c') k = Some (uploaded n info (e_sha256 E b)))"
proof -
  obtain w s0 s info v c2 where w: "wr_Wait (e_storage E) w s0 = (Ok info, s)"
    and size: "oi_Size info = of_nat (length b)"
    and fin: "uploadFinish E ino n k b info (c\<lparr>c_os := v, c_st := s\<rparr>) = (Ok (), c2)"
    and db: "c_db c' = c_db c2" and stored: "content (c_st c') (Path n) = Some b"
    by (rule uploadFile_OkE[OF assms(1,2) b])
  have "info_fits info"
    using assms(4) w by (auto simp: waits_fit_def)
  from uploadFinish_Ok[OF fin assms(3,5) this assms(6)] show ?thesis
    using size db stored by auto
qed

lemma uploadWork_Ok:
  assumes "uploadWork E ino c = ((Ok (), tch), c')" "getLockedNodeWithIno E ino c = Ok (n, k)" "\<not> Deleted n"
    and "lru_inv (c_lru c)" "ino \<notin> pending c" "faults_plain (c_os c)"
    and "fmlookup (os_files (c_os c)) (filePath (c_path c) ino) = Some f"
  shows "tch" "uploadFile E ino n k f (c\<lparr>c_os := os_tick (c_os c)\<rparr>) = (Ok (), c')"
proof -
  have q: "fmlookup (rwmap (c_lru c)) ino = None"
    using assms(4,5) by (simp add: pending_def queued_iff qmap_def)
  obtain r w where o: "openFile (filePath (c_path c) ino) (c_os c) = (r, w)" by fastforce
  note w = openFile_existing[OF assms(7,6) o]
  have "tch \<and> uploadFile E ino n k f (c\<lparr>c_os := os_tick (c_os c)\<rparr>) = (Ok (), c')"
    using w assms(1-3) q o
    by (auto simp: uploadWork_def on_os_def split: res.splits prod.splits if_splits)
  then show "tch" "uploadFile E ino n k f (c\<lparr>c_os := os_tick (c_os c)\<rparr>) = (Ok (), c')" by auto
qed

text \<open>
  C2. A successful upload has stored the file: when the background thread works on an inode that was
  not written to again, whose node and local file are there, and reports success, then the object has
  exactly the bytes of the local file, the node of the path keeps its path and inode and has the hash
  and the number of those bytes, and the inode is queued for eviction and not for upload.
\<close>

theorem upload_stores_file:
  assumes "writes_ok (e_storage E) pnd content" "waits_fit (e_storage E)" "bolt_ok (e_bolt E)"
    and "\<And>b. length (e_sha256 E b) < 2 ^ 8" "faults_plain (c_os c)" "lru_inv (c_lru c)"
    and "getLockedNodeWithIno E ino c = Ok (n, k)" "encodable n" "\<not> Deleted n" "ino \<notin> pending c"
    and "fmlookup (os_files (c_os c)) (filePath (c_path c) ino) = Some f"
    and "uploadBody E ino c = (Ok (), c')" and "b = fd_bytes (os_data (c_os c) f)"
  shows "content (c_st c') (Path n) = Some b \<and>
    (\<exists>m. cat (e_bolt E) (c_db c') k = Some m \<and> Path m = Path n \<and> Ino m = Ino n \<and>
         Hash m = e_sha256 E b \<and> Size m = of_nat (length b)) \<and>
    ino \<notin> pending c' \<and> ino \<in> queued False (c_lru c')"
proof -
  obtain tch c1 where c1: "uploadWork E ino c = ((Ok (), tch), c1)" "c' = (if tch then touch ino False c1 else c1)"
    using assms(12) by (auto simp: uploadBody_def Let_def split: prod.splits)
  note up = uploadWork_Ok[OF c1(1) assms(7,9,6,10,5,11)]
  have c': "c' = touch ino False c1"
    using up(1) c1(2) by simp
  have b: "b = fd_bytes (os_data (c_os (c\<lparr>c_os := os_tick (c_os c)\<rparr>)) f)"
    using assms(13) by simp
  note stored = uploadFile_Ok[OF up(2) assms(1,3,2,8,4) b]
  have "c_lru c1 = c_lru c"
    using uploadWork_lru[of E ino c] c1(1) by simp
  then have "ino \<notin> pending c' \<and> ino \<in> queued False (c_lru c')"
    using assms(6,10) touch_pending(1)[of c1 ino False]
    by (simp add: c' pending_def touch_def queues.evictable_touch case_prod_beta Let_def)
  then show ?thesis
    using stored by (auto simp: c' uploaded_def persist_def CopyStat_def)
qed

lemma queued_new: "queued rw lru_new = {}"
  by (simp add: queued_def lru_new_def qmap_def)

lemma demo_laws:
  "writes_ok (e_storage demo_env) ms_writers (\<lambda>s. fmlookup (ms_objects s))" "waits_fit (e_storage demo_env)"
  "bolt_ok (e_bolt demo_env)" "length (e_sha256 demo_env b) < 2 ^ 8"
  using mem_writes_ok mem_bolt_ok
  by (auto simp: waits_fit_def info_fits_def mem_storage_def mem_info_def int64_time_def split: option.splits)

lemma demo_locked: "getLockedNodeWithIno demo_env 7 demo_cache = Ok (persist demo_node node0, ''/a/b'')"
  using getLocked_stored[of demo_env demo_cache 7 "''/a/b''" "persist demo_node node0"] demo_db_store
  by (simp add: mem_bolt_def pathKey_def persist_def demo_node_def)

lemma mem_Update_Put:
  assumes "\<not> bad_node m" "k \<noteq> []"
  shows "\<exists>d'. db_Update mem_bolt (\<lambda>d. node_Put mem_bolt m k d) d = (Ok (), d')"
  using mem_Put[OF assms, of d] by (auto simp: db_Update_def mem_bolt_def)

lemma demo_upload: "\<exists>c'. uploadBody demo_env 7 demo_cache = (Ok (), c')"
proof -
  have w: "copy_upload mem_storage 0 0 3 [] c =
      (Ok ''old'', c\<lparr>c_os := os_tick (c_os c), c_st := (c_st c)\<lparr>ms_writers := (ms_writers (c_st c))(0 := Some (p, ''old''))\<rparr>\<rparr>)"
    if "ms_writers (c_st c) 0 = Some (p, [])" "os_fault (c_os c) = (\<lambda>_. None)" "os_data (c_os c) = os_data demo_os"
    for c :: "(memdb, memstore) cache" and p
    using that
    by (simp add: copy_upload.simps on_os_def on_st_def file_Read_def os_fails_def demo_os_def bindr_def)
  have u: "fst (uploadFinish demo_env 7 (persist demo_node node0) ''/a/b'' b i c) = Ok ()"
    if "os_fault (c_os c) = (\<lambda>_. None)" "os_files (c_os c) = os_files demo_os" "c_path c = ''/c''" for b i c
  proof -
    let ?m = "(CopyStat i (persist demo_node node0))\<lparr>Hash := take 32 b\<rparr>"
    have "\<not> bad_node ?m"
      by (simp add: bad_node_def CopyStat_def persist_def demo_node_def node0_def)
    from mem_Update_Put[OF this, of "''/a/b''" "c_db c"] that show ?thesis
      by (auto simp: uploadFinish_def on_os_def os_Chtimes_def os_fails_def Update_def on_db_def demo_os_def Let_def)
  qed
  have "fst (uploadFile demo_env 7 (persist demo_node node0) ''/a/b'' 0 (demo_cache\<lparr>c_os := os_tick demo_os\<rparr>)) = Ok ()"
    by (simp add: uploadFile_def on_os_def file_Stat_def os_fails_def on_st_def Let_def)
      (simp add: demo_os_def w u memstore0_def os_tick_def case_prod_beta)
  then have "fst (uploadBody demo_env 7 demo_cache) = Ok ()"
    by (simp add: uploadBody_def uploadWork_def demo_locked on_os_def openFile_def os_fails_def demo_os_def
        persist_def node0_def os_tick_def case_prod_beta Let_def)
  then show ?thesis
    by (metis prod.collapse)
qed

theorem upload_stores_file_witness:
  "\<exists>c'. uploadBody demo_env 7 demo_cache = (Ok (), c') \<and> fmlookup (ms_objects (c_st c')) ''/a/b'' = Some ''old'' \<and>
        (\<exists>m. cat mem_bolt (c_db c') ''/a/b'' = Some m \<and> Hash m = ''old'') \<and> 7 \<in> queued False (c_lru c')"
proof -
  obtain c' where c': "uploadBody demo_env 7 demo_cache = (Ok (), c')"
    using demo_upload by blast
  have l: "lru_inv (c_lru demo_cache)" "7 \<notin> pending demo_cache"
    using queues.inv_touch[OF lru_inv_new] queues.pending_touch[OF lru_inv_new]
    by (simp_all add: pending_def queued_new)
  have n: "encodable (persist demo_node node0)" "\<not> Deleted (persist demo_node node0)"
    "Path (persist demo_node node0) = ''/a/b''"
    by (simp_all add: encodable_def demo_node_def persist_def node0_def bad_node_def int64_time_def)
  have w: "faults_plain (c_os demo_cache)" "fmlookup (os_files (c_os demo_cache)) (filePath (c_path demo_cache) 7) = Some 0"
    "''old'' = fd_bytes (os_data (c_os demo_cache) 0)"
    by (simp_all add: faults_plain_def demo_os_def)
  from upload_stores_file[OF demo_laws w(1) l(1) demo_locked n(1,2) l(2) w(2) c' w(3)] c' show ?thesis
    by (auto simp: n(3))
qed

end
