(* ===== verification/ObjFs.thy ===== *)
theory ObjFs
  imports Upload
begin

text \<open>
  The file system that FUSE calls (\<^verbatim>\<open>src/fs/objfs/objfs.go\<close>, \<^verbatim>\<open>src/fs/mount.go\<close>): one definition per method of
  \<^verbatim>\<open>objfs\<close>, over the operations of the cache.

  A method returns a number that is negative for an error.  \<^const>\<open>None\<close> is a call that does not return:
  the search of \<^verbatim>\<open>ErrnoFromErr\<close> along the causes of an error, and the listing of a directory, may not
  end.  The constants of the FUSE library, its \<^verbatim>\<open>NewTimespec\<close>, the user and the operating system are
  arguments (\<open>fuse\<close>).  The file handle that FUSE passes is the inode number.  A \<^verbatim>\<open>defer\<close> of \<^verbatim>\<open>Close\<close> runs after
  the body whatever it returns.
\<close>

record fuse =
  fuse_const :: "errno \<Rightarrow> int"
  fuse_S_IFREG :: u32
  fuse_S_IFDIR :: u32
  fuse_NewTimespec :: "gotime \<Rightarrow> i64 \<times> i64"
  startUid :: u32
  startGid :: u32
  onWindows :: bool

text \<open>The fields of \<^verbatim>\<open>fuse.Statfs_t\<close> and \<^verbatim>\<open>fuse.Stat_t\<close> that are set; the others stay zero.\<close>

record Statfs_t =
  sf_Bsize :: u64
  sf_Frsize :: u64
  sf_Blocks :: u64
  sf_Bfree :: u64
  sf_Bavail :: u64
  sf_Namemax :: u64

definition CopyFusestatfsFromStorageInfo :: "StorageInfo \<Rightarrow> Statfs_t" where
  "CopyFusestatfsFromStorageInfo src =
     (let frsize = 4096; bfree = si_FreeSize src div frsize
      in \<lparr>sf_Bsize = frsize, sf_Frsize = frsize, sf_Blocks = si_TotalSize src div frsize, sf_Bfree = bfree,
          sf_Bavail = bfree, sf_Namemax = word_of_int (si_MaxComponentLength src)\<rparr>)"

record Stat_t =
  sx_Mode :: u32
  sx_Nlink :: u32
  sx_Uid :: u32
  sx_Gid :: u32
  sx_Size :: i64
  sx_Atim :: "i64 \<times> i64"
  sx_Mtim :: "i64 \<times> i64"
  sx_Ctim :: "i64 \<times> i64"
  sx_Birthtim :: "i64 \<times> i64"

definition CopyFusestatFromObjectInfo :: "fuse \<Rightarrow> ObjectInfo \<Rightarrow> Stat_t" where
  "CopyFusestatFromObjectInfo F src =
     (let mtim = fuse_NewTimespec F (oi_Mtime src)
      in \<lparr>sx_Mode = (if oi_IsDir src then fuse_S_IFDIR F OR 0x1C0 else fuse_S_IFREG F OR 0x180), sx_Nlink = 1,
          sx_Uid = startUid F, sx_Gid = startGid F, sx_Size = oi_Size src, sx_Atim = mtim, sx_Mtim = mtim,
          sx_Ctim = mtim, sx_Birthtim = fuse_NewTimespec F (oi_Btime src)\<rparr>)"

type_synonym ('a, 'c) reply = "('a res \<times> 'c) option"

text \<open>Returning an error code, and the value of a call of the cache.\<close>

definition errc :: "fuse \<Rightarrow> ('d, 's) env \<Rightarrow> error \<Rightarrow> ('d, 's) cache \<Rightarrow> (int, ('d, 's) cache) reply" where
  "errc F E e c = map_option (\<lambda>rc. (Ok rc, c)) (FuseErrc (e_golib E) (fuse_const F) (Some e))"

definition reply ::
  "fuse \<Rightarrow> ('d, 's) env \<Rightarrow> ('a \<Rightarrow> int) \<Rightarrow> 'a res \<times> ('d, 's) cache \<Rightarrow> (int, ('d, 's) cache) reply" where
  "reply F E f r =
     (case r of
        (Ok a, c) \<Rightarrow> Some (Ok (f a), c)
      | (Err e, c) \<Rightarrow> errc F E e c
      | (Panic q, c) \<Rightarrow> Some (Panic q, c))"

text \<open>The calls that return a value beside their error.\<close>

definition flat :: "('a \<times> error option) res \<times> 'c \<Rightarrow> 'a res \<times> 'c" where
  "flat r =
     (case r of
        (Ok (a, None), c) \<Rightarrow> (Ok a, c)
      | (Ok (_, Some e), c) \<Rightarrow> (Err e, c)
      | (Err e, c) \<Rightarrow> (Err e, c)
      | (Panic q, c) \<Rightarrow> (Panic q, c))"

text \<open>\<^verbatim>\<open>defer self.cache.Close(ino)\<close>.\<close>

definition deferClose ::
  "('d, 's) env \<Rightarrow> u64 \<Rightarrow> ('a, ('d, 's) cache) reply \<Rightarrow> ('a, ('d, 's) cache) reply" where
  "deferClose E ino r =
     (case r of
        None \<Rightarrow> None
      | Some (r, c) \<Rightarrow>
          Some (case Close E ino c of (Panic q, c) \<Rightarrow> (Panic q, c) | (_, c) \<Rightarrow> (r, c)))"

text \<open>Opening a path, closing it at the end.\<close>

definition with_path ::
  "fuse \<Rightarrow> ('d, 's) env \<Rightarrow> gostring \<Rightarrow> (u64 \<Rightarrow> ('d, 's) cache \<Rightarrow> (int, ('d, 's) cache) reply) \<Rightarrow>
     ('d, 's) cache \<Rightarrow> (int, ('d, 's) cache) reply" where
  "with_path F E path body c =
     (case Open E path c of
        (Err e, c) \<Rightarrow> errc F E e c
      | (Panic q, c) \<Rightarrow> Some (Panic q, c)
      | (Ok ino, c) \<Rightarrow> deferClose E ino (body ino c))"

definition no_handle :: u64 where
  "no_handle = NOT 0"

subsubsection \<open>The methods\<close>

definition fs_Statfs ::
  "fuse \<Rightarrow> ('d, 's) env \<Rightarrow> ('d, 's) cache \<Rightarrow> (int \<times> Statfs_t option, ('d, 's) cache) reply" where
  "fs_Statfs F E c =
     (case Statfs E c of
        (Ok info, c) \<Rightarrow> Some (Ok (0, Some (CopyFusestatfsFromStorageInfo info)), c)
      | (Err e, c) \<Rightarrow> map_option (\<lambda>rc. (Ok (rc, None), c)) (FuseErrc (e_golib E) (fuse_const F) (Some e))
      | (Panic q, c) \<Rightarrow> Some (Panic q, c))"

definition fs_Mkdir ::
  "fuse \<Rightarrow> ('d, 's) env \<Rightarrow> gostring \<Rightarrow> ('d, 's) cache \<Rightarrow> (int, ('d, 's) cache) reply" where
  "fs_Mkdir F E path c = with_path F E path (\<lambda>ino c. reply F E (\<lambda>_. 0) (Make E ino True c)) c"

definition fs_Unlink ::
  "fuse \<Rightarrow> ('d, 's) env \<Rightarrow> gostring \<Rightarrow> ('d, 's) cache \<Rightarrow> (int, ('d, 's) cache) reply" where
  "fs_Unlink F E path c = with_path F E path (\<lambda>ino c. reply F E (\<lambda>_. 0) (Remove E ino False c)) c"

definition fs_Rmdir ::
  "fuse \<Rightarrow> ('d, 's) env \<Rightarrow> gostring \<Rightarrow> ('d, 's) cache \<Rightarrow> (int, ('d, 's) cache) reply" where
  "fs_Rmdir F E path c = with_path F E path (\<lambda>ino c. reply F E (\<lambda>_. 0) (Remove E ino True c)) c"

definition fs_Rename ::
  "fuse \<Rightarrow> ('d, 's) env \<Rightarrow> gostring \<Rightarrow> gostring \<Rightarrow> ('d, 's) cache \<Rightarrow> (int, ('d, 's) cache) reply" where
  "fs_Rename F E oldpath newpath c =
     with_path F E oldpath (\<lambda>ino c. reply F E (\<lambda>_. 0) (Rename E ino newpath c)) c"

definition fs_Utimens :: "fuse \<Rightarrow> ('d, 's) cache \<Rightarrow> (int, ('d, 's) cache) reply" where
  "fs_Utimens F c = Some (Ok (- fuse_const F ENOSYS), c)"

text \<open>\<^verbatim>\<open>Create\<close>, \<^verbatim>\<open>Open\<close> and \<^verbatim>\<open>Opendir\<close> return a handle, which stays open on success.\<close>

definition handle ::
  "fuse \<Rightarrow> ('d, 's) env \<Rightarrow> u64 \<Rightarrow> 'a res \<times> ('d, 's) cache \<Rightarrow> (int \<times> u64, ('d, 's) cache) reply" where
  "handle F E ino r =
     (case r of
        (Ok _, c) \<Rightarrow> Some (Ok (0, ino), c)
      | (Err e, c) \<Rightarrow>
          (case Close E ino c of
             (Panic q, c) \<Rightarrow> Some (Panic q, c)
           | (_, c) \<Rightarrow> map_option (\<lambda>rc. (Ok (rc, no_handle), c)) (FuseErrc (e_golib E) (fuse_const F) (Some e)))
      | (Panic q, c) \<Rightarrow> Some (Panic q, c))"

definition open_handle ::
  "fuse \<Rightarrow> ('d, 's) env \<Rightarrow> gostring \<Rightarrow> (u64 \<Rightarrow> ('d, 's) cache \<Rightarrow> 'a res \<times> ('d, 's) cache) \<Rightarrow> ('d, 's) cache \<Rightarrow>
     (int \<times> u64, ('d, 's) cache) reply" where
  "open_handle F E path f c =
     (case Open E path c of
        (Err e, c) \<Rightarrow> map_option (\<lambda>rc. (Ok (rc, no_handle), c)) (FuseErrc (e_golib E) (fuse_const F) (Some e))
      | (Panic q, c) \<Rightarrow> Some (Panic q, c)
      | (Ok ino, c) \<Rightarrow> handle F E ino (f ino c))"

definition fs_Create ::
  "fuse \<Rightarrow> ('d, 's) env \<Rightarrow> gostring \<Rightarrow> ('d, 's) cache \<Rightarrow> (int \<times> u64, ('d, 's) cache) reply" where
  "fs_Create F E path c = open_handle F E path (\<lambda>ino c. Make E ino False c) c"

definition fs_Open ::
  "fuse \<Rightarrow> ('d, 's) env \<Rightarrow> gostring \<Rightarrow> ('d, 's) cache \<Rightarrow> (int \<times> u64, ('d, 's) cache) reply" where
  "fs_Open F E path c = open_handle F E path (\<lambda>ino c. Stat E ino c) c"

definition fs_Opendir ::
  "fuse \<Rightarrow> ('d, 's) env \<Rightarrow> gostring \<Rightarrow> ('d, 's) cache \<Rightarrow> (int \<times> u64, ('d, 's) cache) reply" where
  "fs_Opendir F E path c = open_handle F E path (\<lambda>ino c. Stat E ino c) c"

text \<open>\<^verbatim>\<open>Getattr\<close> and \<^verbatim>\<open>Truncate\<close> open the path when they get no handle.\<close>

definition getattr_ino ::
  "fuse \<Rightarrow> ('d, 's) env \<Rightarrow> u64 \<Rightarrow> ('d, 's) cache \<Rightarrow> (int \<times> Stat_t option, ('d, 's) cache) reply" where
  "getattr_ino F E ino c =
     (case Stat E ino c of
        (Ok info, c) \<Rightarrow> Some (Ok (0, Some (CopyFusestatFromObjectInfo F info)), c)
      | (Err e, c) \<Rightarrow> map_option (\<lambda>rc. (Ok (rc, None), c)) (FuseErrc (e_golib E) (fuse_const F) (Some e))
      | (Panic q, c) \<Rightarrow> Some (Panic q, c))"

definition fs_Getattr ::
  "fuse \<Rightarrow> ('d, 's) env \<Rightarrow> gostring \<Rightarrow> u64 \<Rightarrow> ('d, 's) cache \<Rightarrow> (int \<times> Stat_t option, ('d, 's) cache) reply" where
  "fs_Getattr F E path ino c =
     (if no_handle = ino then
        (case Open E path c of
           (Err e, c) \<Rightarrow> map_option (\<lambda>rc. (Ok (rc, None), c)) (FuseErrc (e_golib E) (fuse_const F) (Some e))
         | (Panic q, c) \<Rightarrow> Some (Panic q, c)
         | (Ok ino, c) \<Rightarrow> deferClose E ino (getattr_ino F E ino c))
      else getattr_ino F E ino c)"

definition fs_Truncate ::
  "fuse \<Rightarrow> ('d, 's) env \<Rightarrow> gostring \<Rightarrow> i64 \<Rightarrow> u64 \<Rightarrow> ('d, 's) cache \<Rightarrow> (int, ('d, 's) cache) reply" where
  "fs_Truncate F E path sz ino c =
     (if no_handle = ino
      then with_path F E path (\<lambda>ino c. reply F E (\<lambda>_. 0) (flat (Truncate E ino sz c))) c
      else reply F E (\<lambda>_. 0) (flat (Truncate E ino sz c)))"

text \<open>\<^verbatim>\<open>Read\<close> returns the number of bytes and fills the buffer; the end of the file is not an error.\<close>

definition fs_Read ::
  "fuse \<Rightarrow> ('d, 's) env \<Rightarrow> nat \<Rightarrow> i64 \<Rightarrow> u64 \<Rightarrow> ('d, 's) cache \<Rightarrow> (int \<times> bytes, ('d, 's) cache) reply" where
  "fs_Read F E len ofst ino c =
     (case ReadAt E ino len ofst c of
        (Ok (got, err), c) \<Rightarrow>
          (case err of
             None \<Rightarrow> Some (Ok (int (length got), got), c)
           | Some e \<Rightarrow>
               if e = ErrEOF then Some (Ok (int (length got), got), c)
               else map_option (\<lambda>rc. (Ok (rc, got), c)) (FuseErrc (e_golib E) (fuse_const F) (Some e)))
      | (Err e, c) \<Rightarrow>
          if e = ErrEOF then Some (Ok (0, []), c)
          else map_option (\<lambda>rc. (Ok (rc, []), c)) (FuseErrc (e_golib E) (fuse_const F) (Some e))
      | (Panic q, c) \<Rightarrow> Some (Panic q, c))"

definition fs_Write ::
  "fuse \<Rightarrow> ('d, 's) env \<Rightarrow> bytes \<Rightarrow> i64 \<Rightarrow> u64 \<Rightarrow> ('d, 's) cache \<Rightarrow> (int, ('d, 's) cache) reply" where
  "fs_Write F E buf ofst ino c = reply F E int (flat (WriteAt E ino buf ofst c))"

definition fs_Release ::
  "fuse \<Rightarrow> ('d, 's) env \<Rightarrow> u64 \<Rightarrow> ('d, 's) cache \<Rightarrow> (int, ('d, 's) cache) reply" where
  "fs_Release F E ino c = reply F E (\<lambda>_. 0) (Close E ino c)"

definition fs_Fsync ::
  "fuse \<Rightarrow> ('d, 's) env \<Rightarrow> u64 \<Rightarrow> ('d, 's) cache \<Rightarrow> (int, ('d, 's) cache) reply" where
  "fs_Fsync F E ino c = reply F E (\<lambda>_. 0) (flat (Sync E ino c))"

definition fs_Releasedir ::
  "fuse \<Rightarrow> ('d, 's) env \<Rightarrow> u64 \<Rightarrow> ('d, 's) cache \<Rightarrow> (int, ('d, 's) cache) reply" where
  "fs_Releasedir F E ino c = reply F E (\<lambda>_. 0) (Close E ino c)"

text \<open>\<^verbatim>\<open>Readdir\<close>: the callback \<^verbatim>\<open>fill\<close> takes an entry and says whether there is room for more.\<close>

fun fill_infos :: "fuse \<Rightarrow> (gostring \<Rightarrow> Stat_t option \<Rightarrow> 'f \<Rightarrow> bool \<times> 'f) \<Rightarrow> ObjectInfo list \<Rightarrow> 'f \<Rightarrow> 'f" where
  "fill_infos F fill [] f = f"
| "fill_infos F fill (info # infos) f =
     (case fill (oi_Name info) (Some (CopyFusestatFromObjectInfo F info)) f of
        (True, f) \<Rightarrow> fill_infos F fill infos f
      | (False, f) \<Rightarrow> f)"

definition fs_Readdir ::
  "fuse \<Rightarrow> ('d, 's) env \<Rightarrow> gostring \<Rightarrow> (gostring \<Rightarrow> Stat_t option \<Rightarrow> 'f \<Rightarrow> bool \<times> 'f) \<Rightarrow> u64 \<Rightarrow> 'f \<Rightarrow>
     ('d, 's) cache \<Rightarrow> (int \<times> 'f, ('d, 's) cache) reply" where
  "fs_Readdir F E path fill ino f c =
     (case Readdir E ino 0 c of
        None \<Rightarrow> None
      | Some (Err e, c) \<Rightarrow> map_option (\<lambda>rc. (Ok (rc, f), c)) (FuseErrc (e_golib E) (fuse_const F) (Some e))
      | Some (Panic q, c) \<Rightarrow> Some (Panic q, c)
      | Some (Ok infos, c) \<Rightarrow>
          (let f = (if \<not> onWindows F \<or> ''/'' \<noteq> path
                    then snd (fill ''..'' None (snd (fill ''.'' None f))) else f)
           in Some (Ok (0, fill_infos F fill infos f), c)))"

definition fs_Xattr :: "fuse \<Rightarrow> ('d, 's) cache \<Rightarrow> (int, ('d, 's) cache) reply" where
  "fs_Xattr F c = Some (Ok (- fuse_const F EPERM), c)"

definition fs_IsCaseInsensitive :: "('d, 's) env \<Rightarrow> ('d, 's) cache \<Rightarrow> bool res \<times> ('d, 's) cache" where
  "fs_IsCaseInsensitive E c =
     (case on_st (st_Info (e_storage E) False) c of
        (Ok info, c) \<Rightarrow> (Ok (si_IsCaseInsensitive info), c)
      | (Err _, c) \<Rightarrow> (Ok False, c)
      | (Panic q, c) \<Rightarrow> (Panic q, c))"


subsection \<open>The references to open nodes\<close>

definition refs :: "('d, 's) cache \<Rightarrow> u64 \<rightharpoonup> int" where
  "refs c = (\<lambda>h. map_option refcnt (fmlookup (c_openmap c) h))"

named_theorems same_refs \<open>rules that a step leaves the reference counts as they are\<close>

lemma bindr_same_refs [same_refs]:
  assumes "refs (snd m) = r" "\<And>a c. m = (Ok a, c) \<Longrightarrow> refs c = r \<Longrightarrow> refs (snd (f a c)) = r"
  shows "refs (snd (bindr m f)) = r"
  using assms by (cases m; cases "fst m") (auto simp: bindr_def)

lemma refs_frame [simp]:
  "refs (snd (on_db f c)) = refs c" "refs (snd (on_st g c)) = refs c" "refs (snd (on_os h c)) = refs c"
  "refs (snd (Update E u c)) = refs c" "refs (snd (time_now c)) = refs c"
  "refs (snd (neg_has k c)) = refs c" "refs (neg_add k c) = refs c" "refs (neg_remove k c) = refs c"
  "refs (neg_removeAll k c) = refs c" "refs (snd (dir_has k c)) = refs c" "refs (dir_add k c) = refs c"
  "refs (close_writer S w c) = refs c" "refs (touch ino rw c) = refs c" "refs (snd (fetch_object E p sig sz f' c)) = refs c"
  "refs (snd (readNodeFromStorage E n sz c)) = refs c"
  by (simp_all add: refs_def)

lemma upd_node_refs [simp]:
  assumes "\<And>n. refcnt (f n) = refcnt n"
  shows "refs (upd_node h f c) = refs c"
  using assms by (auto simp: refs_def upd_node_def fun_eq_iff split: option.split)

lemma with_open_refs [same_refs]: "refs (snd (op c)) = refs c \<Longrightarrow> refs (snd (with_open ino op c)) = refs c"
  by (simp add: with_open_def split: option.split)

lemma statNodeNoLock_refs [simp]: "refs (snd (statNodeNoLock E h k c)) = refs c"
  by (auto simp: statNodeNoLock_def case_prod_beta Let_def intro!: same_refs split: keep_splits)

lemma Stat_refs: "refs (snd (Stat E i c)) = refs c"
  by (auto simp: Stat_def statNode_def Let_def intro!: same_refs split: keep_splits)

lemma Make_refs: "refs (snd (Make E i d c)) = refs c"
  by (auto simp: Make_def makeNode_def case_prod_beta Let_def intro!: same_refs split: keep_splits)

lemma Remove_refs: "refs (snd (Remove E i d c)) = refs c"
  by (auto simp: Remove_def removeNode_def case_prod_beta Let_def intro!: same_refs split: keep_splits)


lemma rename_open_refs:
  "map_option refcnt (fmlookup (snd (rename_open p q inos m)) h) = map_option refcnt (fmlookup m h)"
proof (induction inos arbitrary: m)
  case (Cons ino inos)
  then show ?case
    by (auto split: option.split)
qed simp

lemma Rename_refs: "refs (snd (Rename E i p c)) = refs c"
proof -
  have "refs (c\<lparr>c_openmap := snd (rename_open p q inos (c_openmap c))\<rparr>) = refs c"
    for p q inos and c :: "('a, 'b) cache"
    by (auto simp: refs_def rename_open_refs)
  then show ?thesis
    by (auto simp: Rename_def renameNode_def case_prod_beta Let_def intro!: same_refs split: keep_splits)
qed

lemma performFileIo_refs:
  assumes "\<And>file c. refs (snd (fn file c)) = refs c"
  shows "refs (snd (performFileIoOnNode E h ensure sz fn dflt c)) = refs c"
  using assms
  by (auto simp: performFileIoOnNode_def ensureFile_def case_prod_beta Let_def intro!: same_refs split: keep_splits)

lemma io_refs: "refs (snd (Truncate E i sz c)) = refs c" "refs (snd (WriteAt E i b off c)) = refs c"
  "refs (snd (ReadAt E i n off c)) = refs c" "refs (snd (Sync E i c)) = refs c"
  by (auto simp: Truncate_def WriteAt_def ReadAt_def Sync_def case_prod_beta Let_def
      intro!: with_open_refs performFileIo_refs split: res.splits)

text \<open>\<^verbatim>\<open>Open\<close> counts one reference, \<^verbatim>\<open>Close\<close> takes one off and drops the entry with the last.\<close>

lemma openNode_open: "c_openmap (snd (openNode E p c)) = c_openmap c"
  by (auto simp: openNode_def Let_def intro!: same_open split: keep_splits)

lemma Open_refs:
  assumes "Open E p c = (r, c')"
  shows "refs c' = (case r of Ok ino \<Rightarrow> (refs c)(ino := Some (case refs c ino of None \<Rightarrow> 1 | Some n \<Rightarrow> n + 1)) | _ \<Rightarrow> refs c)"
proof (cases "openNode E p c")
  case (Pair r1 c1)
  have o: "c_openmap c1 = c_openmap c"
    using openNode_open[of E p c] Pair by simp
  show ?thesis
  proof (cases r1)
    case (Ok n)
    then have "refcnt n = 0"
      using openNode_fresh[of E p c n c1] Pair by simp
    with assms Pair Ok o show ?thesis
      by (auto simp: Open_def refs_def upd_node_def Reference_def Let_def split: option.splits)
  qed (use assms Pair o in \<open>auto simp: Open_def refs_def\<close>)
qed

lemma closeNode_open: "c_openmap (snd (closeNode E n c)) = c_openmap c"
  by (auto simp: closeNode_def closeAndUpdateNode_def case_prod_beta Let_def intro!: same_open split: keep_splits)

lemma Close_refs:
  "refs (snd (Close E ino c)) =
     (case refs c ino of None \<Rightarrow> refs c | Some n \<Rightarrow> (refs c)(ino := if n = 1 then None else Some (n - 1)))"
proof (cases "fmlookup (c_openmap c) ino")
  case None
  then show ?thesis by (simp add: Close_def refs_def)
next
  case (Some n)
  show ?thesis
  proof (cases "refcnt n = 1")
    case True
    let ?n = "n\<lparr>refcnt := 0\<rparr>" and ?c = "c\<lparr>c_openmap := fmdrop ino (c_openmap c)\<rparr>"
    have "c_openmap (snd (Close E ino c)) = c_openmap (snd (closeNode E ?n ?c))"
      using Some True by (auto simp: Close_def Dereference_def split: res.splits prod.splits)
    then show ?thesis
      using Some True by (auto simp: refs_def closeNode_open)
  next
    case False
    then show ?thesis
      using Some by (auto simp: Close_def Dereference_def refs_def)
  qed
qed

lemma Open_Close_refs:
  assumes "open_inv (c_openmap c)" "Open E p c = (Ok ino, c1)" "refs c2 = refs c1"
  shows "refs (snd (Close E ino c2)) = refs c"
proof -
  have "refs c ino = Some n \<Longrightarrow> 0 < n" for n
    using assms(1) by (auto simp: refs_def open_inv_def)
  then show ?thesis
    using Open_refs[OF assms(2)] assms(3) by (auto simp: Close_refs fun_eq_iff split: option.splits)
qed

lemma deferClose_refs:
  assumes "open_inv (c_openmap c)" "Open E p c = (Ok ino, c1)" "deferClose E ino r = Some (x, c')"
    and "\<And>y c2. r = Some (y, c2) \<Longrightarrow> refs c2 = refs c1"
  shows "refs c' = refs c"
proof -
  obtain y c2 where r: "r = Some (y, c2)"
    using assms(3) by (auto simp: deferClose_def split: option.splits)
  then have "c' = snd (Close E ino c2)"
    using assms(3) by (auto simp: deferClose_def split: res.splits prod.splits)
  with Open_Close_refs[OF assms(1,2) assms(4)[OF r]] show ?thesis by simp
qed

lemma errc_cache: "errc F E e c = Some (r, c') \<Longrightarrow> c' = c"
  by (auto simp: errc_def)

lemma reply_refs: "reply F E f m = Some (r, c') \<Longrightarrow> refs c' = refs (snd m)"
  by (cases m) (auto simp: reply_def errc_def split: res.splits)

lemma flat_cache [simp]: "snd (flat m) = snd m"
  by (cases m) (auto simp: flat_def split: res.splits option.splits)

lemma with_path_refs:
  assumes "open_inv (c_openmap c)" "with_path F E p body c = Some (r, c')"
    and "\<And>ino c y c2. body ino c = Some (y, c2) \<Longrightarrow> refs c2 = refs c"
  shows "refs c' = refs c"
proof (cases "Open E p c")
  case (Pair r1 c1)
  show ?thesis
  proof (cases r1)
    case (Ok ino)
    then show ?thesis
      using assms(2) Pair by (intro deferClose_refs[OF assms(1), of E p ino c1 "body ino c1" r])
        (auto simp: with_path_def dest: assms(3))
  qed (use assms(2) Pair Open_refs[OF Pair] in \<open>auto simp: with_path_def dest: errc_cache\<close>)
qed

lemma getattr_refs: "getattr_ino F E ino c = Some (r, c') \<Longrightarrow> refs c' = refs c"
  using Stat_refs[of E ino c]
  by (cases "Stat E ino c") (auto simp: getattr_ino_def split: res.splits)

lemma Getattr_refs:
  assumes "open_inv (c_openmap c)" "fs_Getattr F E p no_handle c = Some (r, c')"
  shows "refs c' = refs c"
proof (cases "Open E p c")
  case (Pair r1 c1)
  show ?thesis
  proof (cases r1)
    case (Ok ino)
    then show ?thesis
      using assms(2) Pair by (intro deferClose_refs[OF assms(1), of E p ino c1 "getattr_ino F E ino c1" r])
        (auto simp: fs_Getattr_def dest: getattr_refs)
  qed (use assms(2) Pair Open_refs[OF Pair] in \<open>auto simp: fs_Getattr_def\<close>)
qed

lemma handle_refs:
  assumes "open_inv (c_openmap c)" "Open E p c = (Ok ino, c1)" "refs (snd m) = refs c1"
    and "handle F E ino m = Some (Ok (rc, h), c')"
  shows "rc = 0 \<and> h = ino \<and> refs c' = refs c1 \<or> h = no_handle \<and> refs c' = refs c"
proof (cases m)
  case (Pair r c2)
  show ?thesis
  proof (cases r)
    case (Err e)
    then have "c' = snd (Close E ino c2) \<and> h = no_handle"
      using assms(4) Pair by (auto simp: handle_def split: res.splits prod.splits)
    then show ?thesis
      using Open_Close_refs[OF assms(1,2), of c2] assms(3) Pair by simp
  qed (use assms(3,4) Pair in \<open>auto simp: handle_def\<close>)
qed

lemma open_handle_refs:
  assumes "open_inv (c_openmap c)" "open_handle F E p f c = Some (Ok (rc, h), c')" "\<And>ino c. refs (snd (f ino c)) = refs c"
  shows "rc = 0 \<and> refs c' = (refs c)(h := Some (case refs c h of None \<Rightarrow> 1 | Some n \<Rightarrow> n + 1)) \<or>
    h = no_handle \<and> refs c' = refs c"
proof (cases "Open E p c")
  case (Pair r c1)
  show ?thesis
  proof (cases r)
    case (Ok ino)
    then show ?thesis
      using handle_refs[OF assms(1), of E p ino c1 "f ino c1" F rc h c'] Pair assms(2,3) Open_refs[OF Pair]
      by (auto simp: open_handle_def)
  qed (use assms(2) Pair Open_refs[OF Pair] in \<open>auto simp: open_handle_def\<close>)
qed

subsection \<open>Properties\<close>

text \<open>
  C12. The methods of the file system that take a path keep no node open: whatever they return (a code,
  or a panic of the cache), afterwards every inode has the references it had before.
\<close>

theorem path_methods_balance:
  assumes "open_inv (c_openmap c)"
  shows "(\<forall>r c'. fs_Mkdir F E p c = Some (r, c') \<longrightarrow> refs c' = refs c) \<and>
    (\<forall>r c'. fs_Unlink F E p c = Some (r, c') \<longrightarrow> refs c' = refs c) \<and>
    (\<forall>r c'. fs_Rmdir F E p c = Some (r, c') \<longrightarrow> refs c' = refs c) \<and>
    (\<forall>r c'. fs_Rename F E p q c = Some (r, c') \<longrightarrow> refs c' = refs c) \<and>
    (\<forall>r c'. fs_Truncate F E p sz no_handle c = Some (r, c') \<longrightarrow> refs c' = refs c) \<and>
    (\<forall>r c'. fs_Getattr F E p no_handle c = Some (r, c') \<longrightarrow> refs c' = refs c)"
proof -
  have w: "refs c' = refs c" if "with_path F E p (\<lambda>ino c. reply F E f (g ino c)) c = Some (r, c')"
    "\<And>ino c. refs (snd (g ino c)) = refs c" for f r c' and g :: "u64 \<Rightarrow> _ \<Rightarrow> 'x res \<times> _"
    using that(2) by (intro with_path_refs[OF assms that(1)]) (auto dest!: reply_refs)
  show ?thesis
    using w[of "\<lambda>_. 0" "\<lambda>ino. Make E ino True"] w[of "\<lambda>_. 0" "\<lambda>ino. Remove E ino False"]
      w[of "\<lambda>_. 0" "\<lambda>ino. Remove E ino True"] w[of "\<lambda>_. 0" "\<lambda>ino. Rename E ino q"]
      w[of "\<lambda>_. 0" "\<lambda>ino c. flat (Truncate E ino sz c)"] Getattr_refs[OF assms]
    by (simp add: fs_Mkdir_def fs_Unlink_def fs_Rmdir_def fs_Rename_def fs_Truncate_def Make_refs Remove_refs
        Rename_refs io_refs)
qed

text \<open>
  C13. Handles are counted exactly: a successful \<^verbatim>\<open>Create\<close>, \<^verbatim>\<open>Open\<close> or \<^verbatim>\<open>Opendir\<close> returns the inode and adds one
  reference to it, a failed one returns the invalid handle and leaves all references as they were, and
  \<^verbatim>\<open>Release\<close> and \<^verbatim>\<open>Releasedir\<close> take off one reference, the last of which closes the node.
\<close>

theorem handles_balance:
  assumes "open_inv (c_openmap c)"
  shows "(\<forall>rc h c'. fs_Create F E p c = Some (Ok (rc, h), c') \<or> fs_Open F E p c = Some (Ok (rc, h), c') \<or>
        fs_Opendir F E p c = Some (Ok (rc, h), c') \<longrightarrow>
      rc = 0 \<and> refs c' = (refs c)(h := Some (case refs c h of None \<Rightarrow> 1 | Some n \<Rightarrow> n + 1)) \<or>
      h = no_handle \<and> refs c' = refs c) \<and>
    (\<forall>h n r c'. refs c h = Some n \<longrightarrow> fs_Release F E h c = Some (r, c') \<or> fs_Releasedir F E h c = Some (r, c') \<longrightarrow>
      refs c' = (refs c)(h := if n = 1 then None else Some (n - 1)))"
  using open_handle_refs[OF assms, of F E p "\<lambda>ino. Make E ino False"] open_handle_refs[OF assms, of F E p "\<lambda>ino. Stat E ino"]
  by (auto simp: fs_Create_def fs_Open_def fs_Opendir_def fs_Release_def fs_Releasedir_def Make_refs Stat_refs
      Close_refs dest!: reply_refs)

definition demo_fuse :: fuse where
  "demo_fuse =
     \<lparr>fuse_const = (\<lambda>e. case e of Errno n \<Rightarrow> 100 + n), fuse_S_IFREG = 0x8000, fuse_S_IFDIR = 0x4000,
      fuse_NewTimespec = (\<lambda>t. (word_of_int (t div 1000000000), word_of_int (t mod 1000000000))), startUid = 0, startGid = 0,
      onWindows = False\<rparr>"

lemma demo_open_inv: "open_inv (c_openmap demo_cache)"
  by (simp add: open_inv_def demo_node_def)

lemma demo_Get: "cat mem_bolt d k = Some n \<Longrightarrow> node_Get mem_bolt k d node0 = Ok n"
  by (auto simp: cat_def split: res.splits)

lemma demo_Open: "Open demo_env ''/a/b'' demo_cache = (Ok 7, upd_node 7 Reference demo_cache)"
proof -
  have "openNode demo_env ''/a/b'' demo_cache = (Ok (persist demo_node node0), demo_cache)"
    using demo_Get[of demo_db "''/a/b''"] demo_db_store(1)
    by (simp add: openNode_def View_def db_View_def pathKey_def Let_def)
  then show ?thesis
    by (simp add: Open_def persist_def demo_node_def Let_def)
qed

lemma demo_Stat: "\<exists>i c'. Stat demo_env 7 (upd_node 7 Reference demo_cache) = (Ok i, c')"
  by (simp add: Stat_def with_open_def statNode_def node_at_def upd_node_def on_os_def node_Stat_def bad_node_def
      file_Stat_def os_fails_def demo_os_def demo_node_def node0_def Reference_def Let_def)

theorem path_methods_balance_witness:
  "\<exists>r c'. fs_Getattr demo_fuse demo_env ''/a/b'' no_handle demo_cache = Some (r, c') \<and> refs c' = refs demo_cache"
proof -
  have "\<exists>r c'. fs_Getattr demo_fuse demo_env ''/a/b'' no_handle demo_cache = Some (r, c')"
    using demo_Stat by (auto simp: fs_Getattr_def demo_Open getattr_ino_def deferClose_def split: res.splits prod.splits)
  with path_methods_balance[OF demo_open_inv] show ?thesis
    by blast
qed

theorem handles_balance_witness:
  "\<exists>c'. fs_Open demo_fuse demo_env ''/a/b'' demo_cache = Some (Ok (0, 7), c') \<and> refs c' = (refs demo_cache)(7 := Some 2)"
proof -
  obtain c' where c': "fs_Open demo_fuse demo_env ''/a/b'' demo_cache = Some (Ok (0, 7), c')"
    using demo_Stat by (auto simp: fs_Open_def open_handle_def demo_Open handle_def)
  have h: "(7 :: u64) \<noteq> no_handle" "refs demo_cache 7 = Some 1"
    by (simp_all add: no_handle_def refs_def)
  have "refs c' = (refs demo_cache)(7 := Some (case refs demo_cache 7 of None \<Rightarrow> 1 | Some n \<Rightarrow> n + 1)) \<or>
      (7 :: u64) = no_handle \<and> refs c' = refs demo_cache"
    using conjunct1[OF handles_balance[OF demo_open_inv, of demo_fuse demo_env "''/a/b''"], rule_format, of 0 7 c'] c'
    by simp
  with h c' show ?thesis by simp
qed

text \<open>Reading back what was written at an offset.\<close>

lemma read_write_bytes: "take (length new) (drop off (write_bytes old off new)) = new"
proof (cases "new = []")
  case False
  let ?a = "take off old @ replicate (off - length old) (CHR 0x00)"
  have "length ?a = off" "write_bytes old off new = ?a @ new @ drop (off + length new) old"
    using False by (simp_all add: write_bytes_def)
  then show ?thesis
    by (metis append_eq_conv_conj)
qed simp

lemma file_WriteAt_OkE:
  assumes "file_WriteAt f buf off w = ((n, None), w')"
  shows "n = length buf" "fd_bytes (os_data w' f) = write_bytes (fd_bytes (os_data w f)) (unat off) buf" "0 \<le> sint off"
  using assms by (auto simp: file_WriteAt_def set_data_def split: if_splits option.splits)

lemma touch_os [simp]: "os_data (c_os (touch ino rw c)) = os_data (c_os c)"
  by (simp add: touch_def time_now_def on_os_def time_Now_def)

lemma WriteAt_data:
  assumes "open_inv (c_openmap c)" "WriteAt E ino buf off c = (Ok (n, None), c')"
  obtains f old where "File (node_at c' ino) = Some f" "fmlookup (c_openmap c') ino \<noteq> None" "n = length buf"
    "fd_bytes (os_data (c_os c') f) = write_bytes old (unat off) buf" "0 \<le> sint off"
proof -
  obtain fl c1 where c1: "(let ((n, err), c) = on_os (file_WriteAt fl buf off) c1
        in ((n, err), if None = err then touch (Ino (node_at c ino)) True c else c)) = ((n, None), c')"
    "File (node_at c1 ino) = Some fl" "open_inv (c_openmap c1)"
    using assms unfolding WriteAt_def by (elim performFileIo_OkE) blast
  obtain w where w: "file_WriteAt fl buf off (c_os c1) = ((n, None), w)" and c': "c' = touch (Ino (node_at c1 ino)) True (c1\<lparr>c_os := w\<rparr>)"
    using c1(1) by (cases "file_WriteAt fl buf off (c_os c1)")
      (auto simp: on_os_def node_at_def case_prod_beta Let_def split: if_splits)
  have o: "c_openmap c' = c_openmap c1"
    by (simp add: c')
  then have "File (node_at c' ino) = Some fl" "fmlookup (c_openmap c') ino \<noteq> None"
    using c1(2) by (auto simp: node_at_def node0_def split: option.splits)
  then show thesis
    using that file_WriteAt_OkE[OF w] by (simp add: c')
qed

text \<open>
  What was written is read back: after a successful \<^verbatim>\<open>WriteAt\<close>, which reports all bytes of the buffer
  as written, a \<^verbatim>\<open>ReadAt\<close> of as many bytes at the same offset returns exactly these bytes and no error,
  unless the operating system fails at that moment.
\<close>

theorem read_your_writes:
  assumes "open_inv (c_openmap c)" "WriteAt E ino buf off c = (Ok (n, None), c')" "os_fails (c_os c') = None"
  shows "n = length buf \<and> fst (ReadAt E ino (length buf) off c') = Ok (buf, None)"
proof -
  obtain f old where f: "File (node_at c' ino) = Some f" "fmlookup (c_openmap c') ino \<noteq> None" "n = length buf"
    "fd_bytes (os_data (c_os c') f) = write_bytes old (unat off) buf" "0 \<le> sint off"
    by (rule WriteAt_data[OF assms(1,2)])
  have "fst (file_ReadAt f (length buf) off (c_os c')) = (buf, None)"
    using f(4,5) assms(3) read_write_bytes[of buf "unat off" old] by (simp add: file_ReadAt_def Let_def)
  then show ?thesis
    using f(1-3)
    by (auto simp: ReadAt_def with_open_def performFileIoOnNode_def on_os_def case_prod_beta Let_def split: option.splits)
qed

theorem read_your_writes_witness:
  "\<exists>c'. WriteAt demo_env 7 ''new'' 1 demo_cache = (Ok (3, None), c') \<and>
        fst (ReadAt demo_env 7 3 1 c') = Ok (''new'', None)"
proof -
  let ?c = "snd (WriteAt demo_env 7 ''new'' 1 demo_cache)"
  have w: "WriteAt demo_env 7 ''new'' 1 demo_cache = (Ok (3, None), ?c)"
    by (simp add: WriteAt_def with_open_def performFileIoOnNode_def node_at_def on_os_def file_WriteAt_def
        demo_os_def Let_def)
  have "os_fails (c_os ?c) = None"
    by (simp add: WriteAt_def with_open_def performFileIoOnNode_def node_at_def on_os_def file_WriteAt_def
        demo_os_def os_fails_def touch_def time_now_def time_Now_def os_tick_def set_data_def Let_def)
  from read_your_writes[OF demo_open_inv w this] w show ?thesis
    by (intro exI[of _ ?c]) (simp add: numeral_3_eq_3)
qed

end
