(* ===== verification/Download.thy ===== *)
theory Download
  imports ObjFs
begin

text \<open>
  The local copy of an object (\<^verbatim>\<open>readNodeFromStorage\<close>): what a download leaves in the local file.
\<close>

lemma write_bytes_0: "write_bytes old 0 new = new @ drop (length new) old"
  by (simp add: write_bytes_def)

lemma copy_bytes_Ok:
  assumes "copy_bytes f b w = (None, w')"
  shows "fd_bytes (os_data w' f) = b @ drop (length b) (fd_bytes (os_data w f))"
proof (cases "b = []")
  case False
  then obtain n where n: "file_WriteAt f b 0 w = ((n, None), w')"
    using assms by (auto simp: copy_bytes_def Let_def split: prod.splits)
  show ?thesis
    using file_WriteAt_OkE(2)[OF n] by (simp add: write_bytes_0)
qed (use assms in \<open>simp add: copy_bytes_def\<close>)

lemma io_Copy_Ok:
  assumes "io_Copy f r w = (None, w')"
  shows "snd r = None" "fd_bytes (os_data w' f) = fst r @ drop (length (fst r)) (fd_bytes (os_data w f))"
  using assms copy_bytes_Ok[of f "fst r" w w'] by (auto simp: io_Copy_def split: prod.splits option.splits)

lemma fetch_object_all:
  "fetch_object E p sig (- 1) f c =
     bindr (on_st (st_OpenRead (e_storage E) p sig) c) (\<lambda>(i, reader) c.
       case reader of
         None \<Rightarrow> (Ok (None, [], f), c)
       | Some r \<Rightarrow>
           (let (err, c) = on_os (io_Copy f r) c
            in case err of Some e \<Rightarrow> (Err e, c) | None \<Rightarrow> (Ok (Some i, e_sha256 E (fst r), f), c)))"
  by (simp add: fetch_object_def cong: option.case_cong)

lemma fetch_object_Ok:
  assumes "fetch_object E p sig (- 1) f c = (Ok (Some i, h, g), c')"
  obtains b where "st_OpenRead (e_storage E) p sig (c_st c) = (Ok (i, Some (b, None)), c_st c')" "g = f" "h = e_sha256 E b"
    "fd_bytes (os_data (c_os c') f) = b @ drop (length b) (fd_bytes (os_data (c_os c) f))"
proof -
  obtain j rd s where o: "st_OpenRead (e_storage E) p sig (c_st c) = (Ok (j, rd), s)"
    and k: "(case rd of None \<Rightarrow> (Ok (None, [], f), c\<lparr>c_st := s\<rparr>)
       | Some r \<Rightarrow>
           (let (err, c) = on_os (io_Copy f r) (c\<lparr>c_st := s\<rparr>)
            in case err of Some e \<Rightarrow> (Err e, c) | None \<Rightarrow> (Ok (Some j, e_sha256 E (fst r), f), c))) = (Ok (Some i, h, g), c')"
    using assms unfolding fetch_object_all by (elim bindr_OkE on_stE) (auto split: prod.splits)
  obtain r where r: "rd = Some r"
    using k by (cases rd) auto
  obtain w where w: "io_Copy f r (c_os c) = (None, w)" and c': "c' = c\<lparr>c_st := s, c_os := w\<rparr>"
    and eqs: "i = j" "g = f" "h = e_sha256 E (fst r)"
    using k r by (cases "io_Copy f r (c_os c)") (auto simp: on_os_def split: option.splits)
  show thesis
    using that[of "fst r"] o io_Copy_Ok[OF w] eqs r c' by (cases r) auto
qed

lemma createFile_Ok:
  assumes "createFile p w = (Ok f, w')"
  shows "fmlookup (os_files w) p = None" "fd_bytes (os_data w' f) = []"
  using assms by (auto simp: createFile_def os_tick_def Let_def split: option.splits if_splits)

lemma os_MkdirAll_files:
  assumes "os_MkdirAll p w = (r, w')"
  shows "os_files w' = os_files w"
  using assms by (auto simp: os_MkdirAll_def os_tick_def split: option.splits if_splits)

subsection \<open>Properties\<close>

text \<open>
  C14. What a download leaves: when \<^verbatim>\<open>readNodeFromStorage\<close> has fetched the whole object, then the reader of the
  storage has delivered some bytes without an error, the hash is that of these bytes, and the
  local file starts with them.  A local file that was there before and was longer keeps its old
  bytes after them, because it is opened without being truncated; the file is then not a copy of the object.
\<close>

theorem download_content:
  assumes "readNodeFromStorage E node (- 1) c = (Ok (Some i, h, f), c')"
    and "old = (case fmlookup (os_files (c_os c)) (filePath (c_path c) (Ino node)) of
                  None \<Rightarrow> [] | Some g \<Rightarrow> fd_bytes (os_data (c_os c) g))"
  shows "\<exists>b sig. st_OpenRead (e_storage E) (Path node) sig (c_st c) = (Ok (i, Some (b, None)), c_st c') \<and>
    h = e_sha256 E b \<and> fd_bytes (os_data (c_os c') f) = b @ drop (length b) old"
proof -
  let ?p = "filePath (c_path c) (Ino node)"
  obtain r w where o: "openFile ?p (c_os c) = (r, w)" by fastforce
  have w: "os_files w = os_files (c_os c)" "os_data w = os_data (c_os c)"
    using o by (auto simp: openFile_def split: option.splits)
  show ?thesis
  proof (cases r)
    case (Ok g)
    then have g: "fmlookup (os_files (c_os c)) ?p = Some g"
      using o by (auto simp: openFile_def split: option.splits)
    have "fetch_object E (Path node) (Sig node) (- 1) g (c\<lparr>c_os := w\<rparr>) = (Ok (Some i, h, f), c')"
      using assms(1) o Ok by (simp add: readNodeFromStorage_def on_os_def Let_def)
    then obtain b where "st_OpenRead (e_storage E) (Path node) (Sig node) (c_st c) = (Ok (i, Some (b, None)), c_st c')"
      "f = g" "h = e_sha256 E b" "fd_bytes (os_data (c_os c') g) = b @ drop (length b) old"
      using g w assms(2) by (auto elim: fetch_object_Ok)
    then show ?thesis by blast
  next
    case (Err e)
    obtain w1 g w2 where "os_MkdirAll (filepath_Dir ?p) w = (Ok (), w1)" and w2: "createFile ?p w1 = (Ok g, w2)"
      and ft: "fetch_object E (Path node) '''' (- 1) g (c\<lparr>c_os := w2\<rparr>) = (Ok (Some i, h, f), c')"
      using assms(1) o Err unfolding readNodeFromStorage_def Let_def
      by (auto simp: on_os_def elim!: bindr_OkE split: prod.splits res.splits)
    then have "fmlookup (os_files (c_os c)) ?p = None" "fd_bytes (os_data w2 g) = []"
      using createFile_Ok[OF w2] os_MkdirAll_files w(1) by metis+
    then obtain b where "st_OpenRead (e_storage E) (Path node) [] (c_st c) = (Ok (i, Some (b, None)), c_st c')"
      "f = g" "h = e_sha256 E b" "fd_bytes (os_data (c_os c') g) = b @ drop (length b) old"
      using ft assms(2) by (auto elim: fetch_object_Ok)
    then show ?thesis by blast
  next
    case (Panic q)
    then show ?thesis
      using o by (auto simp: openFile_def split: option.splits)
  qed
qed

theorem download_content_witness:
  "\<exists>c' i. readNodeFromStorage demo_env demo_node (- 1) (demo_cache\<lparr>c_st := memstore0\<lparr>ms_objects := fmupd ''/a/b'' ''x'' fmempty\<rparr>\<rparr>) =
      (Ok (Some i, ''x'', 0), c') \<and> fd_bytes (os_data (c_os c') 0) = ''xld''"
proof -
  let ?s = "memstore0\<lparr>ms_objects := fmupd ''/a/b'' ''x'' fmempty\<rparr>"
  let ?c = "demo_cache\<lparr>c_st := ?s\<rparr>"
  have rd: "st_OpenRead mem_storage ''/a/b'' ''s1'' ?s = (Ok (mem_info ''/a/b'' False ''x'', Some (''x'', None)), ?s)"
    by (simp add: mem_storage_def)
  have "\<exists>c'. readNodeFromStorage demo_env demo_node (- 1) ?c = (Ok (Some (mem_info ''/a/b'' False ''x''), ''x'', 0), c')"
    by (simp add: readNodeFromStorage_def fetch_object_all on_os_def on_st_def openFile_def os_fails_def demo_node_def rd
        demo_os_def io_Copy_def copy_bytes_def file_WriteAt_def os_tick_def set_data_def Let_def)
  then obtain c' where c': "readNodeFromStorage demo_env demo_node (- 1) ?c = (Ok (Some (mem_info ''/a/b'' False ''x''), ''x'', 0), c')"
    by blast
  have "''old'' = (case fmlookup (os_files (c_os ?c)) (filePath (c_path ?c) (Ino demo_node)) of
      None \<Rightarrow> [] | Some g \<Rightarrow> fd_bytes (os_data (c_os ?c) g))"
    by (simp add: demo_os_def demo_node_def)
  from download_content[OF c' this] obtain b sig where
    "st_OpenRead mem_storage (Path demo_node) sig ?s = (Ok (mem_info ''/a/b'' False ''x'', Some (b, None)), c_st c')"
    "fd_bytes (os_data (c_os c') 0) = b @ drop (length b) ''old''"
    by auto
  then have "fd_bytes (os_data (c_os c') 0) = ''xld''"
    by (auto simp: mem_storage_def demo_node_def split: if_splits)
  with c' show ?thesis by blast
qed

end
