(* ===== verification/Namespace.thy ===== *)
theory Namespace
  imports Upload
begin

text \<open>
  Removing nodes: when \<^verbatim>\<open>Remove\<close> refuses to remove a directory that is not empty, and what becomes of an
  open node that has been removed.
\<close>

subsection \<open>The test for an empty directory\<close>

lemma count_subtree_take:
  "count_subtree k r m =
     (if 1 \<ge> m then min (2 :: nat) (m + length (takeWhile (\<lambda>p. pathKeyHasPrefix (fst p) k) r)) else m)"
proof (induction r arbitrary: m)
  case (Cons p r)
  then show ?case by (cases p) auto
qed auto

lemma subtree_keys:
  assumes "bolt_ok B" "no_low_sibling k (map fst (tx_pairs B b d))"
  shows "map fst (takeWhile (\<lambda>p. pathKeyHasPrefix (fst p) k) (cursor_seek B b k d)) =
    filter (\<lambda>i. pathKeyHasPrefix i k) (map fst (tx_pairs B b d))"
proof -
  have "sorted (map fst (tx_pairs B b d))"
    using bolt_okD(9)[OF assms(1), of b d] strict_sorted_imp_sorted by blast
  from scan_subtree_complete[OF this assms(2)] show ?thesis
    by (simp add: scan_subtree_def cursor_seek_def dropWhile_map takeWhile_map o_def)
qed

lemma two_in_filter:
  assumes "x \<in> set xs" "y \<in> set xs" "x \<noteq> y" "P x" "P y"
  shows "2 \<le> length (filter P xs)"
proof -
  have "{x, y} \<subseteq> set (filter P xs)" using assms by simp
  then have "card {x, y} \<le> card (set (filter P xs))" by (intro card_mono) auto
  also have "\<dots> \<le> length (filter P xs)" by (rule card_length)
  finally show ?thesis using assms(3) by simp
qed

lemma nodecnt_two:
  assumes "bolt_ok B" "no_low_sibling k (map fst (tx_pairs B catname d))"
    and "cat B d k = Some n" "cat B d i = Some m" "pathKeyHasPrefix i k" "i \<noteq> k"
  shows "count_subtree k (cursor_seek B catname k d) 0 = 2"
proof -
  have mem: "j \<in> set (map fst (tx_pairs B catname d))" if "cat B d j = Some x" for j x
  proof -
    have "tx_Get B catname j d \<noteq> None"
      using that by (auto simp: cat_def node_Get_def split: option.splits)
    then have "map_of (tx_pairs B catname d) j \<noteq> None"
      using bolt_okD(10)[OF assms(1), of catname d j] by simp
    then show ?thesis
      by (simp add: map_of_eq_None_iff)
  qed
  have "pathKeyHasPrefix k k"
    by (simp add: pathKeyHasPrefix_def)
  then have "2 \<le> length (filter (\<lambda>j. pathKeyHasPrefix j k) (map fst (tx_pairs B catname d)))"
    using two_in_filter[OF mem[OF assms(3)] mem[OF assms(4)] assms(6)[symmetric], of "\<lambda>j. pathKeyHasPrefix j k"] assms(5)
    by simp
  then show ?thesis
    using arg_cong[OF subtree_keys[OF assms(1,2)], of length] by (simp add: count_subtree_take)
qed

text \<open>
  The other way round: when a key extends that of the directory with a byte that sorts before the slash,
  the scan ends there, before any key below the directory.
\<close>

lemma takeWhile_below:
  assumes "sorted xs" "x \<in> set (takeWhile P xs)" "j \<in> set xs" "\<not> P j"
  shows "x \<le> j"
proof -
  have "j \<in> set (takeWhile P xs @ dropWhile P xs)"
    using assms(3) by simp
  then have "j \<in> set (dropWhile P xs)"
    using assms(4) by (auto dest: set_takeWhileD simp del: takeWhile_dropWhile_id)
  moreover have "sorted (takeWhile P xs @ dropWhile P xs)"
    using assms(1) by simp
  ultimately show ?thesis
    using assms(2) unfolding sorted_append by blast
qed

lemma low_sibling_scan:
  assumes "sorted ks" "distinct ks" "\<not> no_low_sibling k ks"
  shows "length (takeWhile (\<lambda>i. pathKeyHasPrefix i k) (dropWhile (\<lambda>i. i < k) ks)) \<le> 1"
proof -
  let ?xs = "dropWhile (\<lambda>i. i < k) ks" and ?P = "\<lambda>i. pathKeyHasPrefix i k"
  obtain j where j: "j \<in> set ks" "prefix k j" "length k < length j" "j ! length k < slash" and root: "k \<noteq> ''/''"
    using assms(3) by (auto simp: no_low_sibling_def not_le)
  obtain c t where c: "j = k @ c # t" "c < slash"
  proof -
    obtain r where r: "j = k @ r"
      using j(2) by (auto simp: prefix_def)
    with j(3,4) that show thesis
      by (cases r) auto
  qed
  have "\<not> j < k"
    using c(1) lex_prefix_le[of k "c # t"] by simp
  then have "j \<in> set ?xs"
    using j(1) by (metis Un_iff set_append set_takeWhileD takeWhile_dropWhile_id)
  moreover have "\<not> ?P j"
    using c root by (auto simp: pathKeyHasPrefix_append)
  moreover have "sorted ?xs" "distinct ?xs"
    using assms(1,2) by (simp_all add: sorted_dropWhile)
  ultimately have le: "x \<le> j" if "x \<in> set (takeWhile ?P ?xs)" for x
    using takeWhile_below that by blast
  have "x = k" if x: "x \<in> set (takeWhile ?P ?xs)" for x
  proof -
    obtain r where r: "x = k @ r" "r = '''' \<or> hd r = slash"
      using set_takeWhileD[OF x] root by (auto simp: pathKeyHasPrefix_append)
    have "r \<le> c # t"
      using le[OF x] lex_between[of k x "c # t"] c(1) r(1) lex_prefix_le[of k r] by auto
    then show "x = k"
      using r c(2) by (cases r) auto
  qed
  then have "set (takeWhile ?P ?xs) \<subseteq> {k}"
    by blast
  then have "card (set (takeWhile ?P ?xs)) \<le> 1"
    using card_mono[of "{k}"] by fastforce
  then show ?thesis
    using distinct_card[OF distinct_takeWhile[OF \<open>distinct ?xs\<close>, of ?P]] by simp
qed

lemma nodecnt_low_sibling:
  assumes "bolt_ok B" "\<not> no_low_sibling k (map fst (tx_pairs B catname d))"
  shows "count_subtree k (cursor_seek B catname k d) 0 \<le> 1"
proof -
  have "sorted (map fst (tx_pairs B catname d))" "distinct (map fst (tx_pairs B catname d))"
    using bolt_okD(9)[OF assms(1), of catname d] by (simp_all add: strict_sorted_iff)
  from low_sibling_scan[OF this assms(2)]
  have "length (takeWhile (\<lambda>p. pathKeyHasPrefix (fst p) k) (cursor_seek B catname k d)) \<le> 1"
    by (simp add: cursor_seek_def dropWhile_map takeWhile_map o_def)
  then show ?thesis
    by (simp add: count_subtree_take)
qed

subsection \<open>Removed nodes\<close>

lemma Remove_OkE:
  assumes "Remove E ino dir c = (Ok (), c')" "fmlookup (c_openmap c) ino = Some node"
  shows "fmlookup (c_openmap c') ino = Some (node\<lparr>Deleted := True\<rparr>)"
proof -
  obtain s d k where c': "c' = neg_add k (upd_node ino (\<lambda>n. n\<lparr>Deleted := True\<rparr>) (c\<lparr>c_st := s, c_db := d\<rparr>))"
    using assms
    by (fastforce simp: Remove_def with_open_def removeNode_def on_st_def Update_def on_db_def Let_def
        split: if_splits prod.splits res.splits)
  show ?thesis
    using assms(2) by (simp add: c' upd_node_def)
qed

subsection \<open>Properties\<close>

text \<open>
  C15. A directory with a cached child is not removed: the directory is open, valid and not removed, and the
  database can be read; if the catalogue has both the key of the directory and a key below it, then
  \<^verbatim>\<open>Remove\<close> returns \<^verbatim>\<open>ENOTEMPTY\<close> and changes nothing, neither in the cache nor in the storage.  No key may
  extend the directory's with a byte that sorts before the slash.  (The code does not look for children of
  a node that is not valid, takes a failed reading for an empty directory, and counts a single child as the
  directory itself when the catalogue does not have the directory's key.)
\<close>

theorem remove_nonempty:
  assumes "bolt_ok (e_bolt E)" "db_Begin (e_bolt E) (c_db c) = None" "fmlookup (c_openmap c) ino = Some node"
    and "Valid node" "IsDir node" "\<not> Deleted node" "k = pathKey E c (Path node)"
    and "no_low_sibling k (map fst (tx_pairs (e_bolt E) catname (c_db c)))"
    and "cat (e_bolt E) (c_db c) k = Some n" "cat (e_bolt E) (c_db c) i = Some m" "pathKeyHasPrefix i k" "i \<noteq> k"
  shows "Remove E ino True c = (Err (ErrnoErr ENOTEMPTY), c)"
  using assms(2-7) nodecnt_two[OF assms(1,8-12)]
  by (simp add: Remove_def with_open_def removeNode_def node_at_def View_def db_View_def Let_def)

text \<open>The directory \<^verbatim>\<open>/a\<close>, with the number 9, above the node 7 of \<^const>\<open>demo_db\<close>.\<close>

definition demo_dir :: node where
  "demo_dir = node0\<lparr>Ino := 9, Path := ''/a'', IsDir := True, Valid := True, Btime := 0, Mtime := 0\<rparr>"

definition demo_tree :: "(memdb, memstore) cache" where
  "demo_tree =
     demo_cache\<lparr>c_db := snd (node_Put mem_bolt demo_dir ''/a'' demo_db),
               c_openmap := fmupd 9 (demo_dir\<lparr>refcnt := 1\<rparr>) fmempty\<rparr>"

lemma demo_tree_simps: "c_isCaseIns demo_tree = False"
  by (simp add: demo_tree_def)

lemma demo_tree_cat:
  "cat mem_bolt (c_db demo_tree) = [''/a/b'' \<mapsto> persist demo_node node0, ''/a'' \<mapsto> persist demo_dir node0]"
proof -
  have e: "encodable demo_dir"
    by (simp add: encodable_def demo_dir_def node0_def bad_node_def int64_time_def)
  obtain d where put: "node_Put mem_bolt demo_dir ''/a'' demo_db = (Ok (), d)"
    using mem_Put[of demo_dir "''/a''" demo_db] e by (auto simp: encodable_def)
  show ?thesis
    using node_Put_spec(1)[OF mem_bolt_ok e put] put demo_db_store(1) by (simp add: demo_tree_def)
qed

lemma demo_tree_keys: "set (map fst (tx_pairs mem_bolt catname (c_db demo_tree))) = {''/a'', ''/a/b''}"
proof -
  have "\<not> bad_node demo_dir" "\<not> bad_node demo_node" "catname \<noteq> idxname"
    by (simp_all add: bad_node_def demo_dir_def demo_node_def node0_def)
  then have "fset (fmdom (mem_data (c_db demo_tree) catname)) = {''/a'', ''/a/b''}"
    by (auto simp: demo_tree_def demo_db_def node_Put_unfold mem_bolt_def memdb0_def be64_def)
  then show ?thesis
    by (simp add: mem_bolt_def)
qed

theorem remove_nonempty_witness:
  "Remove demo_env 9 True demo_tree = (Err (ErrnoErr ENOTEMPTY), demo_tree)"
proof (rule remove_nonempty[where E = demo_env and c = demo_tree and i = "''/a/b''" and k = "''/a''"])
  have "set (map fst (tx_pairs (e_bolt demo_env) catname (c_db demo_tree))) = {''/a'', ''/a/b''}"
    using demo_tree_keys by simp
  then show "no_low_sibling ''/a'' (map fst (tx_pairs (e_bolt demo_env) catname (c_db demo_tree)))"
    unfolding no_low_sibling_def by (simp add: less_eq_char_def)
  show "cat (e_bolt demo_env) (c_db demo_tree) ''/a'' = Some (persist demo_dir node0)"
    "cat (e_bolt demo_env) (c_db demo_tree) ''/a/b'' = Some (persist demo_node node0)"
    by (simp_all add: demo_tree_cat)
  show "fmlookup (c_openmap demo_tree) 9 = Some (demo_dir\<lparr>refcnt := 1\<rparr>)"
    by (simp add: demo_tree_def)
qed (use mem_bolt_ok in \<open>simp_all add: demo_dir_def node0_def pathKey_def pathKeyHasPrefix_def demo_tree_simps\<close>)

text \<open>
  C16. The condition on the keys in C15 is necessary: whenever the catalogue has a key that extends the
  directory's with a byte that sorts before the slash, like \<^verbatim>\<open>/foo.txt\<close> beside \<^verbatim>\<open>/foo\<close>, \<^verbatim>\<open>Remove\<close> does not
  find the children of the directory.  However many there are, it asks the storage to remove the directory;
  and if the storage and the database carry that out, it succeeds, the node is marked removed, its key is
  gone, and every cached child stays in the catalogue without its directory.
\<close>

theorem remove_misses_child:
  assumes "bolt_ok (e_bolt E)" "fmlookup (c_openmap c) ino = Some node" "IsDir node" "\<not> Deleted node"
    and "k = pathKey E c (Path node)"
    and "\<not> no_low_sibling k (map fst (tx_pairs (e_bolt E) catname (c_db c)))"
    and "st_Rmdir (e_storage E) (Path node) (c_st c) = (Ok (), s')"
    and "db_Update (e_bolt E) (node_Del (e_bolt E) k) (c_db c) = (Ok (), d')"
    and "cat (e_bolt E) (c_db c) i = Some m" "pathKeyHasPrefix i k" "i \<noteq> k"
  shows "\<exists>c'. Remove E ino True c = (Ok (), c') \<and> c_st c' = s' \<and>
    fmlookup (c_openmap c') ino = Some (node\<lparr>Deleted := True\<rparr>) \<and>
    cat (e_bolt E) (c_db c') k = None \<and> cat (e_bolt E) (c_db c') i = Some m"
proof -
  have "(case View E (\<lambda>d. Ok (count_subtree k (cursor_seek (e_bolt E) catname k d) 0)) c of Ok n \<Rightarrow> n | _ \<Rightarrow> 0) \<le> 1"
    using nodecnt_low_sibling[OF assms(1,6)] by (simp add: View_def db_View_def split: option.split)
  then have r: "Remove E ino True c =
      (Ok (), neg_add k (upd_node ino (\<lambda>n. n\<lparr>Deleted := True\<rparr>) (c\<lparr>c_st := s', c_db := d'\<rparr>)))"
    using assms(2-5,7,8)
    by (simp add: Remove_def with_open_def removeNode_def node_at_def on_st_def Update_def on_db_def Let_def)
  obtain d1 where d1: "node_Del (e_bolt E) k (c_db c) = (Ok (), d1)" "same_view (e_bolt E) d1 d'"
    using db_Update_OkE[OF assms(1,8)] by blast
  have "cat (e_bolt E) d' = (cat (e_bolt E) (c_db c))(k := None)"
    using node_Del_spec(1)[OF assms(1) d1(1)] same_view_store(1)[OF d1(2)] by simp
  then show ?thesis
    using assms(2,9,11) r by (simp add: upd_node_def neg_add_def time_now_def on_os_def case_prod_beta Let_def)
qed

text \<open>The directory \<^verbatim>\<open>/foo\<close>, the file \<^verbatim>\<open>/foo.txt\<close> beside it and the file \<^verbatim>\<open>/foo/bar\<close> in it.\<close>

definition demo_foo :: "gostring \<Rightarrow> u64 \<Rightarrow> bool \<Rightarrow> node" where
  "demo_foo p i dir = node0\<lparr>Ino := i, Path := p, IsDir := dir, Valid := True, Btime := 0, Mtime := 0\<rparr>"

definition demo_siblings :: "(memdb, memstore) cache" where
  "demo_siblings =
     demo_cache\<lparr>c_db := snd (node_Put mem_bolt (demo_foo ''/foo/bar'' 4 False) ''/foo/bar''
                      (snd (node_Put mem_bolt (demo_foo ''/foo.txt'' 3 False) ''/foo.txt''
                        (snd (node_Put mem_bolt (demo_foo ''/foo'' 2 True) ''/foo'' memdb0))))),
               c_openmap := fmupd 2 ((demo_foo ''/foo'' 2 True)\<lparr>refcnt := 1\<rparr>) fmempty\<rparr>"

lemma demo_siblings_keys:
  "set (map fst (tx_pairs mem_bolt catname (c_db demo_siblings))) = {''/foo'', ''/foo.txt'', ''/foo/bar''}"
proof -
  have "i \<noteq> 0 \<Longrightarrow> p \<noteq> [] \<Longrightarrow> \<not> bad_node (demo_foo p i dir)" "catname \<noteq> idxname" for p i dir
    by (simp_all add: bad_node_def demo_foo_def node0_def)
  then have "fset (fmdom (mem_data (c_db demo_siblings) catname)) = {''/foo'', ''/foo.txt'', ''/foo/bar''}"
    by (auto simp: demo_siblings_def node_Put_unfold mem_bolt_def memdb0_def be64_def)
  then show ?thesis
    by (simp add: mem_bolt_def)
qed

lemma demo_siblings_cat:
  "cat mem_bolt (c_db demo_siblings) ''/foo/bar'' = Some (persist (demo_foo ''/foo/bar'' 4 False) node0)"
proof -
  have e: "encodable (demo_foo ''/foo/bar'' 4 False)"
    by (simp add: encodable_def demo_foo_def node0_def bad_node_def int64_time_def)
  obtain d where put: "node_Put mem_bolt (demo_foo ''/foo/bar'' 4 False) ''/foo/bar''
      (snd (node_Put mem_bolt (demo_foo ''/foo.txt'' 3 False) ''/foo.txt''
        (snd (node_Put mem_bolt (demo_foo ''/foo'' 2 True) ''/foo'' memdb0)))) = (Ok (), d)"
    using mem_Put e unfolding encodable_def by blast
  show ?thesis
    using node_Put_spec(1)[OF mem_bolt_ok e put] put by (simp add: demo_siblings_def)
qed

lemma mem_Update_Del: "\<exists>d'. db_Update mem_bolt (node_Del mem_bolt k) d = (Ok (), d')"
  by (cases "cat mem_bolt d k") (simp_all add: db_Update_def node_Del_unfold, simp_all add: mem_bolt_def)

theorem remove_misses_child_witness:
  "\<exists>c'. Remove demo_env 2 True demo_siblings = (Ok (), c') \<and> cat mem_bolt (c_db c') ''/foo'' = None \<and>
        cat mem_bolt (c_db c') ''/foo/bar'' = Some (persist (demo_foo ''/foo/bar'' 4 False) node0)"
proof -
  let ?node = "(demo_foo ''/foo'' 2 True)\<lparr>refcnt := 1\<rparr>"
  have n: "fmlookup (c_openmap demo_siblings) 2 = Some ?node" "IsDir ?node" "\<not> Deleted ?node"
    "''/foo'' = pathKey demo_env demo_siblings (Path ?node)"
    by (simp_all add: demo_siblings_def demo_foo_def pathKey_def node0_def)
  have s: "\<not> no_low_sibling ''/foo'' (map fst (tx_pairs (e_bolt demo_env) catname (c_db demo_siblings)))"
    using demo_siblings_keys unfolding no_low_sibling_def by (simp add: less_eq_char_def)
  have st: "st_Rmdir (e_storage demo_env) (Path ?node) (c_st demo_siblings) = (Ok (), (c_st demo_siblings)\<lparr>ms_dirs := {||}\<rparr>)"
    by (simp add: mem_storage_def demo_siblings_def memstore0_def)
  obtain d' where d': "db_Update (e_bolt demo_env) (node_Del (e_bolt demo_env) ''/foo'') (c_db demo_siblings) = (Ok (), d')"
    using mem_Update_Del by force
  have i: "bolt_ok (e_bolt demo_env)" "pathKeyHasPrefix ''/foo/bar'' ''/foo''" "''/foo/bar'' \<noteq> ''/foo''"
    "cat (e_bolt demo_env) (c_db demo_siblings) ''/foo/bar'' = Some (persist (demo_foo ''/foo/bar'' 4 False) node0)"
    using mem_bolt_ok demo_siblings_cat by (simp_all add: pathKeyHasPrefix_def)
  from remove_misses_child[OF i(1) n s st d' i(4,2,3)] show ?thesis
    by auto
qed

text \<open>
  C17. \<^verbatim>\<open>Stat\<close> of an open node that has been removed panics: after \<^verbatim>\<open>Remove\<close> of an open, valid node has
  succeeded, every \<^verbatim>\<open>Stat\<close> through the handle that is still open ends in the panic \<^verbatim>\<open>errno.EINVAL\<close>, instead
  of the error \<^verbatim>\<open>EPERM\<close> that other operations return for a removed node.
\<close>

theorem stat_removed_panics:
  assumes "fmlookup (c_openmap c) ino = Some node" "Valid node" "Remove E ino dir c = (Ok (), c')"
  shows "fst (Stat E ino c') = Panic (PanicErrno EINVAL)"
proof -
  have "fmlookup (c_openmap c') ino = Some (node\<lparr>Deleted := True\<rparr>)"
    by (rule Remove_OkE[OF assms(3,1)])
  with assms(2) show ?thesis
    by (simp add: Stat_def with_open_def statNode_def node_at_def on_os_def node_Stat_def bad_node_def Let_def)
qed

theorem stat_removed_panics_witness:
  "\<exists>c'. Remove demo_env 7 False (demo_cache\<lparr>c_db := memdb0, c_st := memstore0\<lparr>ms_objects := fmupd ''/a/b'' ''old'' fmempty\<rparr>\<rparr>) = (Ok (), c') \<and>
     fst (Stat demo_env 7 c') = Panic (PanicErrno EINVAL)"
proof -
  let ?c = "demo_cache\<lparr>c_db := memdb0, c_st := memstore0\<lparr>ms_objects := fmupd ''/a/b'' ''old'' fmempty\<rparr>\<rparr>"
  have e: "cursor_seek mem_bolt catname k memdb0 = []" for k
    by (simp add: cursor_seek_def mem_bolt_def memdb0_def)
  have del: "db_Update mem_bolt (node_Del mem_bolt k) memdb0 = (Ok (), memdb0)" for k
    by (simp add: db_Update_def node_Del_def node_Get_def mem_bolt_def memdb0_def)
  have rm: "st_Remove mem_storage ''/a/b'' (memstore0\<lparr>ms_objects := fmupd ''/a/b'' ''old'' fmempty\<rparr>) =
      (Ok (), memstore0\<lparr>ms_objects := fmdrop ''/a/b'' (fmupd ''/a/b'' ''old'' fmempty)\<rparr>)"
    by (simp add: mem_storage_def)
  have "\<exists>c'. Remove demo_env 7 False ?c = (Ok (), c')"
    by (simp add: Remove_def with_open_def removeNode_def node_at_def on_st_def Update_def on_db_def View_def db_View_def
        demo_node_def node0_def e del rm Let_def)
  then obtain c' where c': "Remove demo_env 7 False ?c = (Ok (), c')" by blast
  have "fmlookup (c_openmap ?c) 7 = Some (demo_node\<lparr>File := Some 0, refcnt := 1\<rparr>)" "Valid (demo_node\<lparr>File := Some 0, refcnt := 1\<rparr>)"
    by (simp_all add: demo_node_def)
  from stat_removed_panics[OF this c'] c' show ?thesis by blast
qed

end
