(* ===== verification/Recovery.thy ===== *)
theory Recovery
  imports Upload
begin


subsection \<open>One node\<close>

text \<open>The body of the seeding loop for a value that decodes, and the nodes of the values that do.\<close>

definition seed1 :: "('d, 's) env \<Rightarrow> i64 \<Rightarrow> node \<Rightarrow> ('d, 's) cache \<Rightarrow> ('d, 's) cache" where
  "seed1 E past n c =
     (let (r, c) = on_os (hashFile (e_sha256 E) (filePath (c_path c) (Ino n))) c;
          rw = (case r of Ok hash \<Rightarrow> Hash n \<noteq> hash | _ \<Rightarrow> False)
      in c\<lparr>c_lru := lru_seed past (Ino n) rw (c_lru c)\<rparr>)"





lemma lru_seed_touch:
  assumes "ino \<notin> queued True l" "ino \<notin> queued False l"
  shows "lru_seed past ino rw l = touchIno past ino rw l"
  using assms
  by (cases rw) (auto simp: queued_iff lru_seed_def touchIno_def lru_alloc_def lru_enqueue_def qmap_def qlst_def
      set_qmap_def Let_def)






text \<open>
  An error while the hash of a changed file is computed puts the node into the queue of those that may be evicted,
  and with it the only copy of the change.
\<close>

lemma hash_error_evicts:
  assumes "lru_inv (c_lru c)" "\<And>b. Ino n \<notin> queued b (c_lru c)"
    and "fst (hashFile (e_sha256 E) (filePath (c_path c) (Ino n)) (c_os c)) = Err e"
  shows "Ino n \<in> queued False (c_lru (seed1 E past n c))"
  using assms(2,3) lru_seed_touch[OF assms(2,2)] queues.queue_touch[OF assms(1)]
  by (simp add: seed1_def on_os_def case_prod_beta Let_def)

subsection \<open>All nodes\<close>




subsection \<open>The walk over the local files\<close>





subsection \<open>Properties\<close>



end
