(* ===== verification/PathLock.thy ===== *)
theory PathLock
  imports Paths
begin

text \<open>
  The path locks of \<^verbatim>\<open>src/cache/cache.go\<close> (\<^verbatim>\<open>lockPath\<close>, \<^verbatim>\<open>unlockPath\<close>, \<^verbatim>\<open>pathmux_t\<close>), run by any number of
  goroutines whose steps interleave.

  A goroutine runs a program of calls to \<^verbatim>\<open>lockPath\<close> and \<^verbatim>\<open>unlockPath\<close>; what it does between them under
  the lock is one of the operations of the cache.  A step of \<^verbatim>\<open>lockPath\<close> is either the section under
  \<^verbatim>\<open>self.pathmux\<close>, which finds or makes the entry of a partial path and counts the reference, or the
  locking of that entry's \<^verbatim>\<open>sync.RWMutex\<close>, which may have to wait.  \<^verbatim>\<open>unlockPath\<close> goes the same way back.

  A \<^verbatim>\<open>sync.RWMutex\<close> is modelled after its documentation: a call of \<^verbatim>\<open>Lock\<close> first announces itself, which
  keeps out new readers, and then waits for the readers there are to leave.
\<close>

record rwmutex =
  rw_writer :: bool
  rw_readers :: nat
  rw_pending :: bool

definition rw0 :: rwmutex where
  "rw0 = \<lparr>rw_writer = False, rw_readers = 0, rw_pending = False\<rparr>"

text \<open>The steps of a mutex; \<^const>\<open>None\<close> is a call that has to wait.\<close>

definition RLock :: "rwmutex \<Rightarrow> rwmutex option" where
  "RLock m = (if rw_writer m \<or> rw_pending m then None else Some (m\<lparr>rw_readers := Suc (rw_readers m)\<rparr>))"

definition Lock_announce :: "rwmutex \<Rightarrow> rwmutex option" where
  "Lock_announce m = (if rw_writer m \<or> rw_pending m then None else Some (m\<lparr>rw_pending := True\<rparr>))"

definition Lock_acquire :: "rwmutex \<Rightarrow> rwmutex option" where
  "Lock_acquire m = (if rw_readers m = 0 then Some (m\<lparr>rw_writer := True, rw_pending := False\<rparr>) else None)"

definition RUnlock :: "rwmutex \<Rightarrow> rwmutex" where
  "RUnlock m = m\<lparr>rw_readers := rw_readers m - 1\<rparr>"

definition Unlock :: "rwmutex \<Rightarrow> rwmutex" where
  "Unlock m = m\<lparr>rw_writer := False\<rparr>"

record pathmux =
  pm_mux :: rwmutex
  pm_refcnt :: int

record locks =
  pathmap :: "(gostring, addr) fmap"
  muxes :: "addr \<Rightarrow> pathmux"
  mux_next :: addr

definition locks0 :: locks where
  "locks0 = \<lparr>pathmap = fmempty, muxes = (\<lambda>_. \<lparr>pm_mux = rw0, pm_refcnt = 0\<rparr>), mux_next = 0\<rparr>"

definition set_mux :: "addr \<Rightarrow> rwmutex \<Rightarrow> locks \<Rightarrow> locks" where
  "set_mux a m l = l\<lparr>muxes := (muxes l)(a := (muxes l a)\<lparr>pm_mux := m\<rparr>)\<rparr>"

definition add_ref :: "addr \<Rightarrow> int \<Rightarrow> locks \<Rightarrow> locks" where
  "add_ref a n l = l\<lparr>muxes := (muxes l)(a := (muxes l a)\<lparr>pm_refcnt := pm_refcnt (muxes l a) + n\<rparr>)\<rparr>"

text \<open>The sections under \<^verbatim>\<open>self.pathmux\<close>; a missing entry in \<^verbatim>\<open>unlockPath\<close> is a nil pointer, \<^const>\<open>None\<close>.\<close>

definition enter_mux :: "gostring \<Rightarrow> locks \<Rightarrow> addr \<times> locks" where
  "enter_mux x l =
     (let (a, l) = (case fmlookup (pathmap l) x of
                      Some a \<Rightarrow> (a, l)
                    | None \<Rightarrow>
                        (let a = mux_next l
                         in (a, l\<lparr>pathmap := fmupd x a (pathmap l), mux_next := Suc a,
                                  muxes := (muxes l)(a := \<lparr>pm_mux = rw0, pm_refcnt = 0\<rparr>)\<rparr>)))
      in (a, add_ref a 1 l))"

definition leave_mux :: "gostring \<Rightarrow> locks \<Rightarrow> (addr \<times> locks) option" where
  "leave_mux x l =
     (case fmlookup (pathmap l) x of
        None \<Rightarrow> None
      | Some a \<Rightarrow>
          (let l = add_ref a (- 1) l
           in Some (a, if 0 = pm_refcnt (muxes l a) then l\<lparr>pathmap := fmdrop x (pathmap l)\<rparr> else l)))"

text \<open>
  The goroutines.  \<open>AtMap i\<close> and \<open>AtMux i a ann\<close> are the places in the loop of \<^verbatim>\<open>lockPath\<close>, with \<open>a\<close> the
  local variable \<^verbatim>\<open>pathmux\<close> and \<open>ann\<close> when \<^verbatim>\<open>Lock\<close> has announced itself; \<open>AtLeave i\<close> and \<open>AtRelease i a\<close> are
  those of \<^verbatim>\<open>unlockPath\<close>.
\<close>

datatype cmd = LockPath gostring | UnlockPath gostring

datatype pc = AtMap nat | AtMux nat addr bool | AtLeave nat | AtRelease nat addr

record goroutine =
  g_prog :: "cmd list"
  g_pc :: pc

definition begin_cmd :: "cmd list \<Rightarrow> goroutine" where
  "begin_cmd prog =
     \<lparr>g_prog = prog,
      g_pc = (case prog of UnlockPath p # _ \<Rightarrow> AtLeave (length (partialPaths p) - 1) | _ \<Rightarrow> AtMap 0)\<rparr>"

definition lockPath_step ::
  "gostring \<Rightarrow> cmd list \<Rightarrow> goroutine \<Rightarrow> locks \<Rightarrow> (goroutine \<times> locks) option" where
  "lockPath_step p rest g l =
     (let paths = partialPaths p
      in case g_pc g of
           AtMap i \<Rightarrow> (let (a, l) = enter_mux (paths ! i) l in Some (g\<lparr>g_pc := AtMux i a False\<rparr>, l))
         | AtMux i a ann \<Rightarrow>
             if i = length paths - 1 then
               (if \<not> ann
                then map_option (\<lambda>m. (g\<lparr>g_pc := AtMux i a True\<rparr>, set_mux a m l)) (Lock_announce (pm_mux (muxes l a)))
                else map_option (\<lambda>m. (begin_cmd rest, set_mux a m l)) (Lock_acquire (pm_mux (muxes l a))))
             else map_option (\<lambda>m. (g\<lparr>g_pc := AtMap (Suc i)\<rparr>, set_mux a m l)) (RLock (pm_mux (muxes l a)))
         | _ \<Rightarrow> None)"

definition unlockPath_step ::
  "gostring \<Rightarrow> cmd list \<Rightarrow> goroutine \<Rightarrow> locks \<Rightarrow> (goroutine \<times> locks) option" where
  "unlockPath_step p rest g l =
     (let paths = partialPaths p
      in case g_pc g of
           AtLeave i \<Rightarrow> map_option (\<lambda>(a, l). (g\<lparr>g_pc := AtRelease i a\<rparr>, l)) (leave_mux (paths ! i) l)
         | AtRelease i a \<Rightarrow>
             (let m = pm_mux (muxes l a);
                  l = set_mux a (if i = length paths - 1 then Unlock m else RUnlock m) l
              in Some (if i = 0 then begin_cmd rest else g\<lparr>g_pc := AtLeave (i - 1)\<rparr>, l))
         | _ \<Rightarrow> None)"

definition go_step :: "goroutine \<Rightarrow> locks \<Rightarrow> (goroutine \<times> locks) option" where
  "go_step g l =
     (case g_prog g of
        [] \<Rightarrow> None
      | LockPath p # rest \<Rightarrow> lockPath_step p rest g l
      | UnlockPath p # rest \<Rightarrow> unlockPath_step p rest g l)"

text \<open>A step of the system is a step of one goroutine.\<close>

inductive lk_step :: "locks \<times> goroutine list \<Rightarrow> locks \<times> goroutine list \<Rightarrow> bool" where
  go: "i < length gs \<Longrightarrow> go_step (gs ! i) l = Some (g, l') \<Longrightarrow> lk_step (l, gs) (l', gs[i := g])"

inductive lk_reach :: "locks \<times> goroutine list \<Rightarrow> locks \<times> goroutine list \<Rightarrow> bool" where
  start: "lk_reach s s"
| step: "lk_reach s s' \<Longrightarrow> lk_step s' s'' \<Longrightarrow> lk_reach s s''"

inductive_cases lk_stepE: "lk_step (l, gs) s"

text \<open>
  The programs of the operations of the cache other than \<^verbatim>\<open>renameNode\<close>: one path is locked at a time.
  \<^verbatim>\<open>renameNode\<close> locks two.
\<close>

fun paired :: "cmd list \<Rightarrow> bool" where
  "paired [] \<longleftrightarrow> True"
| "paired (LockPath p # UnlockPath q # rest) \<longleftrightarrow> p = q \<and> paired rest"
| "paired _ \<longleftrightarrow> False"

definition rename_locks :: "gostring \<Rightarrow> gostring \<Rightarrow> cmd list" where
  "rename_locks k newk =
     (if k < newk then [LockPath k, LockPath newk, UnlockPath newk, UnlockPath k]
      else if newk < k then [LockPath newk, LockPath k, UnlockPath k, UnlockPath newk]
      else [LockPath k, UnlockPath k])"

text \<open>A goroutine is inside when \<^verbatim>\<open>lockPath\<close> has returned and \<^verbatim>\<open>unlockPath\<close> has not begun.\<close>

definition inside :: "gostring \<Rightarrow> goroutine \<Rightarrow> bool" where
  "inside p g \<longleftrightarrow> (\<exists>rest. g = begin_cmd (UnlockPath p # rest))"

definition finished :: "goroutine \<Rightarrow> bool" where
  "finished g \<longleftrightarrow> g_prog g = []"


subsection \<open>The partial paths of a path\<close>

abbreviation pp :: "gostring \<Rightarrow> gostring list" where
  "pp \<equiv> partialPaths"

lemma components_absolute: "list_all is_name cs \<Longrightarrow> components (absolute cs) = cs"
  using components_mkpath[of cs]
  by (simp add: absolute_def components_slash components.simps[of "[]"] skip_slashes_def)

lemma pp_nth: "i < length (pp p) \<Longrightarrow> pp p ! i = absolute (take i (components p)) \<and> i \<le> length (components p)"
  by (cases i) (auto simp: partialPaths_components absolute_def)

lemma pp_depth:
  assumes "i < length (pp p)" "j < length (pp q)" "pp p ! i = pp q ! j"
  shows "i = j"
proof -
  have n: "list_all is_name (take i (components p))" "list_all is_name (take j (components q))"
    using components_names[of p] components_names[of q] by (auto simp: list_all_iff dest!: in_set_takeD)
  have "take i (components p) = take j (components q)"
    using components_absolute[OF n(1)] components_absolute[OF n(2)] pp_nth[OF assms(1)] pp_nth[OF assms(2)] assms(3)
    by metis
  then show ?thesis
    using pp_nth[OF assms(1)] pp_nth[OF assms(2)] by (metis length_take min.absorb2)
qed

lemma pp_length [simp]: "0 < length (pp p)" "pp p \<noteq> []"
  by (simp_all add: partialPaths_def)

lemma pp_last [simp]: "length (pp p) - (length (pp p) - Suc 0) = Suc 0"
  by (cases "pp p") (simp_all del: pp_length add: partialPaths_def)

lemma pp_distinct [simp]: "distinct (pp p)"
  unfolding distinct_conv_nth using pp_depth by blast


subsection \<open>What a goroutine holds\<close>

text \<open>
  The partial paths a goroutine has counted, those whose mutex it has locked for reading and for
  writing, the mutex it is about to unlock, and the one on which it has announced a \<^verbatim>\<open>Lock\<close>.
\<close>

definition uses :: "goroutine \<Rightarrow> gostring set" where
  "uses g =
     (case g_prog g of
        LockPath p # _ \<Rightarrow> (case g_pc g of AtMap i \<Rightarrow> set (take i (pp p)) | AtMux i a ann \<Rightarrow> set (take (Suc i) (pp p)) | _ \<Rightarrow> {})
      | UnlockPath p # _ \<Rightarrow> (case g_pc g of AtLeave i \<Rightarrow> set (take (Suc i) (pp p)) | AtRelease i a \<Rightarrow> set (take i (pp p)) | _ \<Rightarrow> {})
      | [] \<Rightarrow> {})"

definition reads :: "goroutine \<Rightarrow> gostring set" where
  "reads g =
     (case g_prog g of
        LockPath p # _ \<Rightarrow> (case g_pc g of AtMap i \<Rightarrow> set (take i (pp p)) | AtMux i a ann \<Rightarrow> set (take i (pp p)) | _ \<Rightarrow> {})
      | UnlockPath p # _ \<Rightarrow>
          (case g_pc g of
             AtLeave i \<Rightarrow> (if i = length (pp p) - 1 then set (take i (pp p)) else set (take (Suc i) (pp p)))
           | AtRelease i a \<Rightarrow> set (take i (pp p))
           | _ \<Rightarrow> {})
      | [] \<Rightarrow> {})"

definition writes :: "goroutine \<Rightarrow> gostring set" where
  "writes g =
     (case g_prog g of
        UnlockPath p # _ \<Rightarrow> (case g_pc g of AtLeave i \<Rightarrow> (if i = length (pp p) - 1 then {pp p ! i} else {}) | _ \<Rightarrow> {})
      | _ \<Rightarrow> {})"

definition releasing :: "goroutine \<Rightarrow> (addr \<times> bool) option" where
  "releasing g =
     (case g_prog g of
        UnlockPath p # _ \<Rightarrow> (case g_pc g of AtRelease i a \<Rightarrow> Some (a, i = length (pp p) - 1) | _ \<Rightarrow> None)
      | _ \<Rightarrow> None)"

definition announced :: "addr \<Rightarrow> goroutine \<Rightarrow> bool" where
  "announced a g \<longleftrightarrow> (\<exists>i. g_pc g = AtMux i a True)"

definition rholds :: "(gostring, addr) fmap \<Rightarrow> addr \<Rightarrow> goroutine \<Rightarrow> bool" where
  "rholds m a g \<longleftrightarrow> (\<exists>x \<in> reads g. fmlookup m x = Some a) \<or> releasing g = Some (a, False)"

definition wholds :: "(gostring, addr) fmap \<Rightarrow> addr \<Rightarrow> goroutine \<Rightarrow> bool" where
  "wholds m a g \<longleftrightarrow> (\<exists>x \<in> writes g. fmlookup m x = Some a) \<or> releasing g = Some (a, True)"

text \<open>The shape of a goroutine whose program locks one path at a time, and the pointers it keeps.\<close>

fun wf_go :: "goroutine \<Rightarrow> bool" where
  "wf_go g =
     (case g_prog g of
        [] \<Rightarrow> g_pc g = AtMap 0
      | LockPath p # rest \<Rightarrow>
          paired (g_prog g) \<and>
          (case g_pc g of AtMap i \<Rightarrow> i < length (pp p) | AtMux i a ann \<Rightarrow> i < length (pp p) \<and> (ann \<longrightarrow> i = length (pp p) - 1) | _ \<Rightarrow> False)
      | UnlockPath p # rest \<Rightarrow>
          paired rest \<and> (case g_pc g of AtLeave i \<Rightarrow> i < length (pp p) | AtRelease i a \<Rightarrow> i < length (pp p) | _ \<Rightarrow> False))"

definition mux_ok :: "(gostring, addr) fmap \<Rightarrow> goroutine \<Rightarrow> bool" where
  "mux_ok m g \<longleftrightarrow>
     (\<forall>p rest i a ann. g_prog g = LockPath p # rest \<longrightarrow> g_pc g = AtMux i a ann \<longrightarrow> fmlookup m (pp p ! i) = Some a)"

definition cnt :: "('a \<Rightarrow> bool) \<Rightarrow> 'a list \<Rightarrow> nat" where
  "cnt P xs = length (filter P xs)"

text \<open>
  The invariant: the references count the goroutines that use a partial path, and the state of every
  mutex is what the goroutines hold of it.
\<close>

definition refs_inv :: "locks \<Rightarrow> goroutine list \<Rightarrow> bool" where
  "refs_inv l gs \<longleftrightarrow>
     (\<forall>x a. fmlookup (pathmap l) x = Some a \<longrightarrow>
        a < mux_next l \<and> 0 < cnt (\<lambda>g. x \<in> uses g) gs \<and> pm_refcnt (muxes l a) = int (cnt (\<lambda>g. x \<in> uses g) gs)) \<and>
     (\<forall>x. fmlookup (pathmap l) x = None \<longrightarrow> (\<forall>g \<in> set gs. x \<notin> uses g)) \<and>
     (\<forall>x y a. fmlookup (pathmap l) x = Some a \<longrightarrow> fmlookup (pathmap l) y = Some a \<longrightarrow> x = y) \<and>
     (\<forall>g \<in> set gs. \<forall>a b. releasing g = Some (a, b) \<longrightarrow>
        a < mux_next l \<and> (\<forall>x \<in> uses g. fmlookup (pathmap l) x \<noteq> Some a))"

definition mutex_inv :: "locks \<Rightarrow> goroutine list \<Rightarrow> addr \<Rightarrow> bool" where
  "mutex_inv l gs a \<longleftrightarrow>
     (let m = pm_mux (muxes l a)
      in rw_readers m = cnt (rholds (pathmap l) a) gs \<and>
         of_bool (rw_writer m) = cnt (wholds (pathmap l) a) gs \<and>
         of_bool (rw_pending m) = cnt (announced a) gs \<and>
         (rw_writer m \<longrightarrow> rw_readers m = 0 \<and> \<not> rw_pending m))"

definition lk_inv :: "locks \<Rightarrow> goroutine list \<Rightarrow> bool" where
  "lk_inv l gs \<longleftrightarrow>
     (\<forall>g \<in> set gs. wf_go g \<and> mux_ok (pathmap l) g) \<and> refs_inv l gs \<and> (\<forall>a. mutex_inv l gs a)"


lemmas views = uses_def reads_def writes_def releasing_def

subsection \<open>Counting\<close>

lemma cnt_upd:
  assumes "j < length xs" "\<And>k. k < length xs \<Longrightarrow> k \<noteq> j \<Longrightarrow> P' (xs ! k) = P (xs ! k)"
  shows "cnt P' (xs[j := y]) + of_bool (P (xs ! j)) = cnt P xs + of_bool (P' y)"
proof -
  let ?a = "take j xs" and ?b = "drop (Suc j) xs"
  have a: "filter P' ?a = filter P ?a"
    using assms by (intro filter_cong) (auto simp: in_set_conv_nth)
  have b: "filter P' ?b = filter P ?b"
  proof (rule filter_cong[OF refl])
    fix x assume "x \<in> set ?b"
    then obtain i where "i < length ?b" "x = ?b ! i"
      by (auto simp: in_set_conv_nth)
    then show "P' x = P x"
      using assms(2)[of "Suc j + i"] by simp
  qed
  have "cnt P' (xs[j := y]) = length (filter P ?a) + of_bool (P' y) + length (filter P ?b)"
    using assms(1) a b by (simp add: cnt_def upd_conv_take_nth_drop)
  moreover have "cnt P xs = length (filter P ?a) + of_bool (P (xs ! j)) + length (filter P ?b)"
    by (subst id_take_nth_drop[OF assms(1)]) (simp add: cnt_def)
  ultimately show ?thesis by simp
qed

lemma cnt_0: "cnt P xs = 0 \<longleftrightarrow> (\<forall>x \<in> set xs. \<not> P x)"
  by (simp add: cnt_def filter_empty_conv)

lemma cnt_pos: "0 < cnt P xs \<longleftrightarrow> (\<exists>x \<in> set xs. P x)"
  using cnt_0[of P xs] by auto

lemma cnt_two:
  assumes "j < length xs" "k < length xs" "j \<noteq> k" "P (xs ! j)" "P (xs ! k)"
  shows "2 \<le> cnt P xs"
proof -
  have "j \<in> {i. i < length xs \<and> P (xs ! i)}" "k \<in> {i. i < length xs \<and> P (xs ! i)}"
    using assms by auto
  then have "card {j, k} \<le> card {i. i < length xs \<and> P (xs ! i)}"
    by (intro card_mono) auto
  then show ?thesis
    using assms(3) by (simp add: cnt_def length_filter_conv_card)
qed

subsection \<open>Each step keeps the invariant\<close>

lemma take_more: "x \<in> set (take i xs) \<Longrightarrow> x \<in> set (take (Suc i) xs)"
  by (meson le_SucI order_refl set_take_subset_set_take subsetD)

lemma take_last: "i < length xs \<Longrightarrow> set (take (Suc i) xs) = insert (xs ! i) (set (take i xs))"
  by (simp add: take_Suc_conv_app_nth)

lemma nth_fresh: "i < length xs \<Longrightarrow> distinct xs \<Longrightarrow> xs ! i \<notin> set (take i xs)"
  by (auto simp: in_set_conv_nth nth_eq_iff_index_eq)

lemma holds_uses:
  assumes "wf_go g"
  shows "reads g \<subseteq> uses g" "writes g \<subseteq> uses g"
  using assms
  by (auto simp: views take_last split: cmd.splits list.splits pc.splits if_splits intro: take_more dest: in_set_takeD)

lemma holds_cong:
  assumes "wf_go g" "\<And>x. x \<in> uses g \<Longrightarrow> fmlookup m' x = fmlookup m x"
  shows "rholds m' a g = rholds m a g" "wholds m' a g = wholds m a g"
  using assms(2) holds_uses[OF assms(1)] by (auto simp: rholds_def wholds_def subset_iff)

lemma mutex_step:
  assumes "mutex_inv l gs a" "j < length gs"
    and others: "\<And>k. k < length gs \<Longrightarrow> k \<noteq> j \<Longrightarrow> rholds (pathmap l') a (gs ! k) = rholds (pathmap l) a (gs ! k) \<and>
      wholds (pathmap l') a (gs ! k) = wholds (pathmap l) a (gs ! k)"
    and "rw_readers (pm_mux (muxes l' a)) + of_bool (rholds (pathmap l) a (gs ! j)) =
      rw_readers (pm_mux (muxes l a)) + of_bool (rholds (pathmap l') a g)"
    and "of_bool (rw_writer (pm_mux (muxes l' a))) + of_bool (wholds (pathmap l) a (gs ! j)) =
      (of_bool (rw_writer (pm_mux (muxes l a))) + of_bool (wholds (pathmap l') a g) :: nat)"
    and "of_bool (rw_pending (pm_mux (muxes l' a))) + of_bool (announced a (gs ! j)) =
      (of_bool (rw_pending (pm_mux (muxes l a))) + of_bool (announced a g) :: nat)"
    and "rw_writer (pm_mux (muxes l' a)) \<longrightarrow>
      rw_readers (pm_mux (muxes l' a)) = 0 \<and> \<not> rw_pending (pm_mux (muxes l' a))"
  shows "mutex_inv l' (gs[j := g]) a"
proof -
  have "cnt (rholds (pathmap l') a) (gs[j := g]) + of_bool (rholds (pathmap l) a (gs ! j)) =
      cnt (rholds (pathmap l) a) gs + of_bool (rholds (pathmap l') a g)"
    by (rule cnt_upd) (use assms(2) others in auto)
  moreover have "cnt (wholds (pathmap l') a) (gs[j := g]) + of_bool (wholds (pathmap l) a (gs ! j)) =
      cnt (wholds (pathmap l) a) gs + of_bool (wholds (pathmap l') a g)"
    by (rule cnt_upd) (use assms(2) others in auto)
  moreover have "cnt (announced a) (gs[j := g]) + of_bool (announced a (gs ! j)) =
      cnt (announced a) gs + of_bool (announced a g)"
    by (rule cnt_upd) (use assms(2) in auto)
  ultimately show ?thesis
    using assms(1,4-7) unfolding mutex_inv_def Let_def by linarith
qed


lemma refs_invD:
  assumes "refs_inv l gs"
  shows "fmlookup (pathmap l) x = Some a \<Longrightarrow> a < mux_next l"
    and "fmlookup (pathmap l) x = Some a \<Longrightarrow> 0 < cnt (\<lambda>g. x \<in> uses g) gs"
    and "fmlookup (pathmap l) x = Some a \<Longrightarrow> pm_refcnt (muxes l a) = int (cnt (\<lambda>g. x \<in> uses g) gs)"
    and "fmlookup (pathmap l) x = None \<Longrightarrow> g \<in> set gs \<Longrightarrow> x \<notin> uses g"
    and "fmlookup (pathmap l) x = Some a \<Longrightarrow> fmlookup (pathmap l) y = Some a \<Longrightarrow> x = y"
    and "g \<in> set gs \<Longrightarrow> releasing g = Some (a, b) \<Longrightarrow>
      a < mux_next l \<and> (\<forall>x \<in> uses g. fmlookup (pathmap l) x \<noteq> Some a)"
  using assms unfolding refs_inv_def by blast+

lemma cnt_uses_upd:
  assumes "j < length gs"
  shows "cnt (\<lambda>g. x \<in> uses g) (gs[j := g]) + of_bool (x \<in> uses (gs ! j)) = cnt (\<lambda>g. x \<in> uses g) gs + of_bool (x \<in> uses g)"
  using cnt_upd[OF assms, of "\<lambda>g. x \<in> uses g" "\<lambda>g. x \<in> uses g" g] by simp

lemma set_updD: "g \<in> set (xs[j := y]) \<Longrightarrow> g = y \<or> g \<in> set xs"
  using set_update_subset_insert[of xs j y] by auto

text \<open>A step that neither enters nor leaves a partial path.\<close>

lemma refs_same:
  assumes "refs_inv l gs" "j < length gs" "pathmap l' = pathmap l" "mux_next l' = mux_next l"
    and "\<And>a. pm_refcnt (muxes l' a) = pm_refcnt (muxes l a)"
    and "uses g = uses (gs ! j)" "releasing g = None"
  shows "refs_inv l' (gs[j := g])"
proof -
  have c: "cnt (\<lambda>g. x \<in> uses g) (gs[j := g]) = cnt (\<lambda>g. x \<in> uses g) gs" for x
    using cnt_uses_upd[OF assms(2), of x g] assms(6) by simp
  have "gs ! j \<in> set gs"
    using assms(2) by simp
  then show ?thesis
    using assms(1,3-7) unfolding refs_inv_def c
    by (auto dest!: set_updD)
qed

lemma refs_enter:
  assumes "refs_inv l gs" "j < length gs" "enter_mux x l = (a, l')"
    and "x \<notin> uses (gs ! j)" "uses g = insert x (uses (gs ! j))" "releasing g = None"
  shows "refs_inv l' (gs[j := g])" "fmlookup (pathmap l') x = Some a"
    and "\<And>y. y \<noteq> x \<Longrightarrow> fmlookup (pathmap l') y = fmlookup (pathmap l) y"
    and "fmlookup (pathmap l) x = None \<or> fmlookup (pathmap l) x = Some a"
proof -
  note I = refs_invD[OF assms(1)]
  have c: "cnt (\<lambda>g. y \<in> uses g) (gs[j := g]) = cnt (\<lambda>g. y \<in> uses g) gs + of_bool (y = x)" for y
    using cnt_uses_upd[OF assms(2), of y g] assms(4,5) by (cases "y = x") auto
  have j: "gs ! j \<in> set gs"
    using assms(2) by simp
  show "fmlookup (pathmap l') x = Some a" "\<And>y. y \<noteq> x \<Longrightarrow> fmlookup (pathmap l') y = fmlookup (pathmap l) y"
    "fmlookup (pathmap l) x = None \<or> fmlookup (pathmap l) x = Some a"
    using assms(3) by (auto simp: enter_mux_def add_ref_def Let_def split: option.splits)
  show "refs_inv l' (gs[j := g])"
  proof (cases "fmlookup (pathmap l) x")
    case None
    have z: "cnt (\<lambda>g. x \<in> uses g) gs = 0"
      using I(4)[OF None] by (simp add: cnt_0)
    have l': "a = mux_next l" "l' = add_ref a 1 (l\<lparr>pathmap := fmupd x a (pathmap l), mux_next := Suc a,
        muxes := (muxes l)(a := \<lparr>pm_mux = rw0, pm_refcnt = 0\<rparr>)\<rparr>)"
      using assms(3) None by (auto simp: enter_mux_def Let_def)
    have ne: "fmlookup (pathmap l) y \<noteq> Some a" for y
      using I(1)[of y a] l'(1) by auto
    show ?thesis
      unfolding refs_inv_def c
    proof (intro conjI allI impI ballI, goal_cases)
      case (4 y g')
      then show ?case
        using I(4) assms(5) j l'(2) by (auto simp: add_ref_def split: if_splits dest!: set_updD)
    next
      case (5 y z b)
      then show ?case
        using I(5) ne l'(2) by (auto simp: add_ref_def split: if_splits)
    next
      case (6 g' b d)
      then show ?case
        using I(6)[of g' b d] assms(6) l' by (auto simp: add_ref_def less_Suc_eq dest!: set_updD)
    next
      case (7 g' b d y)
      then show ?case
        using I(6)[of g' b d] I(4)[OF None, of g'] assms(6) l' by (auto simp: add_ref_def split: if_splits dest!: set_updD)
    qed (use I(1-3) ne z l' in \<open>auto simp: add_ref_def less_Suc_eq split: if_splits\<close>)
  next
    case (Some b)
    then have l': "b = a" "l' = add_ref a 1 l"
      using assms(3) by (auto simp: enter_mux_def Let_def)
    with Some have x: "fmlookup (pathmap l) x = Some a" "y \<noteq> x \<Longrightarrow> fmlookup (pathmap l) y \<noteq> Some a" for y
      using I(5)[of x a y] by auto
    show ?thesis
      unfolding refs_inv_def c
    proof (intro conjI allI impI ballI, goal_cases)
      case (4 y g')
      then show ?case
        using I(4) assms(5) j l' Some by (auto simp: add_ref_def dest!: set_updD)
    next
      case (5 y z b)
      then show ?case
        using I(5) l'(2) by (auto simp: add_ref_def)
    next
      case (6 g' b d)
      then show ?case
        using I(6)[of g' b d] assms(6) l' by (auto simp: add_ref_def dest!: set_updD)
    next
      case (7 g' b d y)
      then show ?case
        using I(6)[of g' b d] assms(6) l' by (auto simp: add_ref_def dest!: set_updD)
    qed (use I(1-3) x l' in \<open>auto simp: add_ref_def split: if_splits\<close>)
  qed
qed


lemma refs_leave:
  assumes "refs_inv l gs" "j < length gs" "x \<in> uses (gs ! j)"
    and "uses g = uses (gs ! j) - {x}" "\<And>a b. releasing g = Some (a, b) \<Longrightarrow> fmlookup (pathmap l) x = Some a"
  obtains a l' where "leave_mux x l = Some (a, l')" "refs_inv l' (gs[j := g])" "fmlookup (pathmap l) x = Some a"
    "fmlookup (pathmap l') x = Some a \<or> fmlookup (pathmap l') x = None \<and> (\<forall>k < length gs. k \<noteq> j \<longrightarrow> x \<notin> uses (gs ! k))"
    "\<And>y. y \<noteq> x \<Longrightarrow> fmlookup (pathmap l') y = fmlookup (pathmap l) y"
    "\<And>b. pm_mux (muxes l' b) = pm_mux (muxes l b)"
proof -
  note I = refs_invD[OF assms(1)]
  have j: "gs ! j \<in> set gs"
    using assms(2) by simp
  obtain a where a: "fmlookup (pathmap l) x = Some a"
    using I(4)[OF _ j, of x] assms(3) by (cases "fmlookup (pathmap l) x") auto
  have c: "cnt (\<lambda>g. y \<in> uses g) (gs[j := g]) + of_bool (y = x) = cnt (\<lambda>g. y \<in> uses g) gs" for y
    using cnt_uses_upd[OF assms(2), of y g] assms(3,4) by (cases "y = x") auto
  let ?r = "pm_refcnt (muxes l a) - 1"
  define l' where "l' = (let l = add_ref a (- 1) l in if 0 = pm_refcnt (muxes l a) then l\<lparr>pathmap := fmdrop x (pathmap l)\<rparr> else l)"
  have leave: "leave_mux x l = Some (a, l')"
    using a by (simp add: leave_mux_def l'_def Let_def)
  have r: "?r = int (cnt (\<lambda>g. x \<in> uses g) (gs[j := g]))"
    using I(3)[OF a] c[of x] by simp
  have inj: "fmlookup (pathmap l) y = Some a \<longleftrightarrow> y = x" for y
    using I(5)[of x a y] a by auto
  have m: "pm_refcnt (muxes l' b) = (if b = a then ?r else pm_refcnt (muxes l b))"
    "pm_mux (muxes l' b) = pm_mux (muxes l b)" "mux_next l' = mux_next l" for b
    by (simp_all add: l'_def add_ref_def Let_def)
  have p: "fmlookup (pathmap l') y = (if y = x \<and> ?r = 0 then None else fmlookup (pathmap l) y)" for y
    by (simp add: l'_def add_ref_def Let_def)
  have gone: "\<forall>g' \<in> set (gs[j := g]). x \<notin> uses g'" if "?r = 0"
    using r that by (simp add: cnt_0)
  have "refs_inv l' (gs[j := g])"
    unfolding refs_inv_def
  proof (intro conjI allI impI ballI, goal_cases)
    case (2 y b)
    then show ?case
      using I(2)[of y b] c[of y] r I(3)[of y b] inj[of y] p[of y] by (cases "y = x") (auto split: if_splits)
  next
    case (3 y b)
    then show ?case
      using I(3)[of y b] c[of y] r inj[of y] p[of y] m(1)[of b] a by (cases "y = x") (auto split: if_splits)
  next
    case (4 y g')
    then show ?case
      using p[of y] gone I(4)[of y g'] I(4)[of y "gs ! j"] j assms(4) by (auto split: if_splits dest!: set_updD)
  next
    case (6 g' b d)
    then show ?case
      using I(6)[of g' b d] assms(5)[of b d] I(1)[of x b] m(3) by (auto dest!: set_updD)
  next
    case (7 g' b d y)
    then show ?case
      using I(6)[of g' b d] assms(4) assms(5)[of b d] I(5)[of x b y] p[of y] by (auto split: if_splits dest!: set_updD)
  qed (use I(1,5) p m(3) in \<open>auto split: if_splits\<close>)
  moreover have "fmlookup (pathmap l') x = Some a \<or>
      fmlookup (pathmap l') x = None \<and> (\<forall>k < length gs. k \<noteq> j \<longrightarrow> x \<notin> uses (gs ! k))"
  proof (cases "?r = 0")
    case True
    have "x \<notin> uses (gs ! k)" if "k < length gs" "k \<noteq> j" for k
      using gone[OF True] that nth_list_update_neq[of j k gs g] nth_mem[of k "gs[j := g]"] by auto
    then show ?thesis
      using p[of x] True by simp
  next
    case False
    then show ?thesis
      using p[of x] a by simp
  qed
  ultimately show thesis
    using that[OF leave _ a] m(2) p by auto
qed


lemma lk_invI:
  assumes "lk_inv l gs" "j < length gs" "wf_go g" "mux_ok (pathmap l') g" "refs_inv l' (gs[j := g])"
    and "\<And>k. k < length gs \<Longrightarrow> k \<noteq> j \<Longrightarrow> mux_ok (pathmap l') (gs ! k)"
    and "\<And>a. mutex_inv l' (gs[j := g]) a"
  shows "lk_inv l' (gs[j := g])"
proof -
  have "wf_go g' \<and> mux_ok (pathmap l') g'" if g': "g' \<in> set (gs[j := g])" for g'
  proof -
    obtain k where "k < length gs" "g' = gs[j := g] ! k"
      using g' by (auto simp: in_set_conv_nth)
    then show ?thesis
      using assms(1-4,6) by (cases "k = j") (auto simp: lk_inv_def simp del: wf_go.simps)
  qed
  then show ?thesis
    using assms(5,7) by (auto simp: lk_inv_def simp del: wf_go.simps)
qed

lemma lk_invD:
  assumes "lk_inv l gs" "j < length gs"
  shows "wf_go (gs ! j)" "mux_ok (pathmap l) (gs ! j)" "refs_inv l gs" "mutex_inv l gs a"
  using assms by (auto simp: lk_inv_def simp del: wf_go.simps)

lemma mux_uses:
  assumes "wf_go g" "g_prog g = LockPath p # rest" "g_pc g = AtMux i a ann"
  shows "pp p ! i \<in> uses g" "i < length (pp p)"
  using assms by (auto simp: uses_def take_last)

lemma mux_ok_cong:
  assumes "wf_go g" "mux_ok m g" "\<And>x. x \<in> uses g \<Longrightarrow> fmlookup m' x = fmlookup m x"
  shows "mux_ok m' g"
  unfolding mux_ok_def
proof (intro allI impI)
  fix p rest i a ann
  assume g: "g_prog g = LockPath p # rest" "g_pc g = AtMux i a ann"
  then show "fmlookup m' (pp p ! i) = Some a"
    using assms(2,3) mux_uses[OF assms(1) g] by (auto simp: mux_ok_def)
qed

text \<open>A step that only changes one mutex, on the goroutine's own account.\<close>

lemma lk_inv_mutex:
  assumes "lk_inv l gs" "j < length gs" "wf_go g" "mux_ok (pathmap l) g"
    and "uses g = uses (gs ! j)" "releasing g = None"
    and "\<And>b. b \<noteq> a \<Longrightarrow> rholds (pathmap l) b g = rholds (pathmap l) b (gs ! j) \<and>
      wholds (pathmap l) b g = wholds (pathmap l) b (gs ! j) \<and> announced b g = announced b (gs ! j)"
    and "rw_readers m + of_bool (rholds (pathmap l) a (gs ! j)) =
      rw_readers (pm_mux (muxes l a)) + of_bool (rholds (pathmap l) a g)"
    and "of_bool (rw_writer m) + of_bool (wholds (pathmap l) a (gs ! j)) =
      (of_bool (rw_writer (pm_mux (muxes l a))) + of_bool (wholds (pathmap l) a g) :: nat)"
    and "of_bool (rw_pending m) + of_bool (announced a (gs ! j)) =
      (of_bool (rw_pending (pm_mux (muxes l a))) + of_bool (announced a g) :: nat)"
    and "rw_writer m \<longrightarrow> rw_readers m = 0 \<and> \<not> rw_pending m"
  shows "lk_inv (set_mux a m l) (gs[j := g])"
proof (rule lk_invI[OF assms(1,2,3)])
  note I = lk_invD[OF assms(1)]
  show "mux_ok (pathmap (set_mux a m l)) g" using assms(4) by (simp add: set_mux_def)
  show "mux_ok (pathmap (set_mux a m l)) (gs ! k)" if "k < length gs" for k
    using I(2)[OF that] by (simp add: set_mux_def)
  show "refs_inv (set_mux a m l) (gs[j := g])"
    by (rule refs_same[OF I(3)[OF assms(2)] assms(2)]) (use assms(5,6) in \<open>auto simp: set_mux_def\<close>)
  show "mutex_inv (set_mux a m l) (gs[j := g]) b" for b
  proof (rule mutex_step[OF I(4)[OF assms(2)] assms(2)])
    show "rw_writer (pm_mux (muxes (set_mux a m l) b)) \<longrightarrow>
      rw_readers (pm_mux (muxes (set_mux a m l) b)) = 0 \<and> \<not> rw_pending (pm_mux (muxes (set_mux a m l) b))"
      using assms(11) I(4)[OF assms(2), of b] by (auto simp: set_mux_def mutex_inv_def Let_def)
  qed (use assms(7)[of b] assms(8-10) in \<open>auto simp: set_mux_def\<close>)
qed


lemma fresh_mux:
  assumes "lk_inv l gs"
  shows "pm_mux (muxes l (mux_next l)) = rw0"
proof -
  let ?a = "mux_next l" and ?m = "pm_mux (muxes l (mux_next l))"
  have I: "refs_inv l gs" "mutex_inv l gs ?a" and wf: "\<And>g. g \<in> set gs \<Longrightarrow> wf_go g \<and> mux_ok (pathmap l) g"
    using assms by (auto simp: lk_inv_def simp del: wf_go.simps)
  have n: "fmlookup (pathmap l) x \<noteq> Some ?a" for x
    using refs_invD(1)[OF I(1), of x ?a] by auto
  have "cnt (rholds (pathmap l) ?a) gs = 0" "cnt (wholds (pathmap l) ?a) gs = 0"
    using n refs_invD(6)[OF I(1)] by (auto simp: cnt_0 rholds_def wholds_def)
  moreover have "cnt (announced ?a) gs = 0"
    unfolding cnt_0
  proof
    fix g assume g: "g \<in> set gs"
    then show "\<not> announced ?a g"
      using wf[OF g] n by (auto simp: announced_def mux_ok_def split: list.splits cmd.splits)
  qed
  ultimately have "rw_readers ?m = 0" "\<not> rw_writer ?m" "\<not> rw_pending ?m"
    using I(2) by (auto simp: mutex_inv_def Let_def)
  then show ?thesis
    by (simp add: rw0_def)
qed

lemma enter_keeps:
  assumes "lk_inv l gs" "j < length gs" "g_prog (gs ! j) = LockPath p # rest" "g_pc (gs ! j) = AtMap i"
    and "enter_mux (pp p ! i) l = (a, l')"
  shows "lk_inv l' (gs[j := (gs ! j)\<lparr>g_pc := AtMux i a False\<rparr>])"
proof -
  let ?g = "(gs ! j)\<lparr>g_pc := AtMux i a False\<rparr>" and ?x = "pp p ! i"
  note I = lk_invD[OF assms(1)]
  have wf: "wf_go ?g" and i: "i < length (pp p)"
    using I(1)[OF assms(2)] assms(3,4) by auto
  have u: "uses (gs ! j) = set (take i (pp p))" "uses ?g = insert ?x (uses (gs ! j))" "?x \<notin> uses (gs ! j)"
    "reads ?g = reads (gs ! j)" "writes ?g = {}" "writes (gs ! j) = {}" "releasing ?g = None" "releasing (gs ! j) = None"
    "announced b ?g = announced b (gs ! j)" for b
    using assms(3,4) i nth_fresh[OF i] by (auto simp: views take_last announced_def)
  note R = refs_enter[OF I(3)[OF assms(2)] assms(2,5) u(3,2,7)]
  have same: "fmlookup (pathmap l') y = fmlookup (pathmap l) y" if "k < length gs" "y \<in> uses (gs ! k)" for k y
    using R(2-4) refs_invD(4)[OF I(3)[OF assms(2)], of y "gs ! k"] that by (cases "y = ?x") auto
  have m: "pm_mux (muxes l' b) = pm_mux (muxes l b)" for b
    using assms(5) fresh_mux[OF assms(1)] by (auto simp: enter_mux_def add_ref_def Let_def split: option.splits)
  show ?thesis
  proof (rule lk_invI[OF assms(1,2) wf _ R(1)])
    show "mux_ok (pathmap l') ?g"
      using R(2) assms(3) by (auto simp: mux_ok_def)
    show "mux_ok (pathmap l') (gs ! k)" if "k < length gs" for k
      using mux_ok_cong[OF I(1,2)[OF that]] same[OF that] by blast
    have h: "rholds (pathmap l') b (gs ! k) = rholds (pathmap l) b (gs ! k)"
      "wholds (pathmap l') b (gs ! k) = wholds (pathmap l) b (gs ! k)" if "k < length gs" for k b
      using holds_cong[OF I(1)[OF that]] same[OF that] by blast+
    show "mutex_inv l' (gs[j := ?g]) b" for b
    proof (rule mutex_step[OF I(4)[OF assms(2)] assms(2)])
      have "rholds (pathmap l') b ?g = rholds (pathmap l') b (gs ! j)"
        "wholds (pathmap l') b ?g = wholds (pathmap l') b (gs ! j)"
        using u by (simp_all add: rholds_def wholds_def)
      then show "rw_readers (pm_mux (muxes l' b)) + of_bool (rholds (pathmap l) b (gs ! j)) =
          rw_readers (pm_mux (muxes l b)) + of_bool (rholds (pathmap l') b ?g)"
        "of_bool (rw_writer (pm_mux (muxes l' b))) + of_bool (wholds (pathmap l) b (gs ! j)) =
          (of_bool (rw_writer (pm_mux (muxes l b))) + of_bool (wholds (pathmap l') b ?g) :: nat)"
        using m h[OF assms(2)] by simp_all
    qed (use m h u I(4)[OF assms(2), of b] in \<open>auto simp: mutex_inv_def Let_def\<close>)
  qed
qed

lemma leave_keeps:
  assumes "lk_inv l gs" "j < length gs" "g_prog (gs ! j) = UnlockPath p # rest" "g_pc (gs ! j) = AtLeave i"
  obtains a l' where "leave_mux (pp p ! i) l = Some (a, l')" "lk_inv l' (gs[j := (gs ! j)\<lparr>g_pc := AtRelease i a\<rparr>])"
proof -
  let ?x = "pp p ! i"
  note I = lk_invD[OF assms(1)]
  have i: "i < length (pp p)"
    using I(1)[OF assms(2)] assms(3,4) by auto
  have x: "?x \<in> uses (gs ! j)"
    using assms(3,4) i by (simp add: uses_def take_last)
  obtain a where a: "fmlookup (pathmap l) ?x = Some a"
    using refs_invD(4)[OF I(3)[OF assms(2)], of ?x "gs ! j"] x assms(2) by (cases "fmlookup (pathmap l) ?x") auto
  let ?g = "(gs ! j)\<lparr>g_pc := AtRelease i a\<rparr>"
  have u: "uses ?g = uses (gs ! j) - {?x}" "releasing ?g = Some (a, i = length (pp p) - 1)"
    "reads (gs ! j) = (if i = length (pp p) - 1 then reads ?g else insert ?x (reads ?g))" "?x \<notin> reads ?g"
    "writes ?g = {}" "writes (gs ! j) = (if i = length (pp p) - 1 then {?x} else {})" "releasing (gs ! j) = None"
    "announced b ?g = announced b (gs ! j)" for b
    using assms(3,4) i nth_fresh[OF i] by (auto simp: views take_last announced_def)
  obtain a' l' where l': "leave_mux ?x l = Some (a', l')" "refs_inv l' (gs[j := ?g])" "fmlookup (pathmap l) ?x = Some a'"
    "fmlookup (pathmap l') ?x = Some a' \<or> fmlookup (pathmap l') ?x = None \<and> (\<forall>k < length gs. k \<noteq> j \<longrightarrow> ?x \<notin> uses (gs ! k))"
    "\<And>y. y \<noteq> ?x \<Longrightarrow> fmlookup (pathmap l') y = fmlookup (pathmap l) y"
    "\<And>b. pm_mux (muxes l' b) = pm_mux (muxes l b)"
    by (rule refs_leave[OF I(3)[OF assms(2)] assms(2) x u(1)]) (use u(2) a in auto)
  have [simp]: "a' = a" using l'(3) a by simp
  have same: "fmlookup (pathmap l') y = fmlookup (pathmap l) y" if "k < length gs" "k \<noteq> j" "y \<in> uses (gs ! k)" for k y
    using l'(4,5) a that by (cases "y = ?x") auto
  have wf: "wf_go ?g"
    using I(1)[OF assms(2)] assms(3,4) by auto
  have "lk_inv l' (gs[j := ?g])"
  proof (rule lk_invI[OF assms(1,2) wf _ l'(2)])
    show "mux_ok (pathmap l') ?g"
      using assms(3) by (simp add: mux_ok_def)
    show "mux_ok (pathmap l') (gs ! k)" if "k < length gs" "k \<noteq> j" for k
      using mux_ok_cong[OF I(1,2)[OF that(1)]] same[OF that] by blast
    have h: "rholds (pathmap l') b (gs ! k) = rholds (pathmap l) b (gs ! k) \<and>
      wholds (pathmap l') b (gs ! k) = wholds (pathmap l) b (gs ! k)" if "k < length gs" "k \<noteq> j" for k b
      using holds_cong[OF I(1)[OF that(1)]] same[OF that] by blast
    show "mutex_inv l' (gs[j := ?g]) b" for b
    proof (rule mutex_step[OF I(4)[OF assms(2)] assms(2) h])
      have "\<And>y. y \<in> reads ?g \<Longrightarrow> fmlookup (pathmap l') y = fmlookup (pathmap l) y"
        using l'(5) u(4) by metis
      then have "rholds (pathmap l') b ?g = rholds (pathmap l) b (gs ! j)"
        "wholds (pathmap l') b ?g = wholds (pathmap l) b (gs ! j)"
        using u(2,3,5-7) a by (auto simp: rholds_def wholds_def)
      then show "rw_readers (pm_mux (muxes l' b)) + of_bool (rholds (pathmap l) b (gs ! j)) =
          rw_readers (pm_mux (muxes l b)) + of_bool (rholds (pathmap l') b ?g)"
        "of_bool (rw_writer (pm_mux (muxes l' b))) + of_bool (wholds (pathmap l) b (gs ! j)) =
          (of_bool (rw_writer (pm_mux (muxes l b))) + of_bool (wholds (pathmap l') b ?g) :: nat)"
        using l'(6) by simp_all
    qed (use l'(6) u(8) I(4)[OF assms(2), of b] in \<open>auto simp: mutex_inv_def Let_def\<close>)
  qed
  with that l'(1) show thesis by simp
qed


lemma addr_own:
  assumes "refs_inv l gs" "fmlookup (pathmap l) x = Some a" "x \<notin> X"
  shows "\<not> (\<exists>y \<in> X. fmlookup (pathmap l) y = Some a)"
  using refs_invD(5)[OF assms(1,2)] assms(3) by blast

lemma RLock_keeps:
  assumes "lk_inv l gs" "j < length gs" "g_prog (gs ! j) = LockPath p # rest" "g_pc (gs ! j) = AtMux i a ann"
    and "i \<noteq> length (pp p) - 1" "RLock (pm_mux (muxes l a)) = Some m"
  shows "lk_inv (set_mux a m l) (gs[j := (gs ! j)\<lparr>g_pc := AtMap (Suc i)\<rparr>])"
proof -
  let ?g = "(gs ! j)\<lparr>g_pc := AtMap (Suc i)\<rparr>" and ?x = "pp p ! i"
  note I = lk_invD[OF assms(1,2)]
  have i: "Suc i < length (pp p)" and ann: "\<not> ann" and x: "fmlookup (pathmap l) ?x = Some a"
    using I(1,2) assms(3-5) by (auto simp: mux_ok_def)
  have u: "uses ?g = uses (gs ! j)" "reads ?g = insert ?x (reads (gs ! j))" "?x \<notin> reads (gs ! j)"
    "writes ?g = {}" "writes (gs ! j) = {}" "releasing ?g = None" "releasing (gs ! j) = None"
    "announced b ?g = announced b (gs ! j)" for b
    using assms(3,4) i ann nth_fresh[of i "pp p"] by (auto simp: views take_last announced_def)
  have "\<not> rholds (pathmap l) a (gs ! j)" "rholds (pathmap l) a ?g"
    using addr_own[OF I(3) x u(3)] u x by (auto simp: rholds_def)
  then show ?thesis
    using u x assms(3,6) i I(1) I(4)[of a]
    by (intro lk_inv_mutex[OF assms(1,2)])
      (auto simp: mux_ok_def rholds_def wholds_def RLock_def mutex_inv_def Let_def split: if_splits)
qed

lemma announce_keeps:
  assumes "lk_inv l gs" "j < length gs" "g_prog (gs ! j) = LockPath p # rest" "g_pc (gs ! j) = AtMux i a False"
    and "i = length (pp p) - 1" "Lock_announce (pm_mux (muxes l a)) = Some m"
  shows "lk_inv (set_mux a m l) (gs[j := (gs ! j)\<lparr>g_pc := AtMux i a True\<rparr>])"
proof -
  let ?g = "(gs ! j)\<lparr>g_pc := AtMux i a True\<rparr>"
  note I = lk_invD[OF assms(1,2)]
  have u: "uses ?g = uses (gs ! j)" "reads ?g = reads (gs ! j)" "writes ?g = {}" "writes (gs ! j) = {}"
    "releasing ?g = None" "releasing (gs ! j) = None" "announced b ?g \<longleftrightarrow> b = a" "\<not> announced b (gs ! j)" for b
    using assms(3,4) by (auto simp: views announced_def)
  then show ?thesis
    using u assms(3-6) I(1,2) I(4)[of a]
    by (intro lk_inv_mutex[OF assms(1,2)])
      (auto simp: mux_ok_def rholds_def wholds_def Lock_announce_def mutex_inv_def Let_def split: if_splits)
qed

lemma acquire_keeps:
  assumes "lk_inv l gs" "j < length gs" "g_prog (gs ! j) = LockPath p # rest" "g_pc (gs ! j) = AtMux i a True"
    and "i = length (pp p) - 1" "Lock_acquire (pm_mux (muxes l a)) = Some m"
  shows "lk_inv (set_mux a m l) (gs[j := begin_cmd rest])"
proof -
  let ?g = "begin_cmd rest" and ?x = "pp p ! i"
  note I = lk_invD[OF assms(1,2)]
  obtain r where r: "rest = UnlockPath p # r" "paired r"
  proof -
    have "paired (LockPath p # rest)"
      using I(1) assms(3) by simp
    then show ?thesis
      using that by (cases "LockPath p # rest" rule: paired.cases) auto
  qed
  have x: "fmlookup (pathmap l) ?x = Some a" and i: "i < length (pp p)"
    using I(1,2) assms(3,4) by (auto simp: mux_ok_def)
  have u: "uses ?g = uses (gs ! j)" "reads ?g = reads (gs ! j)" "writes ?g = {?x}" "writes (gs ! j) = {}"
    "releasing ?g = None" "releasing (gs ! j) = None" "\<not> announced b ?g" "announced b (gs ! j) \<longleftrightarrow> b = a" for b
    using assms(3,4,5) i by (auto simp: views announced_def begin_cmd_def r(1))
  have "0 < cnt (announced a) gs"
    unfolding cnt_pos using u(8)[of a] assms(2) by (intro bexI[of _ "gs ! j"]) simp_all
  then have "rw_pending (pm_mux (muxes l a)) \<and> \<not> rw_writer (pm_mux (muxes l a))"
    using I(4)[of a] by (cases "rw_pending (pm_mux (muxes l a))") (auto simp: mutex_inv_def Let_def)
  moreover have "wf_go ?g" "mux_ok (pathmap l) ?g"
    using r by (simp_all add: begin_cmd_def mux_ok_def)
  ultimately show ?thesis
    using u x assms(6) I(4)[of a]
    by (intro lk_inv_mutex[OF assms(1,2)])
      (auto simp: rholds_def wholds_def Lock_acquire_def mutex_inv_def Let_def split: if_splits)
qed

lemma begin_views:
  assumes "paired rest"
  shows "uses (begin_cmd rest) = {}" "reads (begin_cmd rest) = {}" "writes (begin_cmd rest) = {}"
    "releasing (begin_cmd rest) = None" "\<not> announced b (begin_cmd rest)" "wf_go (begin_cmd rest)"
    "mux_ok m (begin_cmd rest)"
  using assms
  by (cases rest rule: paired.cases; auto simp: views begin_cmd_def announced_def mux_ok_def)+

lemma release_keeps:
  assumes "lk_inv l gs" "j < length gs" "g_prog (gs ! j) = UnlockPath p # rest" "g_pc (gs ! j) = AtRelease i a"
  defines "m \<equiv> pm_mux (muxes l a)"
  shows "lk_inv (set_mux a (if i = length (pp p) - 1 then Unlock m else RUnlock m) l)
    (gs[j := (if i = 0 then begin_cmd rest else (gs ! j)\<lparr>g_pc := AtLeave (i - 1)\<rparr>)])"
proof -
  let ?g = "if i = 0 then begin_cmd rest else (gs ! j)\<lparr>g_pc := AtLeave (i - 1)\<rparr>"
  note I = lk_invD[OF assms(1,2)]
  have i: "i < length (pp p)" and rest: "paired rest"
    using I(1) assms(3,4) by auto
  note B = begin_views[OF rest]
  have u: "uses ?g = uses (gs ! j)" "reads ?g = reads (gs ! j)" "reads (gs ! j) \<subseteq> uses (gs ! j)" "writes ?g = {}"
    "writes (gs ! j) = {}" "releasing ?g = None" "releasing (gs ! j) = Some (a, i = length (pp p) - 1)"
    "announced b ?g = announced b (gs ! j)" "wf_go ?g" "mux_ok (pathmap l) ?g" for b
    using assms(3,4) i rest B by (auto simp: views announced_def mux_ok_def)
  have own: "\<forall>x \<in> uses (gs ! j). fmlookup (pathmap l) x \<noteq> Some a"
    using refs_invD(6)[OF I(3) _ u(7)] assms(2) by auto
  have h: "rholds (pathmap l) a (gs ! j) \<longleftrightarrow> i \<noteq> length (pp p) - 1" "wholds (pathmap l) a (gs ! j) \<longleftrightarrow> i = length (pp p) - 1"
    "\<not> rholds (pathmap l) a ?g" "\<not> wholds (pathmap l) a ?g"
    using own u(2-7) unfolding rholds_def wholds_def by auto
  have pos: "i \<noteq> length (pp p) - 1 \<Longrightarrow> 0 < rw_readers m" "i = length (pp p) - 1 \<Longrightarrow> rw_writer m"
    using I(4)[of a] h(1,2) assms(2) cnt_pos[of "rholds (pathmap l) a" gs] cnt_pos[of "wholds (pathmap l) a" gs]
    by (auto simp: mutex_inv_def Let_def m_def)
  have b: "rholds (pathmap l) b ?g = rholds (pathmap l) b (gs ! j) \<and> wholds (pathmap l) b ?g = wholds (pathmap l) b (gs ! j) \<and>
      announced b ?g = announced b (gs ! j)" if "b \<noteq> a" for b
    using u(2,4-8) that unfolding rholds_def wholds_def by auto
  show ?thesis
  proof (rule lk_inv_mutex[OF assms(1,2) u(9,10,1,6) b])
    let ?m = "if i = length (pp p) - 1 then Unlock m else RUnlock m"
    show "rw_readers ?m + of_bool (rholds (pathmap l) a (gs ! j)) = rw_readers (pm_mux (muxes l a)) + of_bool (rholds (pathmap l) a ?g)"
      using h pos by (auto simp: Unlock_def RUnlock_def m_def)
    show "of_bool (rw_writer ?m) + of_bool (wholds (pathmap l) a (gs ! j)) =
        (of_bool (rw_writer (pm_mux (muxes l a))) + of_bool (wholds (pathmap l) a ?g) :: nat)"
      using h pos by (auto simp: Unlock_def RUnlock_def m_def)
    show "of_bool (rw_pending ?m) + of_bool (announced a (gs ! j)) =
        (of_bool (rw_pending (pm_mux (muxes l a))) + of_bool (announced a ?g) :: nat)"
      using u(8) by (auto simp: Unlock_def RUnlock_def m_def)
    show "rw_writer ?m \<longrightarrow> rw_readers ?m = 0 \<and> \<not> rw_pending ?m"
      using I(4)[of a] by (auto simp: mutex_inv_def Let_def Unlock_def RUnlock_def m_def)
  qed
qed

lemma go_step_keeps:
  assumes "lk_inv l gs" "j < length gs" "go_step (gs ! j) l = Some (g, l')"
  shows "lk_inv l' (gs[j := g])"
proof (cases "g_prog (gs ! j)")
  case Nil
  then show ?thesis using assms(3) by (simp add: go_step_def)
next
  case (Cons c rest)
  note wf = lk_invD(1)[OF assms(1,2)]
  show ?thesis
  proof (cases c)
    case (LockPath p)
    with Cons assms(3) have s: "lockPath_step p rest (gs ! j) l = Some (g, l')"
      by (simp add: go_step_def)
    note P = Cons[unfolded LockPath]
    show ?thesis
    proof (cases "g_pc (gs ! j)")
      case (AtMap i)
      with s show ?thesis
        using enter_keeps[OF assms(1,2) P AtMap] by (simp add: lockPath_step_def split: prod.splits)
    next
      case (AtMux i a ann)
      with s show ?thesis
        using RLock_keeps[OF assms(1,2) P AtMux] announce_keeps[OF assms(1,2) P, of i a]
          acquire_keeps[OF assms(1,2) P, of i a]
        by (auto simp: lockPath_step_def Let_def split: if_splits)
    qed (use s in \<open>simp_all add: lockPath_step_def\<close>)
  next
    case (UnlockPath p)
    with Cons assms(3) have s: "unlockPath_step p rest (gs ! j) l = Some (g, l')"
      by (simp add: go_step_def)
    note P = Cons[unfolded UnlockPath]
    show ?thesis
    proof (cases "g_pc (gs ! j)")
      case (AtLeave i)
      obtain a l1 where "leave_mux (pp p ! i) l = Some (a, l1)" "lk_inv l1 (gs[j := (gs ! j)\<lparr>g_pc := AtRelease i a\<rparr>])"
        by (rule leave_keeps[OF assms(1,2) P AtLeave])
      with s AtLeave show ?thesis
        by (simp add: unlockPath_step_def)
    next
      case (AtRelease i a)
      with s show ?thesis
        using release_keeps[OF assms(1,2) P AtRelease] by (auto simp: unlockPath_step_def Let_def)
    qed (use s in \<open>simp_all add: unlockPath_step_def\<close>)
  qed
qed

text \<open>The start: no path is locked, and each goroutine is to run a program that locks one path at a time.\<close>

definition lk_start :: "cmd list list \<Rightarrow> locks \<times> goroutine list" where
  "lk_start progs = (locks0, map begin_cmd progs)"

lemma lk_inv_start:
  assumes "\<forall>prog \<in> set progs. paired prog"
  shows "lk_inv locks0 (map begin_cmd progs)"
proof -
  have "cnt (announced a) (map begin_cmd progs) = 0" "cnt (rholds fmempty a) (map begin_cmd progs) = 0"
    "cnt (wholds fmempty a) (map begin_cmd progs) = 0" for a
    using assms begin_views by (auto simp: cnt_0 rholds_def wholds_def)
  then have "mutex_inv locks0 (map begin_cmd progs) a" for a
    by (simp add: mutex_inv_def locks0_def rw0_def)
  moreover have "wf_go g \<and> mux_ok m g \<and> uses g = {} \<and> releasing g = None" if "g \<in> set (map begin_cmd progs)" for g m
    using that assms begin_views by fastforce
  ultimately show ?thesis
    unfolding lk_inv_def refs_inv_def by (auto simp: locks0_def simp del: wf_go.simps)
qed

lemma lk_inv_reach:
  assumes "lk_reach (lk_start progs) (l, gs)" "\<forall>prog \<in> set progs. paired prog"
  shows "lk_inv l gs \<and> length gs = length progs"
proof -
  have "lk_reach s s' \<Longrightarrow> s = lk_start progs \<Longrightarrow> lk_inv (fst s') (snd s') \<and> length (snd s') = length progs" for s s'
  proof (induction rule: lk_reach.induct)
    case (start s)
    then show ?case using lk_inv_start[OF assms(2)] by (simp add: lk_start_def)
  next
    case (step s s' s'')
    then show ?case
      using go_step_keeps by (cases s') (auto elim!: lk_stepE)
  qed
  from this[OF assms(1) refl] show ?thesis by simp
qed


subsection \<open>Waiting\<close>

text \<open>
  A goroutine that cannot step is waiting for a mutex.  What it waits for is held by a goroutine that
  is deeper in the tree or not waiting.
\<close>

lemma go_step_waiting:
  assumes "lk_inv l gs" "j < length gs" "go_step (gs ! j) l = None"
  shows "finished (gs ! j) \<or> (\<exists>p rest i a ann. g_prog (gs ! j) = LockPath p # rest \<and> g_pc (gs ! j) = AtMux i a ann)"
proof (cases "g_prog (gs ! j)")
  case Nil
  then show ?thesis by (simp add: finished_def)
next
  case (Cons c rest)
  note wf = lk_invD(1)[OF assms(1,2)]
  show ?thesis
  proof (cases c)
    case (LockPath p)
    with Cons wf assms(3) show ?thesis
      by (cases "g_pc (gs ! j)") (auto simp: go_step_def lockPath_step_def case_prod_beta Let_def)
  next
    case (UnlockPath p)
    have "\<exists>i. g_pc (gs ! j) = AtLeave i"
      using Cons UnlockPath wf assms(3)
      by (cases "g_pc (gs ! j)") (auto simp: go_step_def unlockPath_step_def Let_def)
    then obtain i where i: "g_pc (gs ! j) = AtLeave i" ..
    obtain a l' where "leave_mux (pp p ! i) l = Some (a, l')"
      using leave_keeps[OF assms(1,2) Cons[unfolded UnlockPath] i] by blast
    with assms(3) Cons UnlockPath i show ?thesis
      by (simp add: go_step_def unlockPath_step_def)
  qed
qed

lemma announced_blocked:
  assumes "lk_inv l gs" "j < length gs" "g_prog (gs ! j) = LockPath p # rest" "g_pc (gs ! j) = AtMux i a True"
    and "go_step (gs ! j) l = None" and stuck: "\<And>k. k < length gs \<Longrightarrow> go_step (gs ! k) l = None"
  obtains k q r i' b ann where "k < length gs" "g_prog (gs ! k) = LockPath q # r" "g_pc (gs ! k) = AtMux i' b ann" "i < i'"
proof -
  note I = lk_invD[OF assms(1,2)]
  have i: "i = length (pp p) - 1" "i < length (pp p)" and x: "fmlookup (pathmap l) (pp p ! i) = Some a"
    using I(1,2) assms(3,4) by (auto simp: mux_ok_def)
  have "0 < cnt (rholds (pathmap l) a) gs"
    using assms(3-5) i(1) I(4)[of a]
    by (auto simp: go_step_def lockPath_step_def Lock_acquire_def mutex_inv_def Let_def split: if_splits)
  then obtain k where k: "k < length gs" "rholds (pathmap l) a (gs ! k)"
    unfolding cnt_pos by (metis in_set_conv_nth)
  obtain y where y: "y \<in> reads (gs ! k)" "fmlookup (pathmap l) y = Some a"
    and pc: "\<exists>q r i' b ann. g_prog (gs ! k) = LockPath q # r \<and> g_pc (gs ! k) = AtMux i' b ann"
    using k(2) go_step_waiting[OF assms(1) k(1) stuck[OF k(1)]]
    by (auto simp: rholds_def views finished_def)
  then obtain q r i' b ann where q: "g_prog (gs ! k) = LockPath q # r" "g_pc (gs ! k) = AtMux i' b ann" by blast
  have "y = pp p ! i"
    using refs_invD(5)[OF I(3) x y(2)] by simp
  moreover obtain n where n: "n < i'" "n < length (pp q)" "y = pp q ! n"
    using y(1) q by (auto simp: reads_def in_set_conv_nth)
  ultimately have "i < i'"
    using pp_depth[OF i(2) n(2)] by simp
  with that k(1) q show thesis by blast
qed

lemma blocked_announced:
  assumes "lk_inv l gs" "j < length gs" "g_prog (gs ! j) = LockPath p # rest" "g_pc (gs ! j) = AtMux i a False"
    and stuck: "\<And>k. k < length gs \<Longrightarrow> go_step (gs ! k) l = None"
  obtains k q r where "k < length gs" "g_prog (gs ! k) = LockPath q # r" "g_pc (gs ! k) = AtMux i a True"
proof -
  note I = lk_invD[OF assms(1,2)]
  have i: "i < length (pp p)" and x: "fmlookup (pathmap l) (pp p ! i) = Some a"
    using I(1,2) assms(3,4) by (auto simp: mux_ok_def)
  have "rw_writer (pm_mux (muxes l a)) \<or> rw_pending (pm_mux (muxes l a))"
    using stuck[OF assms(2)] assms(3,4)
    by (auto simp: go_step_def lockPath_step_def Lock_announce_def RLock_def Let_def split: if_splits)
  moreover have "\<not> rw_writer (pm_mux (muxes l a))"
  proof
    assume "rw_writer (pm_mux (muxes l a))"
    then have "0 < cnt (wholds (pathmap l) a) gs"
      using I(4)[of a] by (auto simp: mutex_inv_def Let_def)
    then obtain k where k: "k < length gs" "wholds (pathmap l) a (gs ! k)"
      unfolding cnt_pos by (metis in_set_conv_nth)
    then show False
      using go_step_waiting[OF assms(1) k(1) stuck[OF k(1)]] by (auto simp: wholds_def views finished_def)
  qed
  ultimately have "0 < cnt (announced a) gs"
    using I(4)[of a] by (auto simp: mutex_inv_def Let_def)
  then obtain k i' where k: "k < length gs" "g_pc (gs ! k) = AtMux i' a True"
    unfolding cnt_pos announced_def by (metis in_set_conv_nth)
  note K = lk_invD[OF assms(1) k(1)]
  obtain q r where q: "g_prog (gs ! k) = LockPath q # r"
    using K(1) k(2) by (auto split: list.splits cmd.splits)
  have "fmlookup (pathmap l) (pp q ! i') = Some a" "i' < length (pp q)"
    using K(1,2) q k(2) by (auto simp: mux_ok_def)
  then have "i = i'"
    using refs_invD(5)[OF I(3) x] pp_depth[OF i] by blast
  with that k q show thesis by blast
qed

lemma lk_progress:
  assumes "lk_inv l gs" "\<exists>g \<in> set gs. \<not> finished g"
  shows "\<exists>k < length gs. go_step (gs ! k) l \<noteq> None"
proof (rule ccontr)
  assume "\<not> ?thesis"
  then have stuck: "\<And>k. k < length gs \<Longrightarrow> go_step (gs ! k) l = None" by blast
  define W where "W = {i. \<exists>k p rest a. k < length gs \<and> g_prog (gs ! k) = LockPath p # rest \<and> g_pc (gs ! k) = AtMux i a True}"
  have inW: "i \<in> W" if w: "k < length gs" "g_prog (gs ! k) = LockPath p # rest" "g_pc (gs ! k) = AtMux i a ann"
    for k p rest i a ann
  proof (cases ann)
    case True
    with w show ?thesis by (auto simp: W_def)
  next
    case False
    then have pc: "g_pc (gs ! k) = AtMux i a False"
      using w(3) by simp
    obtain k' q r where "k' < length gs" "g_prog (gs ! k') = LockPath q # r" "g_pc (gs ! k') = AtMux i a True"
      by (rule blocked_announced[OF assms(1) w(1,2) pc stuck])
    then show ?thesis
      by (auto simp: W_def)
  qed
  have "W \<subseteq> (\<lambda>k. case g_pc (gs ! k) of AtMux i a ann \<Rightarrow> i | _ \<Rightarrow> 0) ` {..<length gs}"
    by (force simp: W_def)
  then have fin: "finite W"
    by (rule finite_subset) simp
  obtain j where j: "j < length gs" "\<not> finished (gs ! j)"
    using assms(2) by (metis in_set_conv_nth)
  then have "W \<noteq> {}"
    using go_step_waiting[OF assms(1) j(1) stuck[OF j(1)]] inW[OF j(1)] by blast
  then have "Max W \<in> W"
    using fin by simp
  then obtain k p rest a where k: "k < length gs" "g_prog (gs ! k) = LockPath p # rest" "g_pc (gs ! k) = AtMux (Max W) a True"
    by (auto simp: W_def)
  obtain k' q r i' b ann where k': "k' < length gs" "g_prog (gs ! k') = LockPath q # r" "g_pc (gs ! k') = AtMux i' b ann"
    "Max W < i'"
    by (rule announced_blocked[OF assms(1) k stuck[OF k(1)] stuck])
  then show False
    using inW[OF k'(1-3)] Max_ge[OF fin] by fastforce
qed

text \<open>Every step uses up some of the work the goroutines have left.\<close>

fun cmd_work :: "cmd \<Rightarrow> nat" where
  "cmd_work (LockPath p) = 3 * length (pp p)"
| "cmd_work (UnlockPath p) = 2 * length (pp p)"

definition go_work :: "goroutine \<Rightarrow> nat" where
  "go_work g =
     (case g_prog g of
        [] \<Rightarrow> 0
      | LockPath p # rest \<Rightarrow> sum_list (map cmd_work rest) +
          (case g_pc g of
             AtMap i \<Rightarrow> 3 * (length (pp p) - i)
           | AtMux i a ann \<Rightarrow> 3 * (length (pp p) - i) - (if ann then 2 else 1)
           | _ \<Rightarrow> 0)
      | UnlockPath p # rest \<Rightarrow> sum_list (map cmd_work rest) +
          (case g_pc g of AtLeave i \<Rightarrow> 2 * Suc i | AtRelease i a \<Rightarrow> 2 * i + 1 | _ \<Rightarrow> 0))"

lemma go_work_begin: "go_work (begin_cmd prog) = sum_list (map cmd_work prog)"
  by (cases prog rule: paired.cases) (auto simp: go_work_def begin_cmd_def Suc_diff_Suc split: cmd.splits)


lemma go_work_step:
  assumes "wf_go g" "go_step g l = Some (g', l')"
  shows "go_work g' < go_work g"
proof (cases "g_prog g")
  case Nil
  with assms(2) show ?thesis by (simp add: go_step_def)
next
  case (Cons c rest)
  show ?thesis
  proof (cases c)
    case (LockPath p)
    with Cons assms have s: "lockPath_step p rest g l = Some (g', l')" and wf: "\<And>i. g_pc g = AtMap i \<Longrightarrow> i < length (pp p)"
      "\<And>i a ann. g_pc g = AtMux i a ann \<Longrightarrow> i < length (pp p) \<and> (ann \<longrightarrow> i = length (pp p) - 1)"
      by (auto simp: go_step_def)
    show ?thesis
    proof (cases "g_pc g")
      case (AtMap i)
      then show ?thesis
        using s wf(1)[OF AtMap] Cons LockPath by (auto simp: lockPath_step_def go_work_def split: prod.splits)
    next
      case (AtMux i a ann)
      then show ?thesis
        using s wf(2)[OF AtMux] Cons LockPath
        by (auto simp: lockPath_step_def go_work_begin Let_def split: if_splits) (auto simp: go_work_def)
    qed (use s in \<open>simp_all add: lockPath_step_def\<close>)
  next
    case (UnlockPath p)
    with Cons assms(2) have s: "unlockPath_step p rest g l = Some (g', l')"
      by (simp add: go_step_def)
    show ?thesis
    proof (cases "g_pc g")
      case (AtLeave i)
      then show ?thesis
        using s Cons UnlockPath by (auto simp: unlockPath_step_def go_work_def)
    next
      case (AtRelease i a)
      then show ?thesis
        using s Cons UnlockPath
        using go_work_begin[of rest] by (cases "i = 0") (auto simp: unlockPath_step_def go_work_def Let_def)
    qed (use s in \<open>simp_all add: unlockPath_step_def\<close>)
  qed
qed

definition lk_work :: "locks \<times> goroutine list \<Rightarrow> nat" where
  "lk_work s = sum_list (map go_work (snd s))"

lemma sum_list_upd_less:
  assumes "j < length xs" "f y < (f (xs ! j) :: nat)"
  shows "sum_list (map f (xs[j := y])) < sum_list (map f xs)"
proof -
  have "sum_list (map f xs) = sum_list (map f (take j xs)) + f (xs ! j) + sum_list (map f (drop (Suc j) xs))"
    by (subst id_take_nth_drop[OF assms(1)]) simp
  then show ?thesis
    using assms by (simp add: upd_conv_take_nth_drop)
qed

lemma lk_step_work:
  assumes "lk_inv l gs" "lk_step (l, gs) s"
  shows "lk_work s < lk_work (l, gs)"
  using assms(2)
proof (rule lk_stepE)
  fix i l' g
  assume "s = (l', gs[i := g])" "i < length gs" "go_step (gs ! i) l = Some (g, l')"
  then show ?thesis
    using sum_list_upd_less[of i gs go_work g] go_work_step[OF lk_invD(1)[OF assms(1)]]
    by (simp add: lk_work_def)
qed

lemma lk_finish:
  assumes "lk_inv l gs"
  shows "\<exists>l' gs'. lk_reach (l, gs) (l', gs') \<and> lk_inv l' gs' \<and> (\<forall>g \<in> set gs'. finished g)"
  using assms
proof (induction "lk_work (l, gs)" arbitrary: l gs rule: less_induct)
  case less
  show ?case
  proof (cases "\<forall>g \<in> set gs. finished g")
    case True
    with less.prems lk_reach.start show ?thesis by blast
  next
    case False
    then obtain k g l1 where k: "k < length gs" "go_step (gs ! k) l = Some (g, l1)"
      using lk_progress[OF less.prems] by auto
    have st: "lk_step (l, gs) (l1, gs[k := g])"
      using k by (rule lk_step.go)
    obtain l' gs' where r: "lk_reach (l1, gs[k := g]) (l', gs')" "lk_inv l' gs'" "\<forall>g \<in> set gs'. finished g"
      using less.hyps[OF lk_step_work[OF less.prems st] go_step_keeps[OF less.prems k]] by blast
    have "lk_reach s s' \<Longrightarrow> lk_step s0 s \<Longrightarrow> lk_reach s0 s'" for s s' s0
      by (induction rule: lk_reach.induct) (auto intro: lk_reach.intros)
    with r st show ?thesis by blast
  qed
qed

lemma finished_no_entries:
  assumes "lk_inv l gs" "\<forall>g \<in> set gs. finished g"
  shows "pathmap l = fmempty"
proof (rule fmap_ext)
  fix x
  have R: "refs_inv l gs" using assms(1) by (simp add: lk_inv_def)
  have "cnt (\<lambda>g. x \<in> uses g) gs = 0"
    using assms(2) by (auto simp: cnt_0 uses_def finished_def)
  then show "fmlookup (pathmap l) x = fmlookup fmempty x"
    using refs_invD(2)[OF R, of x] by (cases "fmlookup (pathmap l) x") auto
qed

lemma pp_ancestor:
  assumes "prefix (components p) (components q)"
  shows "pp p ! (length (pp p) - 1) \<in> set (pp q)"
proof -
  let ?n = "length (components p)"
  have l: "length (pp r) = Suc (length (components r))" for r
    by (simp add: partialPaths_components)
  have "?n \<le> length (components q)" "take ?n (components q) = components p"
    using assms by (auto simp: prefix_def)
  then have "pp q ! ?n = pp p ! ?n"
    using pp_nth[of ?n p] pp_nth[of ?n q] l by simp
  then show ?thesis
    using \<open>?n \<le> length (components q)\<close> l nth_mem[of ?n "pp q"] by (metis diff_Suc_1 le_imp_less_Suc)
qed

lemma inside_exclusive:
  assumes "lk_inv l gs" "j < length gs" "k < length gs" "j \<noteq> k" "inside p (gs ! j)" "inside q (gs ! k)"
  shows "\<not> prefix (components p) (components q)"
proof
  assume pre: "prefix (components p) (components q)"
  let ?x = "pp p ! (length (pp p) - 1)"
  note I = lk_invD[OF assms(1)]
  have w: "?x \<in> writes (gs ! j)"
    using assms(5) by (auto simp: inside_def writes_def begin_cmd_def)
  then have "?x \<in> uses (gs ! j)"
    using holds_uses(2)[OF I(1)[OF assms(2)]] by blast
  then obtain a where a: "fmlookup (pathmap l) ?x = Some a"
    using refs_invD(4)[OF I(3)[OF assms(2)], of ?x "gs ! j"] assms(2) by (cases "fmlookup (pathmap l) ?x") auto
  have M: "mutex_inv l gs a"
    using I(4)[OF assms(2)] .
  have wj: "wholds (pathmap l) a (gs ! j)"
    using w a by (auto simp: wholds_def)
  have "set (pp q) = reads (gs ! k) \<union> writes (gs ! k)"
  proof -
    have "set (pp q) = insert (pp q ! (length (pp q) - 1)) (set (take (length (pp q) - 1) (pp q)))"
      using take_last[of "length (pp q) - 1" "pp q"] by simp
    then show ?thesis
      using assms(6) by (force simp: inside_def reads_def writes_def begin_cmd_def)
  qed
  then have "rholds (pathmap l) a (gs ! k) \<or> wholds (pathmap l) a (gs ! k)"
    using pp_ancestor[OF pre] a by (auto simp: rholds_def wholds_def)
  moreover have "\<not> wholds (pathmap l) a (gs ! k)"
    using cnt_two[OF assms(2-4), of "wholds (pathmap l) a"] wj M by (cases "rw_writer (pm_mux (muxes l a))") (auto simp: mutex_inv_def Let_def)
  moreover have "\<not> rholds (pathmap l) a (gs ! k)"
  proof
    assume "rholds (pathmap l) a (gs ! k)"
    then have "0 < cnt (rholds (pathmap l) a) gs"
      unfolding cnt_pos using assms(3) nth_mem by blast
    moreover have "0 < cnt (wholds (pathmap l) a) gs"
      unfolding cnt_pos using assms(2) wj nth_mem by blast
    ultimately show False
      using M by (cases "rw_writer (pm_mux (muxes l a))") (auto simp: mutex_inv_def Let_def)
  qed
  ultimately show False by blast
qed

text \<open>Running goroutines in a given order.\<close>

fun lk_run :: "nat list \<Rightarrow> locks \<times> goroutine list \<Rightarrow> (locks \<times> goroutine list) option" where
  "lk_run [] s = Some s"
| "lk_run (i # is) (l, gs) =
     (if i < length gs
      then (case go_step (gs ! i) l of None \<Rightarrow> None | Some (g, l') \<Rightarrow> lk_run is (l', gs[i := g]))
      else None)"

lemma lk_run_reach: "lk_run is s = Some s' \<Longrightarrow> lk_reach s0 s \<Longrightarrow> lk_reach s0 s'"
proof (induction "is" s rule: lk_run.induct)
  case (2 i "is" l gs)
  then obtain g l' where g: "i < length gs" "go_step (gs ! i) l = Some (g, l')" "lk_run is (l', gs[i := g]) = Some s'"
    by (auto split: if_splits option.splits)
  from lk_reach.step[OF 2(3) lk_step.go[OF g(1,2)]] show ?case
    using 2(1)[OF g(1,2) _ g(3)] by simp
qed simp

lemma pp_demo [simp]: "pp ''/a'' = [''/'', ''/a'']" "pp ''/b'' = [''/'', ''/b'']" "pp ''/d'' = [''/'', ''/d'']"
  "pp ''/d/a'' = [''/'', ''/d'', ''/d/a'']" "pp ''/d/b'' = [''/'', ''/d'', ''/d/b'']"
  by code_simp+

lemma demo_inside:
  "\<exists>l gs. lk_run [0, 0, 0, 1, 1, 1, 0, 1, 0, 1] (lk_start [[LockPath ''/a'', UnlockPath ''/a''], [LockPath ''/b'', UnlockPath ''/b'']]) =
    Some (l, gs) \<and> gs = [begin_cmd [UnlockPath ''/a''], begin_cmd [UnlockPath ''/b'']]"
  by (simp add: lk_start_def begin_cmd_def go_step_def lockPath_step_def enter_mux_def add_ref_def set_mux_def
      RLock_def Lock_announce_def Lock_acquire_def locks0_def rw0_def Let_def)

subsection \<open>Properties\<close>

text \<open>
  C5. Mutual exclusion along the tree, for goroutines that lock one path at a time, as every operation of the cache
  but \<^verbatim>\<open>renameNode\<close> does: whatever their interleaving, while one of them is between its \<^verbatim>\<open>lockPath\<close> and its
  \<^verbatim>\<open>unlockPath\<close> of a path, no other is between those of the same path, of a path below it, or of a path
  above it.
\<close>

theorem path_lock_exclusive:
  assumes "lk_reach (lk_start progs) (l, gs)" "\<forall>prog \<in> set progs. paired prog"
    and "j < length gs" "k < length gs" "j \<noteq> k" "inside p (gs ! j)" "inside q (gs ! k)"
  shows "\<not> prefix (components p) (components q) \<and> \<not> prefix (components q) (components p)"
proof -
  have I: "lk_inv l gs"
    using lk_inv_reach[OF assms(1,2)] ..
  have "\<not> prefix (components p) (components q)"
    if "j < length gs" "k < length gs" "j \<noteq> k" "inside p (gs ! j)" "inside q (gs ! k)" for j k p q
    using inside_exclusive[OF I that] .
  with assms(3-7) show ?thesis by metis
qed

theorem path_lock_exclusive_witness:
  "\<exists>l gs. lk_reach (lk_start [[LockPath ''/a'', UnlockPath ''/a''], [LockPath ''/b'', UnlockPath ''/b'']]) (l, gs) \<and>
     inside ''/a'' (gs ! 0) \<and> inside ''/b'' (gs ! 1) \<and>
     \<not> prefix (components ''/a'') (components ''/b'') \<and> \<not> prefix (components ''/b'') (components ''/a'')"
proof -
  let ?progs = "[[LockPath ''/a'', UnlockPath ''/a''], [LockPath ''/b'', UnlockPath ''/b'']]"
  obtain l gs where run: "lk_run [0, 0, 0, 1, 1, 1, 0, 1, 0, 1] (lk_start ?progs) = Some (l, gs)"
    and gs: "gs = [begin_cmd [UnlockPath ''/a''], begin_cmd [UnlockPath ''/b'']]"
    using demo_inside by blast
  note r = lk_run_reach[OF run lk_reach.start]
  have h: "\<forall>prog \<in> set ?progs. paired prog" "0 < length gs" "1 < length gs" "(0 :: nat) \<noteq> 1"
    "inside ''/a'' (gs ! 0)" "inside ''/b'' (gs ! 1)"
    by (auto simp: inside_def gs)
  with path_lock_exclusive[OF r h] r show ?thesis
    by blast
qed

text \<open>
  C9. The operations that lock one path at a time cannot block one another for good: in every state they can
  reach, some goroutine can go on unless all have finished; and there is a way to go on until all have
  finished, and then every entry of the map of path locks has been deleted.
\<close>

theorem path_lock_progress:
  assumes "lk_reach (lk_start progs) (l, gs)" "\<forall>prog \<in> set progs. paired prog"
  shows "((\<exists>g \<in> set gs. \<not> finished g) \<longrightarrow> (\<exists>s. lk_step (l, gs) s)) \<and>
    (\<exists>l' gs'. lk_reach (l, gs) (l', gs') \<and> (\<forall>g \<in> set gs'. finished g) \<and> pathmap l' = fmempty)"
proof -
  have I: "lk_inv l gs"
    using lk_inv_reach[OF assms] ..
  have "\<exists>s. lk_step (l, gs) s" if "\<exists>g \<in> set gs. \<not> finished g"
    using lk_progress[OF I that] lk_step.go by fastforce
  with lk_finish[OF I] finished_no_entries show ?thesis by blast
qed

theorem path_lock_progress_witness:
  "\<exists>l gs. lk_reach (lk_start [[LockPath ''/a'', UnlockPath ''/a''], [LockPath ''/b'', UnlockPath ''/b'']]) (l, gs) \<and>
     (\<exists>s. lk_step (l, gs) s) \<and>
     (\<exists>l' gs'. lk_reach (l, gs) (l', gs') \<and> (\<forall>g \<in> set gs'. finished g) \<and> pathmap l' = fmempty)"
proof -
  let ?progs = "[[LockPath ''/a'', UnlockPath ''/a''], [LockPath ''/b'', UnlockPath ''/b'']]"
  obtain l gs where run: "lk_run [0, 0, 0, 1, 1, 1, 0, 1, 0, 1] (lk_start ?progs) = Some (l, gs)"
    and gs: "gs = [begin_cmd [UnlockPath ''/a''], begin_cmd [UnlockPath ''/b'']]"
    using demo_inside by blast
  note r = lk_run_reach[OF run lk_reach.start]
  have "\<exists>g \<in> set gs. \<not> finished g"
    by (simp add: gs finished_def begin_cmd_def)
  with path_lock_progress[OF r] r show ?thesis
    by auto
qed

text \<open>
  C10. Every run of such operations ends: there is no infinite sequence of steps of the locks, whatever
  the order in which the goroutines run.
\<close>

theorem path_lock_terminates:
  assumes "\<forall>prog \<in> set progs. paired prog"
  shows "\<not> (\<exists>f. f 0 = lk_start progs \<and> (\<forall>n. lk_step (f n) (f (Suc n))))"
proof
  assume "\<exists>f. f 0 = lk_start progs \<and> (\<forall>n. lk_step (f n) (f (Suc n)))"
  then obtain f where f: "f 0 = lk_start progs" "\<And>n. lk_step (f n) (f (Suc n))" by blast
  have "lk_reach (lk_start progs) (f n)" for n
  proof (induction n)
    case 0
    then show ?case using f(1) lk_reach.start by simp
  next
    case (Suc n)
    then show ?case using f(2) lk_reach.step by blast
  qed
  then have inv: "lk_inv (fst (f n)) (snd (f n))" for n
    using lk_inv_reach[OF _ assms, of "fst (f n)" "snd (f n)"] by simp
  have "lk_work (f (Suc n)) < lk_work (f n)" for n
    using lk_step_work[OF inv[of n]] f(2)[of n] by simp
  then show False
    using wf_no_infinite_down_chainE[OF wf_measure[of lk_work], of f] by simp
qed

theorem path_lock_terminates_witness:
  "\<not> (\<exists>f. f 0 = lk_start [[LockPath ''/a'', UnlockPath ''/a''], [LockPath ''/a'', UnlockPath ''/a'']] \<and>
          (\<forall>n. lk_step (f n) (f (Suc n))))"
  by (rule path_lock_terminates) simp

text \<open>
  C11. \<^verbatim>\<open>renameNode\<close>, which locks two paths, can block for good: while it renames \<^verbatim>\<open>/d/a\<close> to \<^verbatim>\<open>/d/b\<close> and another
  goroutine locks \<^verbatim>\<open>/d\<close>, a state can be reached in which neither can go on.  The rename holds the read
  lock of \<^verbatim>\<open>/d\<close> from its first \<^verbatim>\<open>lockPath\<close>, the other's \<^verbatim>\<open>Lock\<close> of \<^verbatim>\<open>/d\<close> waits for it and keeps out new readers,
  and the second \<^verbatim>\<open>lockPath\<close> of the rename wants to read \<^verbatim>\<open>/d\<close> again.
\<close>

theorem rename_deadlock:
  "\<exists>l gs. lk_reach (lk_start [rename_locks ''/d/a'' ''/d/b'', [LockPath ''/d'', UnlockPath ''/d'']]) (l, gs) \<and>
     list_all (\<lambda>g. \<not> finished g) gs \<and> \<not> (\<exists>s. lk_step (l, gs) s)"
proof -
  let ?s = "lk_start [rename_locks ''/d/a'' ''/d/b'', [LockPath ''/d'', UnlockPath ''/d'']]"
  have "\<exists>l gs. lk_run [0, 0, 0, 0, 0, 0, 0, 1, 1, 1, 1, 0, 0, 0] ?s = Some (l, gs) \<and> length gs = 2 \<and>
      \<not> finished (gs ! 0) \<and> \<not> finished (gs ! 1) \<and> go_step (gs ! 0) l = None \<and> go_step (gs ! 1) l = None"
    by (simp add: rename_locks_def lk_start_def begin_cmd_def go_step_def lockPath_step_def enter_mux_def add_ref_def
        set_mux_def RLock_def Lock_announce_def Lock_acquire_def locks0_def rw0_def finished_def less_char_def Let_def)
  then obtain l gs where run: "lk_run [0, 0, 0, 0, 0, 0, 0, 1, 1, 1, 1, 0, 0, 0] ?s = Some (l, gs)" and two: "length gs = 2"
    and g: "\<not> finished (gs ! 0)" "\<not> finished (gs ! 1)" "go_step (gs ! 0) l = None" "go_step (gs ! 1) l = None"
    by blast
  have "\<not> lk_step (l, gs) s" for s
    using g two by (auto elim!: lk_stepE simp: less_2_cases_iff)
  moreover have "list_all (\<lambda>g. \<not> finished g) gs"
    using g two by (auto simp: list_all_length less_2_cases_iff)
  ultimately show ?thesis
    using lk_run_reach[OF run lk_reach.start] by blast
qed

end
