(* ===== verification/Registry.thy ===== *)
theory Registry
  imports Errno
begin

text \<open>
  The registry of object factories: \<^verbatim>\<open>src/objreg/objreg.go\<close>.

  A factory is a function of its arguments and of the world it acts on; a Go map of factories is a
  finite map.  The order in which \<^verbatim>\<open>range\<close> visits a Go map is not specified, so it is the parameter
  \<open>rangekeys\<close>, of which \<open>range_ok\<close> says that every key comes once.  \<^verbatim>\<open>errors.New\<close> of golib is the parameter
  \<open>errors_New\<close>.  The mutex of the registry is held for the whole of each method that uses the map.

  The locale \<open>registry\<close> is what the callers of a registry rely on.
\<close>

subsection \<open>Definitions\<close>

type_synonym ('a, 'o, 'w) ObjectFactory = "'a \<Rightarrow> 'w \<Rightarrow> 'o res \<times> 'w"

type_synonym 'f ObjectFactoryRegistry = "(gostring, 'f) fmap"

type_synonym newerr = "gostring \<Rightarrow> error option \<Rightarrow> errno option \<Rightarrow> error"

definition NewObjectFactoryRegistry :: "'f ObjectFactoryRegistry" where
  "NewObjectFactoryRegistry = fmempty"

definition RegisterFactory :: "gostring \<Rightarrow> 'f \<Rightarrow> 'f ObjectFactoryRegistry \<Rightarrow> 'f ObjectFactoryRegistry" where
  "RegisterFactory name factory reg = fmupd name factory reg"

definition UnregisterFactory :: "gostring \<Rightarrow> 'f ObjectFactoryRegistry \<Rightarrow> 'f ObjectFactoryRegistry" where
  "UnregisterFactory name reg = fmdrop name reg"

definition GetFactory :: "gostring \<Rightarrow> 'f ObjectFactoryRegistry \<Rightarrow> 'f option" where
  "GetFactory name reg = fmlookup reg name"

text \<open>
  \<^verbatim>\<open>GetNames\<close> fills a slice that it has made with as many elements as the map has.
\<close>

fun fill_names :: "gostring list \<Rightarrow> nat \<Rightarrow> gostring list \<Rightarrow> gostring list res" where
  "fill_names [] i names = Ok names"
| "fill_names (n # ns) i names =
     (if i < length names then fill_names ns (Suc i) (names[i := n]) else Panic PanicRuntime)"

definition GetNames :: "('f ObjectFactoryRegistry \<Rightarrow> gostring list) \<Rightarrow> 'f ObjectFactoryRegistry \<Rightarrow> gostring list res" where
  "GetNames rangekeys reg = fill_names (rangekeys reg) 0 (replicate (nat (map_len reg)) [])"

definition NewObject ::
  "newerr \<Rightarrow> gostring \<Rightarrow> 'a \<Rightarrow> ('a, 'o, 'w) ObjectFactory ObjectFactoryRegistry \<Rightarrow> 'w \<Rightarrow> 'o res \<times> 'w" where
  "NewObject errors_New name args reg w =
     (case GetFactory name reg of
        None \<Rightarrow> (Err (errors_New ('': unknown object factory '' @ name) None (Some EINVAL)), w)
      | Some factory \<Rightarrow> factory args w)"

definition range_ok :: "('f ObjectFactoryRegistry \<Rightarrow> gostring list) \<Rightarrow> bool" where
  "range_ok rangekeys \<longleftrightarrow> (\<forall>m. distinct (rangekeys m) \<and> set (rangekeys m) = fset (fmdom m))"

subsection \<open>The interface\<close>

datatype 'f regop = Reg gostring 'f | Unreg gostring

locale registry =
  fixes empty :: 'r
    and register :: "gostring \<Rightarrow> 'f \<Rightarrow> 'r \<Rightarrow> 'r"
    and unregister :: "gostring \<Rightarrow> 'r \<Rightarrow> 'r"
    and get :: "gostring \<Rightarrow> 'r \<Rightarrow> 'f option"
    and names :: "'r \<Rightarrow> gostring list res"
  assumes get_empty: "get n empty = None"
    and get_register: "get m (register n f r) = (if m = n then Some f else get m r)"
    and get_unregister: "get m (unregister n r) = (if m = n then None else get m r)"
    and names_known: "\<exists>ns. names r = Ok ns \<and> distinct ns \<and> (\<forall>n. n \<in> set ns \<longleftrightarrow> get n r \<noteq> None)"
begin

fun exec :: "'f regop \<Rightarrow> 'r \<Rightarrow> 'r" where
  "exec (Reg n f) r = register n f r"
| "exec (Unreg n) r = unregister n r"

fun registered :: "gostring \<Rightarrow> 'f regop list \<Rightarrow> 'f option" where
  "registered m [] = None"
| "registered m (Reg n f # ops) = (if m = n then Some f else registered m ops)"
| "registered m (Unreg n # ops) = (if m = n then None else registered m ops)"

text \<open>The last operation on a name decides; \<open>ops\<close> has the last operation first.\<close>

lemma get_history: "get m (foldr exec ops empty) = registered m ops"
  by (induction m ops rule: registered.induct) (simp_all add: get_empty get_register get_unregister)

text \<open>The sorted names do not depend on the order in which the registry enumerates them.\<close>

lemma sorted_names:
  assumes "names r = Ok ns" and "fset known = {n. get n r \<noteq> None}"
  shows "sort ns = sorted_list_of_fset known"
proof -
  have "distinct ns" "set ns = fset known"
    using names_known[of r] assms by auto
  then show ?thesis
    by (metis sorted_list_of_fset.rep_eq sorted_list_of_set_sort_remdups distinct_remdups_id)
qed

end

lemma fill_names_replicate:
  "length seen + length ns = length names \<Longrightarrow> take (length seen) names = seen \<Longrightarrow>
    fill_names ns (length seen) names = Ok (seen @ ns)"
proof (induction ns arbitrary: seen names)
  case Nil
  then show ?case by simp
next
  case (Cons n ns)
  have "take (length (seen @ [n])) (names[length seen := n]) = seen @ [n]"
    using Cons.prems by (simp add: take_Suc_conv_app_nth)
  then show ?case
    using Cons.IH[of "seen @ [n]" "names[length seen := n]"] Cons.prems by simp
qed

lemma GetNames_range:
  assumes "range_ok rangekeys"
  shows "GetNames rangekeys reg = Ok (rangekeys reg)"
proof -
  have "length (rangekeys reg) = nat (map_len reg)"
    using assms by (metis range_ok_def map_len_def fcard.rep_eq distinct_card nat_int)
  then show ?thesis
    using fill_names_replicate[of "[]" "rangekeys reg" "replicate (nat (map_len reg)) []"]
    by (simp add: GetNames_def)
qed

text \<open>An enumeration of a map in the order of its keys, as an instance of \<open>range_ok\<close>.\<close>

definition sorted_range :: "'f ObjectFactoryRegistry \<Rightarrow> gostring list" where
  "sorted_range m = sorted_list_of_fset (fmdom m)"

lemma sorted_range_ok: "range_ok sorted_range"
  by (simp add: range_ok_def sorted_range_def sorted_list_of_fset.rep_eq)

text \<open>The model implements the interface, whatever the order in which maps are enumerated.\<close>

lemma registry_model:
  assumes "range_ok rangekeys"
  shows "registry NewObjectFactoryRegistry RegisterFactory UnregisterFactory GetFactory (GetNames rangekeys)"
  using assms
  by unfold_locales
    (auto simp: NewObjectFactoryRegistry_def RegisterFactory_def UnregisterFactory_def GetFactory_def
      GetNames_range range_ok_def fmlookup_dom_iff)

interpretation objreg: registry NewObjectFactoryRegistry RegisterFactory UnregisterFactory GetFactory
  "GetNames sorted_range"
  by (rule registry_model[OF sorted_range_ok])

end
