(* ===== verification/Credentials.thy ===== *)
theory Credentials
  imports LocalFs
begin

text \<open>
  Credentials: \<^verbatim>\<open>src/auth/auth.go\<close>.

  A \<^verbatim>\<open>CredentialMap\<close> and a section of a typed configuration are the same Go map, from names to typed
  values.  What the package calls outside the repository is the parameter \<open>authlib\<close>: the typed
  configuration files and the file helpers of golib, the keyring, whose state is a parameter type, and the
  parser of URLs of the standard library, about which nothing is assumed.

  The world of these functions is the operating system and the keyring.
\<close>

subsection \<open>Definitions\<close>

datatype cval = VString gostring | VBool bool | VOther nat

type_synonym CredentialMap = "(gostring, cval) fmap"
type_synonym TypedSection = "(gostring, cval) fmap"
type_synonym TypedConfig = "(gostring, TypedSection) fmap"

record URL =
  u_Scheme :: gostring
  u_Opaque :: gostring
  u_Path :: gostring

record 'k world =
  w_os :: osstate
  w_kr :: 'k

record 'k authlib =
  url_Parse :: "gostring \<Rightarrow> URL res"
  config_ReadTyped :: "bytes \<Rightarrow> TypedConfig res"
  config_WriteTyped :: "TypedConfig \<Rightarrow> bytes res"
  util_ReadFunc :: "gostring \<Rightarrow> (bytes \<Rightarrow> TypedConfig res) \<Rightarrow> osstate \<Rightarrow> TypedConfig res \<times> osstate"
  util_WriteFunc :: "gostring \<Rightarrow> bytes res \<Rightarrow> osstate \<Rightarrow> unit res \<times> osstate"
  keyring_Get :: "gostring \<Rightarrow> gostring \<Rightarrow> 'k \<Rightarrow> gostring res \<times> 'k"
  keyring_Set :: "gostring \<Rightarrow> gostring \<Rightarrow> gostring \<Rightarrow> 'k \<Rightarrow> unit res \<times> 'k"
  keyring_Delete :: "gostring \<Rightarrow> gostring \<Rightarrow> 'k \<Rightarrow> unit res \<times> 'k"
  fmt_Sprint :: "cval \<Rightarrow> gostring"

definition on_wos :: "(osstate \<Rightarrow> 'a res \<times> osstate) \<Rightarrow> ('k, 'z) world_scheme \<Rightarrow> 'a res \<times> ('k, 'z) world_scheme" where
  "on_wos f w = (let (r, x) = f (w_os w) in (r, w\<lparr>w_os := x\<rparr>))"

definition on_wkr :: "('k \<Rightarrow> 'a res \<times> 'k) \<Rightarrow> ('k, 'z) world_scheme \<Rightarrow> 'a res \<times> ('k, 'z) world_scheme" where
  "on_wkr f w = (let (r, x) = f (w_kr w) in (r, w\<lparr>w_kr := x\<rparr>))"

text \<open>\<^verbatim>\<open>CredentialMap.Get\<close>.\<close>

definition cred_Get :: "'k authlib \<Rightarrow> CredentialMap \<Rightarrow> gostring \<Rightarrow> gostring" where
  "cred_Get L m name =
     (case fmlookup m name of
        None \<Rightarrow> []
      | Some (VString s) \<Rightarrow> s
      | Some v \<Rightarrow> fmt_Sprint L v)"

text \<open>
  The three functions start alike: what is not a URL with one of the two schemes is the path of a file.
  \<open>SplitN2\<close> is \<^verbatim>\<open>strings.SplitN(s, "/", 2)\<close>.
\<close>

definition cred_uri :: "'k authlib \<Rightarrow> gostring \<Rightarrow> URL res" where
  "cred_uri L path =
     (let file = Ok \<lparr>u_Scheme = ''file'', u_Opaque = [], u_Path = path\<rparr>
      in case url_Parse L path of
           Err e \<Rightarrow> file
         | Panic q \<Rightarrow> Panic q
         | Ok uri \<Rightarrow> if ''file'' \<noteq> u_Scheme uri \<and> ''keyring'' \<noteq> u_Scheme uri then file else Ok uri)"

definition SplitN2 :: "gostring \<Rightarrow> gostring list" where
  "SplitN2 s =
     (let a = takeWhile (\<lambda>c. c \<noteq> slash) s; b = dropWhile (\<lambda>c. c \<noteq> slash) s
      in if b = [] then [a] else [a, tl b])"

definition service_user :: "gostring \<Rightarrow> gostring \<times> gostring" where
  "service_user opaque =
     (let parts = SplitN2 opaque
      in (if 1 \<le> length parts then parts ! 0 else [], if 2 \<le> length parts then parts ! 1 else []))"

definition ReadCredentials ::
  "'k authlib \<Rightarrow> gostring \<Rightarrow> ('k, 'z) world_scheme \<Rightarrow> CredentialMap res \<times> ('k, 'z) world_scheme" where
  "ReadCredentials L path w =
     (case cred_uri L path of
        Err e \<Rightarrow> (Err e, w)
      | Panic q \<Rightarrow> (Panic q, w)
      | Ok uri \<Rightarrow>
          bindr
            (if ''file'' = u_Scheme uri then on_wos (util_ReadFunc L (u_Path uri) (config_ReadTyped L)) w
             else if ''keyring'' = u_Scheme uri then
               (let (service, user) = service_user (u_Opaque uri)
                in bindr (on_wkr (keyring_Get L service user) w) (\<lambda>pass w. (config_ReadTyped L pass, w)))
             else (Ok fmempty, w))
            (\<lambda>conf w. (Ok (case fmlookup conf [] of None \<Rightarrow> fmempty | Some cmap \<Rightarrow> cmap), w)))"

definition WriteCredentials ::
  "'k authlib \<Rightarrow> gostring \<Rightarrow> CredentialMap \<Rightarrow> ('k, 'z) world_scheme \<Rightarrow> unit res \<times> ('k, 'z) world_scheme" where
  "WriteCredentials L path cmap w =
     (case cred_uri L path of
        Err e \<Rightarrow> (Err e, w)
      | Panic q \<Rightarrow> (Panic q, w)
      | Ok uri \<Rightarrow>
          (let conf = fmupd [] cmap fmempty
           in if ''file'' = u_Scheme uri then on_wos (util_WriteFunc L path (config_WriteTyped L conf)) w
              else if ''keyring'' = u_Scheme uri then
                bindr (config_WriteTyped L conf, w) (\<lambda>buf w.
                  let (service, user) = service_user (u_Opaque uri)
                  in on_wkr (keyring_Set L service user buf) w)
              else (Ok (), w)))"

definition DeleteCredentials ::
  "'k authlib \<Rightarrow> gostring \<Rightarrow> ('k, 'z) world_scheme \<Rightarrow> unit res \<times> ('k, 'z) world_scheme" where
  "DeleteCredentials L path w =
     (case cred_uri L path of
        Err e \<Rightarrow> (Err e, w)
      | Panic q \<Rightarrow> (Panic q, w)
      | Ok uri \<Rightarrow>
          if ''file'' = u_Scheme uri then on_wos (os_Remove path) w
          else if ''keyring'' = u_Scheme uri then
            (let (service, user) = service_user (u_Opaque uri) in on_wkr (keyring_Delete L service user) w)
          else (Ok (), w))"

text \<open>\<^verbatim>\<open>CredentialMap.Set\<close>, of \<^verbatim>\<open>flag.Value\<close>: on an error the map becomes nil.\<close>

definition cred_Set ::
  "'k authlib \<Rightarrow> gostring \<Rightarrow> ('k, 'z) world_scheme \<Rightarrow> (CredentialMap option \<times> error option) res \<times> ('k, 'z) world_scheme" where
  "cred_Set L s w =
     (case ReadCredentials L s w of
        (Ok m, w) \<Rightarrow> (Ok (Some m, None), w)
      | (Err e, w) \<Rightarrow> (Ok (None, Some e), w)
      | (Panic q, w) \<Rightarrow> (Panic q, w))"

text \<open>
  What the functions rely on: a value set in the keyring can be got, and a file that was written is read back
  when the operating system does not fail.
\<close>

definition keyring_ok :: "'k authlib \<Rightarrow> bool" where
  "keyring_ok L \<longleftrightarrow>
     (\<forall>s u p k k'. keyring_Set L s u p k = (Ok (), k') \<longrightarrow> fst (keyring_Get L s u k') = Ok p)"

definition files_ok :: "'k authlib \<Rightarrow> bool" where
  "files_ok L \<longleftrightarrow>
     (\<forall>p b fn x x'. util_WriteFunc L p b x = (Ok (), x') \<longrightarrow> os_fault x' = (\<lambda>_. None) \<longrightarrow>
        (\<exists>c. b = Ok c \<and> fst (util_ReadFunc L p fn x') = fn c))"


subsection \<open>Instances for the witnesses\<close>

text \<open>
  A keyring in memory, files of \<open>LocalFs\<close>, a configuration format with a line \<^verbatim>\<open>name=value\<close> for each string of the
  unnamed section, and a parser of URLs that splits at the first colon.
\<close>

definition demo_map :: CredentialMap where
  "demo_map = fmupd ''user'' (VString ''me'') (fmupd ''pass'' (VString ''x=y'') fmempty)"

fun demo_lines :: "bytes \<Rightarrow> gostring \<Rightarrow> gostring option \<Rightarrow> TypedSection" where
  "demo_lines [] k v = fmempty"
| "demo_lines (c # s) k v =
     (if c = CHR 0x0A then fmupd k (VString (case v of None \<Rightarrow> [] | Some v \<Rightarrow> v)) (demo_lines s [] None)
      else case v of
        None \<Rightarrow> if c = CHR ''='' then demo_lines s k (Some []) else demo_lines s (k @ [c]) None
      | Some w \<Rightarrow> demo_lines s k (Some (w @ [c])))"

definition demo_text :: "TypedConfig \<Rightarrow> bytes" where
  "demo_text c =
     (case fmlookup c [] of
        None \<Rightarrow> []
      | Some m \<Rightarrow>
          concat (map (\<lambda>k. case fmlookup m k of Some (VString v) \<Rightarrow> k @ ''='' @ v @ [CHR 0x0A] | _ \<Rightarrow> [])
            (sorted_list_of_fset (fmdom m))))"

definition demo_Parse :: "gostring \<Rightarrow> URL res" where
  "demo_Parse p =
     (let s = takeWhile (\<lambda>c. c \<noteq> CHR '':'') p; r = tl (dropWhile (\<lambda>c. c \<noteq> CHR '':'') p)
      in Ok \<lparr>u_Scheme = s, u_Opaque = (if prefix ''/'' r then [] else r), u_Path = (if prefix ''/'' r then r else [])\<rparr>)"

definition demo_ReadFunc :: "gostring \<Rightarrow> (bytes \<Rightarrow> TypedConfig res) \<Rightarrow> osstate \<Rightarrow> TypedConfig res \<times> osstate" where
  "demo_ReadFunc p fn x =
     (case openFile p x of
        (Ok f, x) \<Rightarrow> (case read_file f x of (Ok b, x) \<Rightarrow> (fn b, x) | (Err e, x) \<Rightarrow> (Err e, x) | (Panic q, x) \<Rightarrow> (Panic q, x))
      | (Err e, x) \<Rightarrow> (Err e, x)
      | (Panic q, x) \<Rightarrow> (Panic q, x))"

definition demo_WriteFunc :: "gostring \<Rightarrow> bytes res \<Rightarrow> osstate \<Rightarrow> unit res \<times> osstate" where
  "demo_WriteFunc p b x =
     (case b of
        Ok c \<Rightarrow> (Ok (), set_data (os_next x) c (x\<lparr>os_files := fmupd p (os_next x) (os_files x), os_next := Suc (os_next x)\<rparr>))
      | Err e \<Rightarrow> (Err e, x)
      | Panic q \<Rightarrow> (Panic q, x))"

definition demo_auth :: "(gostring \<times> gostring \<Rightarrow> gostring option) authlib" where
  "demo_auth =
     \<lparr>url_Parse = demo_Parse,
      config_ReadTyped = (\<lambda>b. Ok (fmupd [] (demo_lines b [] None) fmempty)),
      config_WriteTyped = (\<lambda>c. Ok (demo_text c)),
      util_ReadFunc = demo_ReadFunc, util_WriteFunc = demo_WriteFunc,
      keyring_Get = (\<lambda>s u k. (case k (s, u) of None \<Rightarrow> Err (ExtErr 0) | Some p \<Rightarrow> Ok p, k)),
      keyring_Set = (\<lambda>s u p k. (Ok (), k((s, u) \<mapsto> p))),
      keyring_Delete = (\<lambda>s u k. (Ok (), k((s, u) := None))),
      fmt_Sprint = (\<lambda>_. [])\<rparr>"

definition demo_world :: "(gostring \<times> gostring \<Rightarrow> gostring option) world" where
  "demo_world =
     \<lparr>w_os = \<lparr>os_files = fmempty, os_dirs = {|''/''|}, os_data = (\<lambda>_. \<lparr>fd_bytes = [], fd_mtime = 0\<rparr>), os_next = 0,
             os_fault = (\<lambda>_. None), os_clock = (\<lambda>_. 0), os_calls = 0\<rparr>,
      w_kr = Map.empty\<rparr>"

lemma demo_auth_ok: "keyring_ok demo_auth" "files_ok demo_auth"
  by (auto simp: keyring_ok_def files_ok_def demo_auth_def demo_WriteFunc_def demo_ReadFunc_def openFile_def read_file_def
      os_fails_def set_data_def os_tick_def split: res.splits)

subsection \<open>Properties\<close>

text \<open>Reading and writing meet in the same place, unless the path is a URL of a file with another path.\<close>

lemma cred_uri_cases:
  assumes "cred_uri L p = Ok uri"
  obtains "u_Scheme uri = ''file''" "u_Path uri = p" | "url_Parse L p = Ok uri" "u_Scheme uri \<in> {''file'', ''keyring''}"
  using assms by (auto simp: cred_uri_def Let_def split: res.splits if_splits)

text \<open>
  C36. Credentials are read back from where they were written: when \<^verbatim>\<open>WriteCredentials\<close> has succeeded then
  \<^verbatim>\<open>ReadCredentials\<close> of the same path decodes exactly the bytes into which the credentials were encoded, as the
  unnamed section of a configuration, and returns that section of what it decodes (an empty map if there is
  none), or the error of decoding; be it in the keyring or in a file.  What is written there must be what is
  read there, as the packages document; the operating system must not fail when the file is read, and the path
  must not be a \<^verbatim>\<open>file:\<close> URL whose path differs from the whole URL.
\<close>

theorem credentials_roundtrip:
  assumes "keyring_ok L" "files_ok L"
    and "config_WriteTyped L (fmupd [] cmap fmempty) = Ok b"
    and "\<And>uri. url_Parse L p = Ok uri \<Longrightarrow> u_Scheme uri = ''file'' \<Longrightarrow> u_Path uri = p"
    and "WriteCredentials L p cmap w = (Ok (), w')" and "os_fault (w_os w') = (\<lambda>_. None)"
  shows "fst (ReadCredentials L p w') =
    (case config_ReadTyped L b of
       Ok conf \<Rightarrow> Ok (case fmlookup conf [] of None \<Rightarrow> fmempty | Some m \<Rightarrow> m)
     | Err e \<Rightarrow> Err e
     | Panic q \<Rightarrow> Panic q)"
proof -
  obtain uri where uri: "cred_uri L p = Ok uri"
    using assms(5) by (cases "cred_uri L p") (simp_all add: WriteCredentials_def)
  obtain service user where su: "service_user (u_Opaque uri) = (service, user)" by fastforce
  show ?thesis
  proof (cases "u_Scheme uri = ''file''")
    case True
    then have path: "u_Path uri = p"
      using uri assms(4) by (blast elim: cred_uri_cases)
    obtain x where "util_WriteFunc L p (Ok b) (w_os w) = (Ok (), x)" "w' = w\<lparr>w_os := x\<rparr>"
      using assms(3,5) uri True by (auto simp: WriteCredentials_def on_wos_def Let_def split: prod.splits)
    then have "fst (util_ReadFunc L p (config_ReadTyped L) (w_os w')) = config_ReadTyped L b"
      using assms(6) assms(2)[unfolded files_ok_def, rule_format, of p "Ok b" "w_os w" x "config_ReadTyped L"] by auto
    then obtain x' where "util_ReadFunc L p (config_ReadTyped L) (w_os w') = (config_ReadTyped L b, x')"
      by (metis prod.collapse)
    with True uri path show ?thesis
      by (simp add: ReadCredentials_def on_wos_def bindr_def Let_def split: res.split)
  next
    case False
    then have ke: "u_Scheme uri = ''keyring''"
      using uri by (auto elim: cred_uri_cases)
    obtain k where "keyring_Set L service user b (w_kr w) = (Ok (), k)" "w' = w\<lparr>w_kr := k\<rparr>"
      using assms(3,5) uri ke su by (auto simp: WriteCredentials_def on_wkr_def bindr_def Let_def split: prod.splits)
    then obtain k' where "keyring_Get L service user (w_kr w') = (Ok b, k')"
      using assms(1)[unfolded keyring_ok_def, rule_format, of service user b "w_kr w" k]
      by (cases "keyring_Get L service user (w_kr w')") auto
    with ke uri su show ?thesis
      by (simp add: ReadCredentials_def on_wkr_def bindr_def Let_def split: res.split)
  qed
qed

lemma demo_codec:
  "demo_text (fmupd [] demo_map fmempty) = ''pass=x=y'' @ CHR 0x0A # ''user=me'' @ [CHR 0x0A]"
  "fmlookup (demo_lines (''pass=x=y'' @ CHR 0x0A # ''user=me'' @ [CHR 0x0A]) [] None) k = fmlookup demo_map k"
proof -
  have "sorted_list_of_fset (fmdom demo_map) = [''pass'', ''user'']"
    by (simp add: demo_map_def sorted_list_of_fset_def)
  then show "demo_text (fmupd [] demo_map fmempty) = ''pass=x=y'' @ CHR 0x0A # ''user=me'' @ [CHR 0x0A]"
    by (simp add: demo_text_def demo_map_def)
  show "fmlookup (demo_lines (''pass=x=y'' @ CHR 0x0A # ''user=me'' @ [CHR 0x0A]) [] None) k = fmlookup demo_map k"
    by (auto simp: demo_map_def)
qed

theorem credentials_roundtrip_witness:
  "fst (ReadCredentials demo_auth ''keyring:objfs/me'' (snd (WriteCredentials demo_auth ''keyring:objfs/me'' demo_map demo_world))) =
     Ok demo_map"
proof -
  let ?b = "''pass=x=y'' @ CHR 0x0A # ''user=me'' @ [CHR 0x0A]" and ?p = "''keyring:objfs/me''"
  have b: "config_WriteTyped demo_auth (fmupd [] demo_map fmempty) = Ok ?b"
    using demo_codec(1) by (simp add: demo_auth_def)
  have d: "demo_lines ?b [] None = demo_map"
    by (rule fmap_ext) (rule demo_codec(2))
  obtain w' where w': "WriteCredentials demo_auth ?p demo_map demo_world = (Ok (), w')" "os_fault (w_os w') = (\<lambda>_. None)"
    by (simp add: demo_auth_def demo_Parse_def demo_world_def WriteCredentials_def cred_uri_def service_user_def SplitN2_def
        on_wkr_def bindr_def Let_def)
  have "\<And>uri. url_Parse demo_auth ?p = Ok uri \<Longrightarrow> u_Scheme uri = ''file'' \<Longrightarrow> u_Path uri = ?p"
    by (auto simp: demo_auth_def demo_Parse_def Let_def)
  from credentials_roundtrip[OF demo_auth_ok b this w'] w'(1) d show ?thesis
    by (simp add: demo_auth_def)
qed

text \<open>
  With a URL of a file, \<^verbatim>\<open>WriteCredentials\<close> writes a file whose name is the URL, while \<^verbatim>\<open>ReadCredentials\<close> looks for
  the path in the URL.
\<close>

lemma file_url_not_read_back:
  "fst (WriteCredentials demo_auth ''file:/c'' demo_map demo_world) = Ok ()"
  "fst (ReadCredentials demo_auth ''file:/c'' (snd (WriteCredentials demo_auth ''file:/c'' demo_map demo_world))) =
     Err (OsErr NotExist)"
  by (simp_all add: demo_auth_def demo_Parse_def demo_world_def WriteCredentials_def ReadCredentials_def cred_uri_def
      on_wos_def demo_WriteFunc_def demo_ReadFunc_def openFile_def os_fails_def set_data_def os_tick_def bindr_def Let_def)

end
