(* ===== verification/Trace.thy ===== *)
theory Trace
  imports Storage
begin

text \<open>
  \<^verbatim>\<open>TraceObjectStorage\<close> of \<^verbatim>\<open>src/objio/tracestg.go\<close>: a storage that prints every call of another one.

  The package \<^verbatim>\<open>trace\<close> of golib is the parameter \<open>tr\<close>: what it does when a call begins and when it ends, with the
  values it is given to print.  \<^verbatim>\<open>traceWrap\<close> determines what is shown of a result: of a list of objects only its
  length.  The deferred call of the trace runs also when the method panics, with the results still nil.
\<close>

subsection \<open>Definitions\<close>

datatype tval =
    TStr gostring
  | TInt int
  | TBool bool
  | TErr "error option"
  | TStorageInfo "StorageInfo option"
  | TInfo "ObjectInfo option"
  | TInfos nat

datatype traceev = Enter gostring "tval list" | Leave gostring "tval list"

definition res_err :: "'a res \<Rightarrow> error option" where
  "res_err r = (case r of Err e \<Rightarrow> Some e | _ \<Rightarrow> None)"

definition res_val :: "'a res \<Rightarrow> 'a option" where
  "res_val r = (case r of Ok a \<Rightarrow> Some a | _ \<Rightarrow> None)"

definition traced ::
  "(traceev \<Rightarrow> 's \<Rightarrow> 's) \<Rightarrow> gostring \<Rightarrow> tval list \<Rightarrow> ('a res \<Rightarrow> tval list) \<Rightarrow> ('s \<Rightarrow> 'a res \<times> 's) \<Rightarrow> 's \<Rightarrow> 'a res \<times> 's" where
  "traced tr name args results f s =
     (let (r, s) = f (tr (Enter name args) s) in (r, tr (Leave name (results r)) s))"

definition traceInfo :: "ObjectInfo res \<Rightarrow> tval list" where
  "traceInfo r = [TInfo (res_val r), TErr (res_err r)]"

definition TraceObjectStorage :: "(traceev \<Rightarrow> 's \<Rightarrow> 's) \<Rightarrow> 's storage \<Rightarrow> 's storage" where
  "TraceObjectStorage tr S =
     \<lparr>st_Info = (\<lambda>getsize.
        traced tr ''Info'' [TBool getsize] (\<lambda>r. [TStorageInfo (res_val r), TErr (res_err r)]) (st_Info S getsize)),
      st_List = (\<lambda>pfx imarker maxcount.
        traced tr ''List'' [TStr pfx, TStr imarker, TInt maxcount]
          (\<lambda>r. (case res_val r of
                  None \<Rightarrow> [TStr [], TInfos 0]
                | Some (omarker, infos) \<Rightarrow> [TStr omarker, TInfos (length infos)]) @ [TErr (res_err r)])
          (st_List S pfx imarker maxcount)),
      st_Stat = (\<lambda>name. traced tr ''Stat'' [TStr name] traceInfo (st_Stat S name)),
      st_Mkdir = (\<lambda>pfx. traced tr ''Mkdir'' [TStr pfx] traceInfo (st_Mkdir S pfx)),
      st_Rmdir = (\<lambda>pfx. traced tr ''Rmdir'' [TStr pfx] (\<lambda>r. [TErr (res_err r)]) (st_Rmdir S pfx)),
      st_Remove = (\<lambda>name. traced tr ''Remove'' [TStr name] (\<lambda>r. [TErr (res_err r)]) (st_Remove S name)),
      st_Rename = (\<lambda>oldname newname.
        traced tr ''Rename'' [TStr oldname, TStr newname] (\<lambda>r. [TErr (res_err r)]) (st_Rename S oldname newname)),
      st_OpenRead = (\<lambda>name sig.
        traced tr ''OpenRead'' [TStr name, TStr sig]
          (\<lambda>r. [TInfo (map_option fst (res_val r)), TErr (res_err r)]) (st_OpenRead S name sig)),
      st_OpenWrite = (\<lambda>name sz.
        traced tr ''OpenWrite'' [TStr name, TInt (sint sz)] (\<lambda>r. [TErr (res_err r)]) (st_OpenWrite S name sz)),
      wr_Write = wr_Write S,
      wr_Wait = (\<lambda>w. traced tr ''Wait'' [] traceInfo (wr_Wait S w)),
      wr_Close = wr_Close S\<rparr>"

text \<open>Sequences of calls of a storage, and their results.\<close>

datatype stcall =
    CInfo bool | CList gostring gostring int | CStat gostring | CMkdir gostring | CRmdir gostring | CRemove gostring
  | CRename gostring gostring | COpenRead gostring gostring | COpenWrite gostring i64
  | CWrite nat bytes | CWait nat | CClose nat

datatype stret =
    RInfo "StorageInfo res" | RList "(gostring \<times> ObjectInfo list) res" | RObj "ObjectInfo res" | RUnit "unit res"
  | ROpenRead "(ObjectInfo \<times> stream option) res" | RWriter "nat res"

fun st_exec :: "'s storage \<Rightarrow> stcall \<Rightarrow> 's \<Rightarrow> stret \<times> 's" where
  "st_exec S (CInfo b) s = map_prod RInfo id (st_Info S b s)"
| "st_exec S (CList p m n) s = map_prod RList id (st_List S p m n s)"
| "st_exec S (CStat n) s = map_prod RObj id (st_Stat S n s)"
| "st_exec S (CMkdir p) s = map_prod RObj id (st_Mkdir S p s)"
| "st_exec S (CRmdir p) s = map_prod RUnit id (st_Rmdir S p s)"
| "st_exec S (CRemove n) s = map_prod RUnit id (st_Remove S n s)"
| "st_exec S (CRename n m) s = map_prod RUnit id (st_Rename S n m s)"
| "st_exec S (COpenRead n sig) s = map_prod ROpenRead id (st_OpenRead S n sig s)"
| "st_exec S (COpenWrite n sz) s = map_prod RWriter id (st_OpenWrite S n sz s)"
| "st_exec S (CWrite w b) s = map_prod RUnit id (wr_Write S w b s)"
| "st_exec S (CWait w) s = map_prod RObj id (wr_Wait S w s)"
| "st_exec S (CClose w) s = (RUnit (Ok ()), wr_Close S w s)"

fun st_run :: "'s storage \<Rightarrow> stcall list \<Rightarrow> 's \<Rightarrow> stret list \<times> 's" where
  "st_run S [] s = ([], s)"
| "st_run S (c # cs) s = (let (r, s) = st_exec S c s; (rs, s) = st_run S cs s in (r # rs, s))"

text \<open>
  \<open>blind obs S\<close>: the storage only depends on and changes what \<open>obs\<close> sees of a state, which is all of
  it but what has been printed.
\<close>

definition blind :: "('s \<Rightarrow> 'b) \<Rightarrow> 's storage \<Rightarrow> bool" where
  "blind obs S \<longleftrightarrow>
     (\<forall>c s s'. obs s = obs s' \<longrightarrow>
        fst (st_exec S c s) = fst (st_exec S c s') \<and> obs (snd (st_exec S c s)) = obs (snd (st_exec S c s')))"

subsection \<open>Properties\<close>

lemma traced_obs:
  assumes "\<And>e s. obs (tr e s) = obs s"
  shows "\<exists>s'. obs s' = obs s \<and> fst (traced tr name args results f s) = fst (f s') \<and>
    obs (snd (traced tr name args results f s)) = obs (snd (f s'))"
  using assms by (intro exI[of _ "tr (Enter name args) s"]) (simp add: traced_def case_prod_beta)

lemma traced_exec:
  fixes tr :: "traceev \<Rightarrow> 's \<Rightarrow> 's"
  assumes "\<And>e s. obs (tr e s) = obs s"
  shows "\<exists>s'. obs s' = obs s \<and> fst (st_exec (TraceObjectStorage tr S) c s) = fst (st_exec S c s') \<and>
    obs (snd (st_exec (TraceObjectStorage tr S) c s)) = obs (snd (st_exec S c s'))"
  by (cases c) (auto simp: TraceObjectStorage_def intro: traced_obs[of obs tr, OF assms])

text \<open>
  Tracing a storage changes nothing but what is printed: every sequence of calls gives the same results
  through \<^verbatim>\<open>TraceObjectStorage\<close> as on the storage itself, and leaves the same state but for the trace.
\<close>

theorem trace_transparent:
  assumes "\<And>e s. obs (tr e s) = obs s" and "blind obs S" and "obs s = obs s'"
  shows "fst (st_run (TraceObjectStorage tr S) cs s) = fst (st_run S cs s') \<and>
    obs (snd (st_run (TraceObjectStorage tr S) cs s)) = obs (snd (st_run S cs s'))"
  using assms(3)
proof (induction cs arbitrary: s s')
  case (Cons c cs)
  obtain s1 where s1: "obs s1 = obs s" "fst (st_exec (TraceObjectStorage tr S) c s) = fst (st_exec S c s1)"
    "obs (snd (st_exec (TraceObjectStorage tr S) c s)) = obs (snd (st_exec S c s1))"
    using traced_exec[of obs tr, OF assms(1)] by blast
  have "fst (st_exec (TraceObjectStorage tr S) c s) = fst (st_exec S c s')"
    "obs (snd (st_exec (TraceObjectStorage tr S) c s)) = obs (snd (st_exec S c s'))"
    using s1 assms(2)[unfolded blind_def, rule_format, of s1 s' c] Cons.prems by simp_all
  with Cons.IH[OF this(2)] show ?case
    by (simp add: case_prod_beta)
qed simp

text \<open>A storage beside a list of what was printed.\<close>

definition beside :: "('s \<Rightarrow> 'x \<times> 's) \<Rightarrow> 's \<times> 'l \<Rightarrow> 'x \<times> ('s \<times> 'l)" where
  "beside f s = (let (r, s1) = f (fst s) in (r, (s1, snd s)))"

definition log_storage :: "'s storage \<Rightarrow> ('s \<times> 'l) storage" where
  "log_storage S =
     \<lparr>st_Info = (\<lambda>b. beside (st_Info S b)), st_List = (\<lambda>p m n. beside (st_List S p m n)),
      st_Stat = (\<lambda>n. beside (st_Stat S n)), st_Mkdir = (\<lambda>p. beside (st_Mkdir S p)),
      st_Rmdir = (\<lambda>p. beside (st_Rmdir S p)), st_Remove = (\<lambda>n. beside (st_Remove S n)),
      st_Rename = (\<lambda>n m. beside (st_Rename S n m)), st_OpenRead = (\<lambda>n sig. beside (st_OpenRead S n sig)),
      st_OpenWrite = (\<lambda>n sz. beside (st_OpenWrite S n sz)), wr_Write = (\<lambda>w b. beside (wr_Write S w b)),
      wr_Wait = (\<lambda>w. beside (wr_Wait S w)), wr_Close = (\<lambda>w s. (wr_Close S w (fst s), snd s))\<rparr>"

lemma log_storage_blind: "blind fst (log_storage S)"
  unfolding blind_def
proof (intro allI impI)
  fix c and s s' :: "'a \<times> 'b"
  assume "fst s = fst s'"
  then show "fst (st_exec (log_storage S) c s) = fst (st_exec (log_storage S) c s') \<and>
      fst (snd (st_exec (log_storage S) c s)) = fst (snd (st_exec (log_storage S) c s'))"
    by (cases c) (simp_all add: log_storage_def beside_def case_prod_beta)
qed

theorem trace_transparent_witness:
  "let S = log_storage mem_storage; tr = (\<lambda>e s. (fst s, snd s @ [e])); cs = [CMkdir ''/a'', CStat ''/a'', CStat ''/b'']
   in fst (st_run (TraceObjectStorage tr S) cs (memstore0, [])) = fst (st_run S cs (memstore0, [])) \<and>
      fst (snd (st_run (TraceObjectStorage tr S) cs (memstore0, []))) = fst (snd (st_run S cs (memstore0, [])))"
  unfolding Let_def by (rule trace_transparent[OF _ log_storage_blind]) simp_all

end
