(* ===== verification/Program.thy ===== *)
theory Program
  imports Registry Credentials Trace
begin

text \<open>
  The program: the variables of \<^verbatim>\<open>src/objfs.go\<close>, its ways to report and to end, and \<^verbatim>\<open>run\<close>.

  A command of the program acts on \<open>program\<close>, the package variables together with everything the program
  can touch: what it prints, the operating system and the keyring (\<open>world\<close>), the state of the object
  storage and the index database of the cache.  It returns, or ends the program by the panic that
  \<^verbatim>\<open>exit\<close> raises (\<open>Exit\<close>), or panics otherwise (\<open>Crash\<close>); \<^const>\<open>None\<close> is a command that does not return.

  What the program calls outside the repository is the parameter \<open>proglib\<close>.  The parsing of the flags of a
  command by the package \<^verbatim>\<open>flag\<close> is \<open>flag_Parse\<close>: from the name of the command and its arguments to the values of
  the flags and the remaining arguments, or a panic.  \<open>fmt_Sscanf\<close> scans a range of two numbers, \<open>io_Section\<close> reads a
  part of a stream when it can be read at an offset, and \<open>os_Stdin\<close> is what can be read from the standard input.
  A printed line is an event with what it shows.
\<close>

subsection \<open>Definitions\<close>

datatype 'a out = Ret 'a | Exit int | Crash panic

datatype outev =
    OutInfo ObjectInfo bool
  | OutStorageInfo StorageInfo
  | OutText gostring
  | OutUsage gostring
  | OutWarn error errno

datatype 'a creds = CredSession 'a | CredMap CredentialMap

record ('k, 's, 'd, 'a) program =
  configPath :: gostring
  dataDir :: gostring
  programConfig :: TypedConfig
  acceptTlsCert :: bool
  authName :: gostring
  authSession :: "'a option"
  cachePath :: gostring
  credentialPath :: gostring
  credentials :: "CredentialMap option"
  keyringKind :: gostring
  storage :: "'s storage option"
  storageName :: gostring
  storageUri :: gostring
  needvarOnce :: bool
  insecureTls :: bool
  p_out :: "outev list"
  p_world :: "'k world"
  p_st :: 's
  p_db :: 'd

record cmdflags =
  flag_l :: bool
  flag_n :: int
  flag_r :: gostring
  flag_s :: gostring
  flag_k :: bool
  flag_o :: "gostring list"

type_synonym ('x, 'p) prog = "'p \<Rightarrow> ('x out \<times> 'p) option"

type_synonym ('k, 'a) authfn = "CredentialMap \<Rightarrow> 'k world \<Rightarrow> 'a res \<times> 'k world"

record ('k, 's, 'd, 'a) proglib =
  l_auth :: "'k authlib"
  l_golib :: golib
  errors_New :: newerr
  appdata_ConfigDir :: "gostring res"
  appdata_DataDir :: "gostring res"
  cflag_VisitAll :: "gostring list \<Rightarrow> TypedSection \<Rightarrow> TypedSection"
  cflag_Visit :: "gostring list \<Rightarrow> TypedSection \<Rightarrow> TypedSection"
  rand_Read :: "nat \<Rightarrow> bytes res"
  keyring_Overlay :: "gostring \<Rightarrow> bytes option \<Rightarrow> 'k \<Rightarrow> 'k"
  auth_Registry :: "(unit, ('k, 'a) authfn, 'k world) ObjectFactory ObjectFactoryRegistry"
  objio_Registry :: "(gostring \<times> 'a creds, 's storage, 'k world) ObjectFactory ObjectFactoryRegistry"
  session_Credentials :: "'a \<Rightarrow> CredentialMap"
  trace_Trace :: "traceev \<Rightarrow> 's \<Rightarrow> 's"
  trace_Verbose :: bool
  flag_Parse :: "gostring \<Rightarrow> gostring list \<Rightarrow> (cmdflags \<times> gostring list) res"
  fmt_Sscanf :: "gostring \<Rightarrow> (i64 \<times> i64) option"
  io_Section :: "stream \<Rightarrow> i64 \<Rightarrow> i64 \<Rightarrow> stream option"
  fmt_Value :: "cval \<Rightarrow> gostring"
  os_Stdin :: "bytes res"
  stdin_IsTerminal :: bool
  stdout_IsTerminal :: bool
  config_Get :: "gostring \<Rightarrow> TypedConfig \<Rightarrow> cval option"
  config_Set :: "gostring \<Rightarrow> gostring \<Rightarrow> TypedConfig \<Rightarrow> TypedConfig"
  config_Delete :: "gostring \<Rightarrow> TypedConfig \<Rightarrow> TypedConfig"

text \<open>Sequencing.\<close>

definition retp :: "'x \<Rightarrow> ('x, 'p) prog" where
  "retp x p = Some (Ret x, p)"

definition bindp :: "('x, 'p) prog \<Rightarrow> ('x \<Rightarrow> ('y, 'p) prog) \<Rightarrow> ('y, 'p) prog" where
  "bindp m f p =
     (case m p of
        None \<Rightarrow> None
      | Some (Ret x, p) \<Rightarrow> f x p
      | Some (Exit c, p) \<Rightarrow> Some (Exit c, p)
      | Some (Crash q, p) \<Rightarrow> Some (Crash q, p))"

definition updp :: "('p \<Rightarrow> 'p) \<Rightarrow> (unit, 'p) prog" where
  "updp f p = Some (Ret (), f p)"

definition getp :: "('p \<Rightarrow> 'x) \<Rightarrow> ('x, 'p) prog" where
  "getp f p = Some (Ret (f p), p)"

definition crash :: "panic \<Rightarrow> ('x, 'p) prog" where
  "crash q p = Some (Crash q, p)"

text \<open>
  A call of a fallible function on a part of the state: its error is a value for the caller; a panic goes on.
\<close>

definition callp :: "('p \<Rightarrow> 'x res \<times> 'p) \<Rightarrow> (error + 'x, 'p) prog" where
  "callp f p =
     (case f p of
        (Ok x, p) \<Rightarrow> Some (Ret (Inr x), p)
      | (Err e, p) \<Rightarrow> Some (Ret (Inl e), p)
      | (Panic q, p) \<Rightarrow> Some (Crash q, p))"

definition on_world :: "('k world \<Rightarrow> 'x res \<times> 'k world) \<Rightarrow> ('k, 's, 'd, 'a) program \<Rightarrow> 'x res \<times> ('k, 's, 'd, 'a) program" where
  "on_world f p = (let (r, w) = f (p_world p) in (r, p\<lparr>p_world := w\<rparr>))"

definition on_pos :: "(osstate \<Rightarrow> 'x res \<times> osstate) \<Rightarrow> ('k, 's, 'd, 'a) program \<Rightarrow> 'x res \<times> ('k, 's, 'd, 'a) program" where
  "on_pos f = on_world (on_wos f)"

definition on_pst :: "('s \<Rightarrow> 'x res \<times> 's) \<Rightarrow> ('k, 's, 'd, 'a) program \<Rightarrow> 'x res \<times> ('k, 's, 'd, 'a) program" where
  "on_pst f p = (let (r, s) = f (p_st p) in (r, p\<lparr>p_st := s\<rparr>))"

text \<open>Printing, warning, ending.\<close>

definition print :: "outev \<Rightarrow> (unit, ('k, 's, 'd, 'a) program) prog" where
  "print e = updp (\<lambda>p. p\<lparr>p_out := p_out p @ [e]\<rparr>)"

definition exit :: "int \<Rightarrow> ('x, ('k, 's, 'd, 'a) program) prog" where
  "exit c p = Some (Exit c, p)"

definition warn :: "('k, 's, 'd, 'a) proglib \<Rightarrow> error \<Rightarrow> (unit, ('k, 's, 'd, 'a) program) prog" where
  "warn L e p =
     (case ErrnoFromErr (l_golib L) (Some e) of
        None \<Rightarrow> None
      | Some no \<Rightarrow> print (OutWarn e no) p)"

definition fail :: "('k, 's, 'd, 'a) proglib \<Rightarrow> error \<Rightarrow> ('x, ('k, 's, 'd, 'a) program) prog" where
  "fail L e = bindp (warn L e) (\<lambda>_. exit 1)"

definition usage :: "gostring \<Rightarrow> ('x, ('k, 's, 'd, 'a) program) prog" where
  "usage cmd = bindp (print (OutUsage cmd)) (\<lambda>_. exit 2)"

definition usageWithError :: "('k, 's, 'd, 'a) proglib \<Rightarrow> error \<Rightarrow> ('x, ('k, 's, 'd, 'a) program) prog" where
  "usageWithError L e = bindp (print (OutUsage [])) (\<lambda>_. bindp (warn L e) (\<lambda>_. exit 2))"

text \<open>A call whose error ends the program, with the error it is wrapped into.\<close>

definition tryp ::
  "('k, 's, 'd, 'a) proglib \<Rightarrow> (error \<Rightarrow> error) \<Rightarrow> (('k, 's, 'd, 'a) program \<Rightarrow> 'x res \<times> ('k, 's, 'd, 'a) program) \<Rightarrow>
     ('x, ('k, 's, 'd, 'a) program) prog" where
  "tryp L wrap f = bindp (callp f) (\<lambda>r. case r of Inl e \<Rightarrow> fail L (wrap e) | Inr x \<Rightarrow> retp x)"

text \<open>A deferred call: it runs however the body ends.\<close>

definition deferp :: "('p \<Rightarrow> 'p) \<Rightarrow> ('x, 'p) prog \<Rightarrow> ('x, 'p) prog" where
  "deferp f m p = map_option (\<lambda>(r, p). (r, f p)) (m p)"

text \<open>The flags of a command; the package \<^verbatim>\<open>flag\<close> panics with an error when it cannot parse them.\<close>

definition parse ::
  "('k, 's, 'd, 'a) proglib \<Rightarrow> gostring \<Rightarrow> gostring list \<Rightarrow> (cmdflags \<times> gostring list, ('k, 's, 'd, 'a) program) prog" where
  "parse L cmd args p =
     (case flag_Parse L cmd args of
        Ok x \<Rightarrow> Some (Ret x, p)
      | Err e \<Rightarrow> Some (Crash PanicRuntime, p)
      | Panic q \<Rightarrow> Some (Crash q, p))"

definition Arg :: "gostring list \<Rightarrow> nat \<Rightarrow> gostring" where
  "Arg args i = (if i < length args then args ! i else [])"

text \<open>
  \<^verbatim>\<open>run\<close>: the command is looked up and run; the deferred function turns the panic of \<^verbatim>\<open>exit\<close> into the exit
  code and a panic with an error into the code 2.  Every other panic of the program is one with an error.
\<close>

type_synonym ('k, 's, 'd, 'a) cmdmap = "gostring \<Rightarrow> (gostring list \<Rightarrow> (unit, ('k, 's, 'd, 'a) program) prog) option"

fun help_cmds :: "('k, 's, 'd, 'a) cmdmap \<Rightarrow> gostring list \<Rightarrow> (unit, ('k, 's, 'd, 'a) program) prog" where
  "help_cmds cmds [] = retp ()"
| "help_cmds cmds (name # names) =
     (if cmds name = None then help_cmds cmds names
      else bindp (print (OutUsage name)) (\<lambda>_. help_cmds cmds names))"

definition dispatch ::
  "('k, 's, 'd, 'a) proglib \<Rightarrow> ('k, 's, 'd, 'a) cmdmap \<Rightarrow> gostring list \<Rightarrow> (unit, ('k, 's, 'd, 'a) program) prog" where
  "dispatch L cmds args =
     bindp (parse L [] args) (\<lambda>(_, rest).
       let arg = Arg rest 0
       in case cmds arg of
            None \<Rightarrow>
              bindp
                (if ''help'' = arg then
                   (if tl rest = [] then print (OutUsage []) else help_cmds cmds (tl rest))
                 else print (OutUsage []))
                (\<lambda>_. exit 2)
          | Some main \<Rightarrow> if rest = [] then crash PanicRuntime else main (tl rest))"

definition run ::
  "('k, 's, 'd, 'a) proglib \<Rightarrow> ('k, 's, 'd, 'a) cmdmap \<Rightarrow> gostring list \<Rightarrow> ('k, 's, 'd, 'a) program \<Rightarrow>
     (int \<times> ('k, 's, 'd, 'a) program) option" where
  "run L cmds args p =
     (case dispatch L cmds args p of
        None \<Rightarrow> None
      | Some (Ret _, p) \<Rightarrow> Some (0, p)
      | Some (Exit c, p) \<Rightarrow> Some (c, p)
      | Some (Crash _, p) \<Rightarrow> Some (2, p))"


subsection \<open>Reasoning about programs\<close>

text \<open>
  The results of the elementary programs, and what a sequence that has returned has done.
\<close>

lemma prog_simps [simp]:
  "retp x p = Some (Ret x, p)" "updp f p = Some (Ret (), f p)" "getp g p = Some (Ret (g p), p)"
  "crash q p = Some (Crash q, p)" "exit c p0 = Some (Exit c, p0)"
  by (simp_all add: retp_def updp_def getp_def crash_def exit_def)

lemma bindp_simps [simp]:
  "m p = None \<Longrightarrow> bindp m f p = None"
  "m p = Some (Ret x, p') \<Longrightarrow> bindp m f p = f x p'"
  "m p = Some (Exit c, p') \<Longrightarrow> bindp m f p = Some (Exit c, p')"
  "m p = Some (Crash q, p') \<Longrightarrow> bindp m f p = Some (Crash q, p')"
  by (simp_all add: bindp_def)

lemma bindp_retp [simp]: "bindp (retp x) f = f x"
  by (rule ext) simp

lemma bindp_RetE:
  assumes "bindp m f p = Some (Ret y, p')"
  obtains x p1 where "m p = Some (Ret x, p1)" "f x p1 = Some (Ret y, p')"
  using assms by (auto simp: bindp_def split: option.splits out.splits)

lemma bindp_assoc: "bindp (bindp m f) g = bindp m (\<lambda>x. bindp (f x) g)"
  by (rule ext) (auto simp: bindp_def split: option.splits out.splits)

lemma warn_never_returns_code [simp]: "warn L e p \<noteq> Some (Exit c, p')" "warn L e p \<noteq> Some (Crash q, p')"
  by (auto simp: warn_def print_def split: option.splits)

lemma ends_no_Ret [simp]:
  "fail L e p \<noteq> Some (Ret x, p')" "usage cmd p \<noteq> Some (Ret x, p')" "usageWithError L e p \<noteq> Some (Ret x, p')"
  by (auto simp: fail_def usage_def usageWithError_def print_def elim!: bindp_RetE)

lemma tryp_RetE:
  assumes "tryp L wrap f p = Some (Ret x, p')"
  shows "f p = (Ok x, p')"
  using assms by (auto simp: tryp_def callp_def elim!: bindp_RetE split: prod.splits res.splits sum.splits)

text \<open>
  \<open>keeps g m\<close>: the program leaves \<open>g\<close> of the state as it is, however it ends.  The rules of \<open>prog_frame\<close> carry this over
  the structure of a program.
\<close>

definition keeps :: "('p \<Rightarrow> 'v) \<Rightarrow> ('x, 'p) prog \<Rightarrow> bool" where
  "keeps g m \<longleftrightarrow> (\<forall>p r p'. m p = Some (r, p') \<longrightarrow> g p' = g p)"

named_theorems prog_frame \<open>programs that leave a part of the state alone\<close>

lemma keepsD: "keeps g m \<Longrightarrow> m p = Some (r, p') \<Longrightarrow> g p' = g p"
  by (simp add: keeps_def)

lemma keeps_basic [prog_frame]:
  "keeps g (retp x)" "keeps g (getp h)" "keeps g (crash q)" "keeps g0 (exit c)"
  by (simp_all add: keeps_def)

lemma keeps_updp [prog_frame]: "(\<And>p. g (f p) = g p) \<Longrightarrow> keeps g (updp f)"
  by (auto simp: keeps_def)

lemma keeps_bindp [prog_frame]: "keeps g m \<Longrightarrow> (\<And>x. keeps g (f x)) \<Longrightarrow> keeps g (bindp m f)"
  by (auto simp: keeps_def bindp_def split: option.splits out.splits)

lemma keeps_callp: "(\<And>p. g (snd (f p)) = g p) \<Longrightarrow> keeps g (callp f)"
  by (auto simp: keeps_def callp_def split: prod.splits res.splits) (metis snd_conv)+

lemma keeps_print [prog_frame]: "(\<And>p es. g (p\<lparr>p_out := es\<rparr>) = g p) \<Longrightarrow> keeps g (print e)"
  by (simp add: keeps_def print_def)

lemma keeps_warn [prog_frame]: "(\<And>p es. g (p\<lparr>p_out := es\<rparr>) = g p) \<Longrightarrow> keeps g (warn L e)"
  by (auto simp: keeps_def warn_def print_def split: option.splits)

lemma keeps_ends [prog_frame]:
  assumes "\<And>p es. g (p\<lparr>p_out := es\<rparr>) = g p"
  shows "keeps g (fail L e)" "keeps g (usage cmd)" "keeps g (usageWithError L e)"
  unfolding fail_def usage_def usageWithError_def using assms by (intro prog_frame; simp)+

lemma keeps_if [prog_frame]: "keeps g m \<Longrightarrow> keeps g n \<Longrightarrow> keeps g (if b then m else n)"
  by simp

lemma keeps_sum [prog_frame]:
  "(\<And>x. keeps g (m x)) \<Longrightarrow> (\<And>x. keeps g (n x)) \<Longrightarrow> keeps g (case r of Inl x \<Rightarrow> m x | Inr x \<Rightarrow> n x)"
  by (cases r) simp_all

lemma keeps_prod [prog_frame]: "(\<And>x y. keeps g (m x y)) \<Longrightarrow> keeps g (case r of (x, y) \<Rightarrow> m x y)"
  by (cases r) simp

lemma keeps_tryp [prog_frame]:
  assumes "\<And>p es. g (p\<lparr>p_out := es\<rparr>) = g p" "keeps g (callp f)"
  shows "keeps g (tryp L wrap f)"
  unfolding tryp_def by (intro prog_frame assms)

text \<open>Calls on a part of the state leave the other parts alone.\<close>

lemma keeps_calls [prog_frame]:
  "keeps g (callp (\<lambda>p. (r, p)))"
  "(\<And>p w. g (p\<lparr>p_world := w\<rparr>) = g p) \<Longrightarrow> keeps g (callp (on_world f))"
  "(\<And>p w. g (p\<lparr>p_world := w\<rparr>) = g p) \<Longrightarrow> keeps g (callp (on_pos f'))"
  "(\<And>p s. g (p\<lparr>p_st := s\<rparr>) = g p) \<Longrightarrow> keeps g (callp (on_pst h))"
  by (rule keeps_callp; simp add: on_pos_def on_world_def on_pst_def case_prod_beta Let_def)+

end
