(* ===== verification/Vars.thy ===== *)
theory Vars
  imports Program
begin

text \<open>
  The initialisation of the variables: \<^verbatim>\<open>initKeyring\<close> and \<^verbatim>\<open>needvar\<close> of \<^verbatim>\<open>src/objfs.go\<close>.

  The flags of the command line reach the program through \<^verbatim>\<open>cflag\<close> of golib: \<open>flags_ok\<close> says what it documents,
  that \<^verbatim>\<open>VisitAll\<close> enters the values of the named flags into the map and \<^verbatim>\<open>Visit\<close> those of the named flags
  that were set.  A type assertion \<^verbatim>\<open>v.(string)\<close> panics when the value is of another type or is missing.

  \<^verbatim>\<open>sync.Once\<close> runs its function at most once, also when the function panics; so the mark is set first.
\<close>

subsection \<open>Definitions\<close>

definition initKeyring :: "('k, 's, 'd, 'a) proglib \<Rightarrow> gostring \<Rightarrow> gostring \<Rightarrow> (unit, ('k, 's, 'd, 'a) program) prog" where
  "initKeyring L kind path =
     (let overlay = (\<lambda>key. updp (\<lambda>p. p\<lparr>p_world := (p_world p)\<lparr>w_kr :=
            keyring_Overlay L (path_Join path ''keyring'') key (w_kr (p_world p))\<rparr>\<rparr>))
      in if kind = ''system'' then retp ()
         else if kind = ''user'' then
           bindp (callp (on_world (on_wkr (keyring_Get (l_auth L) ''objfs'' ''keyring'')))) (\<lambda>r.
             case r of
               Inr pass \<Rightarrow> overlay (Some pass)
             | Inl _ \<Rightarrow>
                 bindp (tryp L id (\<lambda>p. (rand_Read L 16, p))) (\<lambda>key.
                 bindp (tryp L id (on_world (on_wkr (keyring_Set (l_auth L) ''objfs'' ''keyring'' key)))) (\<lambda>_.
                   overlay (Some key))))
         else if kind = ''userplain'' then overlay None
         else usageWithError L (errors_New L ''unknown keyring type; specify -keyring in the command line'' None None))"

definition as_string :: "cval option \<Rightarrow> (gostring, 'p) prog" where
  "as_string v = (case v of Some (VString s) \<Rightarrow> retp s | _ \<Rightarrow> crash PanicRuntime)"

definition as_bool :: "cval option \<Rightarrow> (bool, 'p) prog" where
  "as_bool v = (case v of Some (VBool b) \<Rightarrow> retp b | _ \<Rightarrow> crash PanicRuntime)"

definition conf_section :: "TypedConfig \<Rightarrow> gostring \<Rightarrow> TypedSection" where
  "conf_section c name = (case fmlookup c name of None \<Rightarrow> fmempty | Some s \<Rightarrow> s)"

text \<open>The flag map, from the flags of the command line and the configuration file.\<close>

definition flag_names :: "gostring list" where
  "flag_names = [''accept-tls-cert'', ''auth'', ''credentials'', ''datadir'', ''keyring'', ''storage'', ''storage-uri'']"

definition merge_config ::
  "('k, 's, 'd, 'a) proglib \<Rightarrow> TypedConfig \<Rightarrow> TypedSection \<Rightarrow> (TypedSection, ('k, 's, 'd, 'a) program) prog" where
  "merge_config L c flagMap =
     (let flagMap = flagMap ++\<^sub>f conf_section c [];
          flagMap = cflag_Visit L [''storage''] flagMap
      in bindp (as_string (fmlookup flagMap ''storage'')) (\<lambda>name.
           let flagMap = flagMap ++\<^sub>f conf_section c name
           in retp (cflag_Visit L
                [''accept-tls-cert'', ''auth'', ''credentials'', ''datadir'', ''keyring'', ''storage-uri''] flagMap)))"

definition assign_vars :: "TypedSection \<Rightarrow> (unit, ('k, 's, 'd, 'a) program) prog" where
  "assign_vars m =
     bindp (as_bool (fmlookup m ''accept-tls-cert'')) (\<lambda>v. bindp (updp (acceptTlsCert_update (\<lambda>_. v))) (\<lambda>_.
     bindp (as_string (fmlookup m ''auth'')) (\<lambda>v. bindp (updp (authName_update (\<lambda>_. v))) (\<lambda>_.
     bindp (as_string (fmlookup m ''credentials'')) (\<lambda>v. bindp (updp (credentialPath_update (\<lambda>_. v))) (\<lambda>_.
     bindp (as_string (fmlookup m ''datadir'')) (\<lambda>v. bindp (updp (dataDir_update (\<lambda>_. v))) (\<lambda>_.
     bindp (as_string (fmlookup m ''keyring'')) (\<lambda>v. bindp (updp (keyringKind_update (\<lambda>_. v))) (\<lambda>_.
     bindp (as_string (fmlookup m ''storage'')) (\<lambda>v. bindp (updp (storageName_update (\<lambda>_. v))) (\<lambda>_.
     bindp (as_string (fmlookup m ''storage-uri'')) (\<lambda>v. updp (storageUri_update (\<lambda>_. v)))))))))))))))"

definition read_flagMap :: "('k, 's, 'd, 'a) proglib \<Rightarrow> (TypedSection, ('k, 's, 'd, 'a) program) prog" where
  "read_flagMap L =
     (let flagMap = cflag_VisitAll L flag_names fmempty
      in bindp (getp configPath) (\<lambda>path.
         bindp (callp (on_pos (util_ReadFunc (l_auth L) path (config_ReadTyped (l_auth L))))) (\<lambda>r.
           case r of
             Inr c \<Rightarrow> bindp (updp (programConfig_update (\<lambda>_. c))) (\<lambda>_. merge_config L c flagMap)
           | Inl _ \<Rightarrow> bindp (updp (programConfig_update (\<lambda>_. fmempty))) (\<lambda>_. retp flagMap))))"

definition init_vars :: "('k, 's, 'd, 'a) proglib \<Rightarrow> (unit, ('k, 's, 'd, 'a) program) prog" where
  "init_vars L =
     bindp (getp configPath) (\<lambda>path.
     bindp (if [] = path then
              bindp (tryp L id (\<lambda>p. (appdata_ConfigDir L, p))) (\<lambda>dir.
                updp (configPath_update (\<lambda>_. path_Join dir ''objfs.conf'')))
            else retp ()) (\<lambda>_.
     bindp (read_flagMap L) (\<lambda>flagMap.
     bindp (assign_vars flagMap) (\<lambda>_.
     bindp (getp dataDir) (\<lambda>dir.
     bindp (if [] = dir then
              bindp (tryp L id (\<lambda>p. (appdata_DataDir L, p))) (\<lambda>dir. updp (dataDir_update (\<lambda>_. path_Join dir ''objfs'')))
            else retp ()) (\<lambda>_.
     bindp (getp (\<lambda>p. (keyringKind p, dataDir p))) (\<lambda>(kind, dir).
     bindp (initKeyring L kind dir) (\<lambda>_.
       updp (\<lambda>p. if acceptTlsCert p then p\<lparr>insecureTls := True\<rparr> else p)))))))))"

definition needvar_once :: "('k, 's, 'd, 'a) proglib \<Rightarrow> (unit, ('k, 's, 'd, 'a) program) prog" where
  "needvar_once L p = (if needvarOnce p then Some (Ret (), p) else init_vars L (p\<lparr>needvarOnce := True\<rparr>))"

text \<open>
  \<^verbatim>\<open>needvar\<close> for a list of variables, given by their addresses in the source.  It calls itself for the
  variables that a variable is made from; \<open>var_rank\<close> decreases in these calls, in which \<^verbatim>\<open>needvarOnce\<close> does nothing
  any more.  A session that \<^verbatim>\<open>needvar\<close> has returned for is not nil, so that the panic below cannot happen.
\<close>

datatype var = V_authName | V_authSession | V_cachePath | V_credentialPath | V_credentials | V_storageName | V_storage

fun var_rank :: "var \<Rightarrow> nat" where
  "var_rank V_storageName = 0"
| "var_rank V_authName = 1"
| "var_rank V_cachePath = 1"
| "var_rank V_credentialPath = 1"
| "var_rank V_credentials = 2"
| "var_rank V_authSession = 3"
| "var_rank V_storage = 4"

definition open_storage :: "('k, 's, 'd, 'a) proglib \<Rightarrow> 'a creds \<Rightarrow> (unit, ('k, 's, 'd, 'a) program) prog" where
  "open_storage L creds =
     bindp (getp (\<lambda>p. (storageName p, storageUri p))) (\<lambda>(name, uri).
     bindp (tryp L id (on_world (NewObject (errors_New L) name (uri, creds) (objio_Registry L)))) (\<lambda>s.
       updp (storage_update (\<lambda>_. Some (if trace_Verbose L then TraceObjectStorage (trace_Trace L) s else s)))))"

definition open_session :: "('k, 's, 'd, 'a) proglib \<Rightarrow> (unit, ('k, 's, 'd, 'a) program) prog" where
  "open_session L =
     bindp (getp (\<lambda>p. (authName p, credentials p))) (\<lambda>(name, creds).
     bindp (callp (on_world (NewObject (errors_New L) name () (auth_Registry L)))) (\<lambda>r.
       case r of
         Inl _ \<Rightarrow> usageWithError L (errors_New L ''unknown auth; specify -auth in the command line'' None None)
       | Inr a \<Rightarrow>
           bindp (tryp L id (on_world (a (case creds of None \<Rightarrow> fmempty | Some m \<Rightarrow> m)))) (\<lambda>s.
             updp (authSession_update (\<lambda>_. Some s)))))"

definition read_credentials :: "('k, 's, 'd, 'a) proglib \<Rightarrow> (unit, ('k, 's, 'd, 'a) program) prog" where
  "read_credentials L =
     bindp (getp credentialPath) (\<lambda>path.
     bindp (callp (on_world (ReadCredentials (l_auth L) path))) (\<lambda>r.
       case r of
         Inl _ \<Rightarrow> usageWithError L (errors_New L ''unknown credentials; specify -credentials in the command line'' None None)
       | Inr m \<Rightarrow> updp (credentials_update (\<lambda>_. Some m))))"

function needvars :: "('k, 's, 'd, 'a) proglib \<Rightarrow> var list \<Rightarrow> (unit, ('k, 's, 'd, 'a) program) prog" where
  "needvars L [] = retp ()"
| "needvars L (V_authName # vs) =
     bindp (bindp (getp authName) (\<lambda>v. if [] \<noteq> v then retp () else
       bindp (needvars L [V_storageName]) (\<lambda>_. updp (\<lambda>p. p\<lparr>authName := storageName p\<rparr>))))
     (\<lambda>_. needvars L vs)"
| "needvars L (V_authSession # vs) =
     bindp (bindp (getp authSession) (\<lambda>v. if None \<noteq> v then retp () else
       bindp (needvars L [V_authName, V_credentials]) (\<lambda>_. open_session L)))
     (\<lambda>_. needvars L vs)"
| "needvars L (V_cachePath # vs) =
     bindp (bindp (getp cachePath) (\<lambda>v. if [] \<noteq> v then retp () else
       bindp (needvars L [V_storageName]) (\<lambda>_. updp (\<lambda>p. p\<lparr>cachePath := path_Join (dataDir p) (storageName p)\<rparr>))))
     (\<lambda>_. needvars L vs)"
| "needvars L (V_credentialPath # vs) =
     bindp (bindp (getp credentialPath) (\<lambda>v. if [] \<noteq> v then retp () else
       bindp (needvars L [V_storageName]) (\<lambda>_. updp (\<lambda>p. p\<lparr>credentialPath := ''keyring:objfs/'' @ storageName p\<rparr>))))
     (\<lambda>_. needvars L vs)"
| "needvars L (V_credentials # vs) =
     bindp (bindp (getp credentials) (\<lambda>v. if None \<noteq> v then retp () else
       bindp (needvars L [V_credentialPath]) (\<lambda>_. read_credentials L)))
     (\<lambda>_. needvars L vs)"
| "needvars L (V_storageName # vs) =
     bindp (bindp (getp storageName) (\<lambda>v. if [] \<noteq> v then retp () else
       usageWithError L (errors_New L ''unknown storage; specify -storage in the command line'' None None)))
     (\<lambda>_. needvars L vs)"
| "needvars L (V_storage # vs) =
     bindp (bindp (getp (\<lambda>p. (storage p, authName p))) (\<lambda>(v, auth). if None \<noteq> v then retp () else
       if [] \<noteq> auth then
         bindp (needvars L [V_authSession, V_storageName]) (\<lambda>_. bindp (getp authSession) (\<lambda>s.
           case s of None \<Rightarrow> crash PanicRuntime | Some s \<Rightarrow> open_storage L (CredSession s)))
       else
         bindp (needvars L [V_credentials, V_storageName]) (\<lambda>_. bindp (getp credentials) (\<lambda>m.
           open_storage L (CredMap (case m of None \<Rightarrow> fmempty | Some m \<Rightarrow> m))))))
     (\<lambda>_. needvars L vs)"
  by pat_completeness auto
termination
  by (relation "measure (\<lambda>(L, vs). \<Sum>v \<leftarrow> vs. 5 ^ var_rank v)") auto

declare needvars.simps [simp del]

definition needvar :: "('k, 's, 'd, 'a) proglib \<Rightarrow> var list \<Rightarrow> (unit, ('k, 's, 'd, 'a) program) prog" where
  "needvar L vs = bindp (needvar_once L) (\<lambda>_. needvars L vs)"


text \<open>What \<^verbatim>\<open>cflag\<close> documents: \<open>all\<close> are the values of the flags of the command line, \<open>set\<close> those that were set.\<close>

definition flags_ok ::
  "('k, 's, 'd, 'a) proglib \<Rightarrow> (gostring \<Rightarrow> cval option) \<Rightarrow> (gostring \<Rightarrow> cval option) \<Rightarrow> bool" where
  "flags_ok L defaults given \<longleftrightarrow>
     (\<forall>ns m k. fmlookup (cflag_VisitAll L ns m) k =
        (if k \<in> set ns then (case given k of Some v \<Rightarrow> Some v | None \<Rightarrow> defaults k) else fmlookup m k)) \<and>
     (\<forall>ns m k. fmlookup (cflag_Visit L ns m) k =
        (case given k of Some v \<Rightarrow> if k \<in> set ns then Some v else fmlookup m k | None \<Rightarrow> fmlookup m k))"

text \<open>The first value there is.\<close>

fun first_of :: "'v option list \<Rightarrow> 'v option" where
  "first_of [] = None"
| "first_of (None # vs) = first_of vs"
| "first_of (Some v # vs) = Some v"

text \<open>When a variable has a value, and what stays when more variables get one.\<close>

fun var_set :: "var \<Rightarrow> ('k, 's, 'd, 'a) program \<Rightarrow> bool" where
  "var_set V_authName p = (authName p \<noteq> [])"
| "var_set V_authSession p = (authSession p \<noteq> None)"
| "var_set V_cachePath p = (cachePath p \<noteq> [])"
| "var_set V_credentialPath p = (credentialPath p \<noteq> [])"
| "var_set V_credentials p = (credentials p \<noteq> None)"
| "var_set V_storageName p = (storageName p \<noteq> [])"
| "var_set V_storage p = (storage p \<noteq> None)"

definition extends :: "('k, 's, 'd, 'a) program \<Rightarrow> ('k, 's, 'd, 'a) program \<Rightarrow> bool" where
  "extends p q \<longleftrightarrow>
     (authName p \<noteq> [] \<longrightarrow> authName q = authName p) \<and> (authSession p \<noteq> None \<longrightarrow> authSession q = authSession p) \<and>
     (cachePath p \<noteq> [] \<longrightarrow> cachePath q = cachePath p) \<and> (credentialPath p \<noteq> [] \<longrightarrow> credentialPath q = credentialPath p) \<and>
     (credentials p \<noteq> None \<longrightarrow> credentials q = credentials p) \<and> (storageName p \<noteq> [] \<longrightarrow> storageName q = storageName p) \<and>
     (storage p \<noteq> None \<longrightarrow> storage q = storage p) \<and> needvarOnce q = needvarOnce p"

lemma extends_refl [simp]: "extends p p"
  by (simp add: extends_def)

lemma extends_trans: "extends p q \<Longrightarrow> extends q r \<Longrightarrow> extends p r"
  by (auto simp: extends_def)

lemma extends_var: "extends p q \<Longrightarrow> var_set v p \<Longrightarrow> var_set v q"
  by (cases v) (auto simp: extends_def)

lemma extends_world [simp]:
  "extends p (q\<lparr>p_world := w\<rparr>) = extends p q" "extends p (q\<lparr>p_st := s\<rparr>) = extends p q"
  by (simp_all add: extends_def)

subsection \<open>The steps of \<^verbatim>\<open>needvar\<close>\<close>

text \<open>A step that sets a variable which had no value at the start, \<open>p\<close>, keeps the others.\<close>

lemma on_worldE:
  assumes "on_world f p = (r, q)"
  obtains w where "q = p\<lparr>p_world := w\<rparr>"
  using assms by (auto simp: on_world_def Let_def split: prod.splits)

lemma extends_upd:
  "extends p q \<Longrightarrow> authName p = [] \<Longrightarrow> extends p (q\<lparr>authName := n\<rparr>)"
  "extends p q \<Longrightarrow> authSession p = None \<Longrightarrow> extends p (q\<lparr>authSession := a\<rparr>)"
  "extends p q \<Longrightarrow> cachePath p = [] \<Longrightarrow> extends p (q\<lparr>cachePath := n\<rparr>)"
  "extends p q \<Longrightarrow> credentialPath p = [] \<Longrightarrow> extends p (q\<lparr>credentialPath := n\<rparr>)"
  "extends p q \<Longrightarrow> credentials p = None \<Longrightarrow> extends p (q\<lparr>credentials := m\<rparr>)"
  "extends p q \<Longrightarrow> storage p = None \<Longrightarrow> extends p (q\<lparr>storage := s\<rparr>)"
  by (simp_all add: extends_def)

lemma callp_world_RetE:
  assumes "callp (on_world f) p = Some (Ret r, q)"
  obtains w where "q = p\<lparr>p_world := w\<rparr>"
  using assms by (auto simp: callp_def elim!: on_worldE split: prod.splits res.splits)

lemma tryp_world_RetE:
  assumes "tryp L wrap (on_world f) p = Some (Ret r, q)"
  obtains w where "q = p\<lparr>p_world := w\<rparr>"
  using tryp_RetE[OF assms] by (rule on_worldE)

lemma open_storage_sets:
  assumes "open_storage L creds p1 = Some (Ret (), q)" "storage p = None" "extends p p1"
  shows "extends p q \<and> storage q \<noteq> None"
  using assms(1) unfolding open_storage_def
  by (auto elim!: bindp_RetE tryp_world_RetE intro!: extends_upd assms(2,3))

lemma open_session_sets:
  assumes "open_session L p1 = Some (Ret (), q)" "authSession p = None" "extends p p1"
  shows "extends p q \<and> authSession q \<noteq> None"
  using assms(1) unfolding open_session_def
  by (auto elim!: bindp_RetE tryp_world_RetE callp_world_RetE intro!: extends_upd assms(2,3) split: sum.splits)

lemma read_credentials_sets:
  assumes "read_credentials L p1 = Some (Ret (), q)" "credentials p = None" "extends p p1"
  shows "extends p q \<and> credentials q \<noteq> None"
  using assms(1) unfolding read_credentials_def
  by (auto elim!: bindp_RetE callp_world_RetE intro!: extends_upd assms(2,3) split: sum.splits)

text \<open>A variable that is computed only when it has no value, followed by the others of the list.\<close>

lemma needvars_step:
  assumes "bindp (bindp (getp g) (\<lambda>v. if isset v then retp () else m v)) (\<lambda>_. rest) p = Some (Ret (), q)"
    and "isset (g p) \<Longrightarrow> var_set v p"
    and "\<And>q. \<not> isset (g p) \<Longrightarrow> m (g p) p = Some (Ret (), q) \<Longrightarrow> extends p q \<and> var_set v q"
    and "\<And>p q. rest p = Some (Ret (), q) \<Longrightarrow> (\<forall>v \<in> set vs. var_set v q) \<and> extends p q"
  shows "(\<forall>v \<in> set (v # vs). var_set v q) \<and> extends p q"
proof -
  obtain p1 where p1: "bindp (getp g) (\<lambda>v. if isset v then retp () else m v) p = Some (Ret (), p1)" "rest p1 = Some (Ret (), q)"
    using assms(1) by (auto elim: bindp_RetE)
  have "extends p p1 \<and> var_set v p1"
    using p1(1) assms(2,3) by (cases "isset (g p)") auto
  with assms(4)[OF p1(2)] show ?thesis
    by (auto intro: extends_trans extends_var)
qed

text \<open>The same for a variable made from others, \<open>us\<close>, that \<^verbatim>\<open>needvar\<close> is called for first.\<close>

lemma needvars_dep:
  assumes "bindp (needvars L us) (\<lambda>_. m) p = Some (Ret (), q)"
    and "\<And>q. needvars L us p = Some (Ret (), q) \<Longrightarrow> (\<forall>v \<in> set us. var_set v q) \<and> extends p q"
    and "\<And>p1. m p1 = Some (Ret (), q) \<Longrightarrow> \<forall>v \<in> set us. var_set v p1 \<Longrightarrow> extends p p1 \<Longrightarrow> extends p q \<and> var_set v q"
  shows "extends p q \<and> var_set v q"
proof -
  obtain p1 where "needvars L us p = Some (Ret (), p1)" "m p1 = Some (Ret (), q)"
    using assms(1) by (auto elim: bindp_RetE)
  with assms(2)[OF this(1)] assms(3) show ?thesis by blast
qed

lemma needvars_sets:
  "needvars L vs p = Some (Ret (), q) \<Longrightarrow> (\<forall>v \<in> set vs. var_set v q) \<and> extends p q"
proof (induction L vs arbitrary: p q rule: needvars.induct)
  case (1 L)
  then show ?case by (simp add: needvars.simps)
next
  case (2 L vs)
  show ?case
  proof (rule needvars_step[OF 2(3)[unfolded needvars.simps(2)] _ _ 2(2)])
    fix q
    assume "\<not> [] \<noteq> authName p" "bindp (needvars L [V_storageName]) (\<lambda>_. updp (\<lambda>p. p\<lparr>authName := storageName p\<rparr>)) p = Some (Ret (), q)"
    then show "extends p q \<and> var_set V_authName q"
      by (elim needvars_dep) (use 2(1) in \<open>auto intro: extends_upd\<close>)
  qed auto
next
  case (3 L vs)
  show ?case
  proof (rule needvars_step[OF 3(3)[unfolded needvars.simps(3)] _ _ 3(2)])
    fix q
    assume "\<not> None \<noteq> authSession p"
      and run: "bindp (needvars L [V_authName, V_credentials]) (\<lambda>_. open_session L) p = Some (Ret (), q)"
    then have none: "authSession p = None" by simp
    have dep: "needvars L [V_authName, V_credentials] p = Some (Ret (), q) \<Longrightarrow> (\<forall>v \<in> set [V_authName, V_credentials]. var_set v q) \<and> extends p q" for q
      using 3(1)[of "None"] by simp
    show "extends p q \<and> var_set V_authSession q"
      by (rule needvars_dep[OF run dep]) (use none in \<open>auto dest: open_session_sets\<close>)
  qed auto
next
  case (4 L vs)
  show ?case
  proof (rule needvars_step[OF 4(3)[unfolded needvars.simps(4)] _ _ 4(2)])
    fix q
    assume "\<not> [] \<noteq> cachePath p"
      and run: "bindp (needvars L [V_storageName]) (\<lambda>_. updp (\<lambda>p. p\<lparr>cachePath := path_Join (dataDir p) (storageName p)\<rparr>)) p = Some (Ret (), q)"
    then have none: "cachePath p = []" by simp
    have dep: "needvars L [V_storageName] p = Some (Ret (), q) \<Longrightarrow> (\<forall>v \<in> set [V_storageName]. var_set v q) \<and> extends p q" for q
      using 4(1)[of "[]"] by simp
    show "extends p q \<and> var_set V_cachePath q"
      by (rule needvars_dep[OF run dep]) (use none in \<open>auto intro: extends_upd simp: path_Join_nonempty\<close>)
  qed auto
next
  case (5 L vs)
  show ?case
  proof (rule needvars_step[OF 5(3)[unfolded needvars.simps(5)] _ _ 5(2)])
    fix q
    assume "\<not> [] \<noteq> credentialPath p"
      and run: "bindp (needvars L [V_storageName]) (\<lambda>_. updp (\<lambda>p. p\<lparr>credentialPath := ''keyring:objfs/'' @ storageName p\<rparr>)) p = Some (Ret (), q)"
    then have none: "credentialPath p = []" by simp
    have dep: "needvars L [V_storageName] p = Some (Ret (), q) \<Longrightarrow> (\<forall>v \<in> set [V_storageName]. var_set v q) \<and> extends p q" for q
      using 5(1)[of "[]"] by simp
    show "extends p q \<and> var_set V_credentialPath q"
      by (rule needvars_dep[OF run dep]) (use none in \<open>auto intro: extends_upd\<close>)
  qed auto
next
  case (6 L vs)
  show ?case
  proof (rule needvars_step[OF 6(3)[unfolded needvars.simps(6)] _ _ 6(2)])
    fix q
    assume "\<not> None \<noteq> credentials p"
      and run: "bindp (needvars L [V_credentialPath]) (\<lambda>_. read_credentials L) p = Some (Ret (), q)"
    then have none: "credentials p = None" by simp
    have dep: "needvars L [V_credentialPath] p = Some (Ret (), q) \<Longrightarrow> (\<forall>v \<in> set [V_credentialPath]. var_set v q) \<and> extends p q" for q
      using 6(1)[of "None"] by simp
    show "extends p q \<and> var_set V_credentials q"
      by (rule needvars_dep[OF run dep]) (use none in \<open>auto dest: read_credentials_sets\<close>)
  qed auto
next
  case (7 L vs)
  show ?case
    by (rule needvars_step[OF 7(2)[unfolded needvars.simps(7)] _ _ 7(1)]) auto
next
  case (8 L vs)
  let ?m = "\<lambda>auth. if [] \<noteq> auth then
       bindp (needvars L [V_authSession, V_storageName]) (\<lambda>_. bindp (getp authSession) (\<lambda>s.
         case s of None \<Rightarrow> crash PanicRuntime | Some s \<Rightarrow> open_storage L (CredSession s)))
     else
       bindp (needvars L [V_credentials, V_storageName]) (\<lambda>_. bindp (getp credentials) (\<lambda>m.
         open_storage L (CredMap (case m of None \<Rightarrow> fmempty | Some m \<Rightarrow> m))))"
  have run: "bindp (bindp (getp (\<lambda>p. (storage p, authName p))) (\<lambda>x. if None \<noteq> fst x then retp () else ?m (snd x)))
      (\<lambda>_. needvars L vs) p = Some (Ret (), q)"
    using 8(4) unfolding needvars.simps(8) case_prod_beta' .
  show ?case
  proof (rule needvars_step[OF run _ _ 8(3)])
    fix q
    assume "\<not> None \<noteq> fst (storage p, authName p)" and m: "?m (snd (storage p, authName p)) p = Some (Ret (), q)"
    then have none: "storage p = None" by simp
    have dep1: "needvars L [V_authSession, V_storageName] p = Some (Ret (), q) \<Longrightarrow>
        (\<forall>v \<in> set [V_authSession, V_storageName]. var_set v q) \<and> extends p q" if "[] \<noteq> authName p" for q
      using 8(1)[of None "authName p"] that by simp
    have dep2: "needvars L [V_credentials, V_storageName] p = Some (Ret (), q) \<Longrightarrow>
        (\<forall>v \<in> set [V_credentials, V_storageName]. var_set v q) \<and> extends p q" if "\<not> [] \<noteq> authName p" for q
      using 8(2)[of None "authName p"] that by simp
    show "extends p q \<and> var_set V_storage q"
    proof (cases "[] \<noteq> authName p")
      case True
      show ?thesis
      proof (rule needvars_dep[OF m[unfolded snd_conv if_P[OF True]] dep1[OF True]])
        fix p1
        assume run: "bindp (getp authSession) (\<lambda>s. case s of None \<Rightarrow> crash PanicRuntime | Some s \<Rightarrow> open_storage L (CredSession s)) p1 =
            Some (Ret (), q)" and "\<forall>v \<in> set [V_authSession, V_storageName]. var_set v p1" and e: "extends p p1"
        then obtain s where "open_storage L (CredSession s) p1 = Some (Ret (), q)" by auto
        from open_storage_sets[OF this none e] show "extends p q \<and> var_set V_storage q" by simp
      qed
    next
      case False
      show ?thesis
      proof (rule needvars_dep[OF m[unfolded snd_conv if_not_P[OF False]] dep2[OF False]])
        fix p1
        assume run: "bindp (getp credentials) (\<lambda>m. open_storage L (CredMap (case m of None \<Rightarrow> fmempty | Some m \<Rightarrow> m))) p1 =
            Some (Ret (), q)" and e: "extends p p1"
        then obtain m where "open_storage L (CredMap m) p1 = Some (Ret (), q)" by auto
        from open_storage_sets[OF this none e] show "extends p q \<and> var_set V_storage q" by simp
      qed
    qed
  qed auto
qed


lemma needvars_skip: "var_set v p \<Longrightarrow> needvars L (v # vs) p = needvars L vs p"
  by (cases v; hypsubst; subst needvars.simps; auto simp: bindp_def getp_def)

lemma needvars_done: "\<forall>v \<in> set vs. var_set v p \<Longrightarrow> needvars L vs p = Some (Ret (), p)"
  by (induction vs) (simp_all add: needvars_skip needvars.simps(1))

lemma keeps_as [prog_frame]: "keeps g (as_string v)" "keeps g (as_bool v)"
  by (auto simp: as_string_def as_bool_def keeps_def split: option.splits cval.splits)

lemma keeps_assign [prog_frame]: "keeps needvarOnce (assign_vars m)"
  unfolding assign_vars_def by (intro prog_frame) simp_all

lemma keeps_keyring [prog_frame]: "keeps needvarOnce (initKeyring L kind dir)"
  unfolding initKeyring_def Let_def by (intro prog_frame) simp_all

lemma keeps_flagMap [prog_frame]: "keeps needvarOnce (read_flagMap L)"
  unfolding read_flagMap_def merge_config_def Let_def by (intro prog_frame) simp_all

lemma init_vars_once: "keeps needvarOnce (init_vars L)"
  unfolding init_vars_def by (intro prog_frame) simp_all

lemma needvar_once_sets:
  assumes "needvar_once L p = Some (Ret (), q)"
  shows "needvarOnce q \<and> (needvarOnce p \<longrightarrow> q = p)"
  using assms keepsD[OF init_vars_once, of L "p\<lparr>needvarOnce := True\<rparr>"] by (auto simp: needvar_once_def split: if_splits)


subsection \<open>The flag map\<close>

lemma first_of_simps [simp]:
  "first_of (v # vs) = (case v of None \<Rightarrow> first_of vs | Some x \<Rightarrow> Some x)"
  by (cases v) simp_all

lemma fmlookup_over: "fmlookup (m ++\<^sub>f n) k = (case fmlookup n k of None \<Rightarrow> fmlookup m k | Some v \<Rightarrow> Some v)"
  by (cases "fmlookup n k") (simp_all add: fmlookup_dom_iff fmdom_notI)

lemma merge_config_lookup:
  assumes "flags_ok L defaults given"
    and "first_of [given ''storage'', fmlookup (conf_section c []) ''storage'', fmlookup fm ''storage''] = Some (VString name)"
  shows "\<exists>m. merge_config L c fm p = Some (Ret m, p) \<and>
    (\<forall>k \<in> set flag_names. fmlookup m k =
       (if k = ''storage''
        then first_of [fmlookup (conf_section c name) k, given k, fmlookup (conf_section c []) k, fmlookup fm k]
        else first_of [given k, fmlookup (conf_section c name) k, fmlookup (conf_section c []) k, fmlookup fm k]))"
proof -
  let ?m1 = "cflag_Visit L [''storage''] (fm ++\<^sub>f conf_section c [])"
  have visit: "fmlookup (cflag_Visit L ns m) k =
      (case given k of Some v \<Rightarrow> if k \<in> set ns then Some v else fmlookup m k | None \<Rightarrow> fmlookup m k)" for ns m k
    using assms(1) by (simp add: flags_ok_def)
  have m1: "fmlookup ?m1 k = (if k = ''storage'' then first_of [given k, fmlookup (conf_section c []) k, fmlookup fm k]
      else first_of [fmlookup (conf_section c []) k, fmlookup fm k])" for k
    unfolding visit fmlookup_over by (auto split: option.split)
  then have "fmlookup ?m1 ''storage'' = Some (VString name)"
    using assms(2) by simp
  then have run: "merge_config L c fm p =
      Some (Ret (cflag_Visit L [''accept-tls-cert'', ''auth'', ''credentials'', ''datadir'', ''keyring'', ''storage-uri'']
        (?m1 ++\<^sub>f conf_section c name)), p)" (is "_ = Some (Ret ?m2, p)")
    by (simp add: merge_config_def as_string_def Let_def)
  have "fmlookup ?m2 k =
       (if k = ''storage''
        then first_of [fmlookup (conf_section c name) k, given k, fmlookup (conf_section c []) k, fmlookup fm k]
        else first_of [given k, fmlookup (conf_section c name) k, fmlookup (conf_section c []) k, fmlookup fm k])"
    if "k \<in> set flag_names" for k
    unfolding visit fmlookup_over m1 using that by (auto simp: flag_names_def split: option.split)
  with run show ?thesis by blast
qed


text \<open>
  The value an option gets from the values given on the command line, the configuration \<open>c\<close>, in which \<open>name\<close> is
  the section of the storage, and the defaults.
\<close>

definition effective ::
  "(gostring \<Rightarrow> cval option) \<Rightarrow> (gostring \<Rightarrow> cval option) \<Rightarrow> TypedConfig \<Rightarrow> gostring \<Rightarrow> gostring \<Rightarrow> cval option" where
  "effective defaults given c name k =
     (if k = ''storage''
      then first_of [fmlookup (conf_section c name) k, given k, fmlookup (conf_section c []) k, defaults k]
      else first_of [given k, fmlookup (conf_section c name) k, fmlookup (conf_section c []) k, defaults k])"

lemma read_flagMap_lookup:
  assumes "flags_ok L defaults given"
    and "util_ReadFunc (l_auth L) (configPath p) (config_ReadTyped (l_auth L)) (w_os (p_world p)) = (Ok c, x)"
    and "first_of [given ''storage'', fmlookup (conf_section c []) ''storage'', defaults ''storage''] = Some (VString name)"
  shows "\<exists>m. read_flagMap L p = Some (Ret m, p\<lparr>p_world := (p_world p)\<lparr>w_os := x\<rparr>, programConfig := c\<rparr>) \<and>
    (\<forall>k \<in> set flag_names. fmlookup m k = effective defaults given c name k)"
proof -
  let ?fm = "cflag_VisitAll L flag_names fmempty" and ?p = "p\<lparr>p_world := (p_world p)\<lparr>w_os := x\<rparr>, programConfig := c\<rparr>"
  have fm: "fmlookup ?fm k = first_of [given k, defaults k]" if "k \<in> set flag_names" for k
    using assms(1) that by (simp add: flags_ok_def split: option.split)
  have "first_of [given ''storage'', fmlookup (conf_section c []) ''storage'', fmlookup ?fm ''storage''] = Some (VString name)"
    using assms(3) fm[of "''storage''"] by (auto simp: flag_names_def split: option.splits)
  from merge_config_lookup[OF assms(1) this, of ?p] obtain m where
    m: "merge_config L c ?fm ?p = Some (Ret m, ?p)"
    "\<forall>k \<in> set flag_names. fmlookup m k =
       (if k = ''storage''
        then first_of [fmlookup (conf_section c name) k, given k, fmlookup (conf_section c []) k, fmlookup ?fm k]
        else first_of [given k, fmlookup (conf_section c name) k, fmlookup (conf_section c []) k, fmlookup ?fm k])"
    by blast
  have "read_flagMap L p = Some (Ret m, ?p)"
    using assms(2) m(1) by (simp add: read_flagMap_def callp_def on_pos_def on_world_def on_wos_def Let_def)
  then show ?thesis
    using m(2) fm by (intro exI[of _ m]) (auto simp: effective_def split: option.splits)
qed

text \<open>Whether values of the options have the types of the variables.\<close>

definition is_VString :: "cval option \<Rightarrow> bool" where
  "is_VString v = (case v of Some (VString s) \<Rightarrow> True | _ \<Rightarrow> False)"

definition is_VBool :: "cval option \<Rightarrow> bool" where
  "is_VBool v = (case v of Some (VBool b) \<Rightarrow> True | _ \<Rightarrow> False)"

definition vars_typed :: "(gostring \<Rightarrow> cval option) \<Rightarrow> bool" where
  "vars_typed v \<longleftrightarrow> is_VBool (v ''accept-tls-cert'') \<and>
     list_all (\<lambda>k. is_VString (v k)) [''auth'', ''credentials'', ''datadir'', ''keyring'', ''storage'', ''storage-uri'']"

definition to_string :: "cval option \<Rightarrow> gostring" where
  "to_string v = (case v of Some (VString s) \<Rightarrow> s | _ \<Rightarrow> [])"

lemma as_simps:
  "as_string v p = (if is_VString v then Some (Ret (to_string v), p) else Some (Crash PanicRuntime, p))"
  "as_bool v p = (if is_VBool v then Some (Ret (v = Some (VBool True)), p) else Some (Crash PanicRuntime, p))"
  by (auto simp: as_string_def as_bool_def is_VString_def is_VBool_def to_string_def split: option.splits cval.splits)

lemma typed_iff:
  "is_VString v \<longleftrightarrow> (\<exists>s. v = Some (VString s))" "is_VBool v \<longleftrightarrow> (\<exists>b. v = Some (VBool b))"
  by (auto simp: is_VString_def is_VBool_def split: option.splits cval.splits)

lemma assign_vars_run:
  assumes "\<forall>k \<in> set flag_names. fmlookup m k = v k"
  shows "\<exists>p'. assign_vars m p =
    (if vars_typed v then
       Some (Ret (), p\<lparr>acceptTlsCert := (v ''accept-tls-cert'' = Some (VBool True)), authName := to_string (v ''auth''),
         credentialPath := to_string (v ''credentials''), dataDir := to_string (v ''datadir''),
         keyringKind := to_string (v ''keyring''), storageName := to_string (v ''storage''),
         storageUri := to_string (v ''storage-uri'')\<rparr>)
     else Some (Crash PanicRuntime, p'))"
  using assms by (simp add: assign_vars_def vars_typed_def as_simps bindp_def flag_names_def)

text \<open>The rest of the initialisation leaves the variables alone that have been assigned.\<close>

lemma initKeyring_keeps:
  "keeps acceptTlsCert (initKeyring L kind dir)" "keeps authName (initKeyring L kind dir)"
  "keeps credentialPath (initKeyring L kind dir)" "keeps dataDir (initKeyring L kind dir)"
  "keeps keyringKind (initKeyring L kind dir)" "keeps storageName (initKeyring L kind dir)"
  "keeps storageUri (initKeyring L kind dir)" "keeps programConfig (initKeyring L kind dir)"
  "keeps configPath (initKeyring L kind dir)" "keeps insecureTls (initKeyring L kind dir)"
  unfolding initKeyring_def Let_def by (intro prog_frame; simp)+

lemma after_assign:
  assumes "bindp (getp dataDir) (\<lambda>dir.
     bindp (if [] = dir then
              bindp (tryp L id (\<lambda>p. (appdata_DataDir L, p))) (\<lambda>dir. updp (dataDir_update (\<lambda>_. path_Join dir ''objfs'')))
            else retp ()) (\<lambda>_.
     bindp (getp (\<lambda>p. (keyringKind p, dataDir p))) (\<lambda>(kind, dir).
     bindp (initKeyring L kind dir) (\<lambda>_.
       updp (\<lambda>p. if acceptTlsCert p then p\<lparr>insecureTls := True\<rparr> else p))))) p = Some (Ret (), q)"
  shows "acceptTlsCert q = acceptTlsCert p \<and> authName q = authName p \<and> credentialPath q = credentialPath p \<and>
    keyringKind q = keyringKind p \<and> storageName q = storageName p \<and> storageUri q = storageUri p \<and>
    programConfig q = programConfig p \<and> configPath q = configPath p \<and>
    (if dataDir p = [] then \<exists>d. appdata_DataDir L = Ok d \<and> dataDir q = path_Join d ''objfs'' else dataDir q = dataDir p) \<and>
    insecureTls q = (insecureTls p \<or> acceptTlsCert p)"
proof -
  obtain p1 p2 where p1: "(if [] = dataDir p then
      bindp (tryp L id (\<lambda>p. (appdata_DataDir L, p))) (\<lambda>dir. updp (dataDir_update (\<lambda>_. path_Join dir ''objfs'')))
      else retp ()) p = Some (Ret (), p1)"
    and p2: "initKeyring L (keyringKind p1) (dataDir p1) p1 = Some (Ret (), p2)"
    and q: "q = (if acceptTlsCert p2 then p2\<lparr>insecureTls := True\<rparr> else p2)"
    using assms by (auto simp: getp_def updp_def elim!: bindp_RetE)
  have p1: "p1 = p\<lparr>dataDir := dataDir p1\<rparr>" "if dataDir p = [] then \<exists>d. appdata_DataDir L = Ok d \<and> dataDir p1 = path_Join d ''objfs''
      else dataDir p1 = dataDir p"
    using p1 by (auto simp: updp_def retp_def dest!: tryp_RetE elim!: bindp_RetE split: if_splits)
  have "acceptTlsCert p2 = acceptTlsCert p1" "authName p2 = authName p1" "credentialPath p2 = credentialPath p1"
    "dataDir p2 = dataDir p1" "keyringKind p2 = keyringKind p1" "storageName p2 = storageName p1" "storageUri p2 = storageUri p1"
    "programConfig p2 = programConfig p1" "configPath p2 = configPath p1" "insecureTls p2 = insecureTls p1"
    by (rule initKeyring_keeps[THEN keepsD, OF p2])+
  moreover have "acceptTlsCert p1 = acceptTlsCert p" "authName p1 = authName p" "credentialPath p1 = credentialPath p"
    "keyringKind p1 = keyringKind p" "storageName p1 = storageName p" "storageUri p1 = storageUri p"
    "programConfig p1 = programConfig p" "configPath p1 = configPath p" "insecureTls p1 = insecureTls p"
    by (subst p1(1); simp)+
  ultimately show ?thesis
    using p1(2) by (auto simp: q)
qed

subsection \<open>Instances for the witnesses\<close>

definition demo_given :: "gostring \<Rightarrow> cval option" where
  "demo_given = [''storage'' \<mapsto> VString ''mem'']"

definition demo_defaults :: "gostring \<Rightarrow> cval option" where
  "demo_defaults k = (if k = ''accept-tls-cert'' then Some (VBool False) else if k = ''keyring'' then Some (VString ''system'')
     else if k \<in> set flag_names then Some (VString []) else None)"

definition demo_visit :: "(gostring \<Rightarrow> cval option) \<Rightarrow> gostring list \<Rightarrow> TypedSection \<Rightarrow> TypedSection" where
  "demo_visit f ns m = fold (\<lambda>k m. case f k of None \<Rightarrow> m | Some v \<Rightarrow> fmupd k v m) ns m"

lemma demo_visit_lookup: "fmlookup (demo_visit f ns m) k = (if k \<in> set ns then (case f k of None \<Rightarrow> fmlookup m k | Some v \<Rightarrow> Some v) else fmlookup m k)"
  unfolding demo_visit_def by (induction ns arbitrary: m) (auto split: option.splits)

definition demo_lib :: "((gostring \<times> gostring \<Rightarrow> gostring option), memstore, unit, nat) proglib" where
  "demo_lib =
     \<lparr>l_auth = demo_auth, l_golib = demo_golib, errors_New = (\<lambda>_ _ _. ExtErr 0),
      appdata_ConfigDir = Ok ''/etc'', appdata_DataDir = Ok ''/var'',
      cflag_VisitAll = (\<lambda>ns m. demo_visit demo_given ns (demo_visit demo_defaults ns (fmdrop_set (set ns) m))),
      cflag_Visit = demo_visit demo_given, rand_Read = (\<lambda>n. Ok (replicate n (CHR ''x''))),
      keyring_Overlay = (\<lambda>_ _ k. k), auth_Registry = fmempty,
      objio_Registry = RegisterFactory ''mem'' (\<lambda>_ w. (Ok mem_storage, w)) NewObjectFactoryRegistry,
      session_Credentials = (\<lambda>_. fmempty), trace_Trace = (\<lambda>_ s. s), trace_Verbose = False,
      flag_Parse = (\<lambda>_ args. Ok (\<lparr>flag_l = False, flag_n = 0, flag_r = [], flag_s = [], flag_k = False, flag_o = []\<rparr>, args)),
      fmt_Sscanf = (\<lambda>_. None), io_Section = (\<lambda>_ _ _. None), fmt_Value = (\<lambda>_. []), os_Stdin = Ok [],
      stdin_IsTerminal = False, stdout_IsTerminal = False, config_Get = (\<lambda>_ _. None), config_Set = (\<lambda>_ _ c. c),
      config_Delete = (\<lambda>_ c. c)\<rparr>"

lemma demo_lib_flags: "flags_ok demo_lib demo_defaults demo_given"
  by (auto simp: flags_ok_def demo_lib_def demo_visit_lookup split: option.splits)

definition demo_prog :: "((gostring \<times> gostring \<Rightarrow> gostring option), memstore, unit, nat) program" where
  "demo_prog =
     \<lparr>configPath = [], dataDir = ''/d'', programConfig = fmempty, acceptTlsCert = False, authName = [], authSession = None,
      cachePath = [], credentialPath = [], credentials = None, keyringKind = [], storage = None, storageName = ''mem'',
      storageUri = [], needvarOnce = True, insecureTls = False, p_out = [], p_world = demo_world, p_st = memstore0, p_db = ()\<rparr>"

definition demo_conf :: TypedConfig where
  "demo_conf = fmupd ''mem'' (fmupd ''storage-uri'' (VString ''x://y'') fmempty) fmempty"

subsection \<open>Properties\<close>

text \<open>
  C31. The precedence of the configuration: when the configuration file can be read, every option gets the value
  given on the command line, else that of the section named by the storage, else that of the unnamed section, else the
  default of the flag.  The option \<^verbatim>\<open>storage\<close> is the exception: its value in the section of that name goes before
  the one given on the command line.
\<close>

theorem flag_precedence:
  assumes "flags_ok L defaults given"
    and "util_ReadFunc (l_auth L) (configPath p) (config_ReadTyped (l_auth L)) (w_os (p_world p)) = (Ok c, x)"
    and "first_of [given ''storage'', fmlookup (conf_section c []) ''storage'', defaults ''storage''] = Some (VString name)"
  shows "\<exists>m p'. read_flagMap L p = Some (Ret m, p') \<and> programConfig p' = c \<and>
    (\<forall>k \<in> set flag_names. fmlookup m k =
       (if k = ''storage''
        then first_of [fmlookup (conf_section c name) k, given k, fmlookup (conf_section c []) k, defaults k]
        else first_of [given k, fmlookup (conf_section c name) k, fmlookup (conf_section c []) k, defaults k]))"
proof -
  obtain m where "read_flagMap L p = Some (Ret m, p\<lparr>p_world := (p_world p)\<lparr>w_os := x\<rparr>, programConfig := c\<rparr>)"
    "\<forall>k \<in> set flag_names. fmlookup m k = effective defaults given c name k"
    using read_flagMap_lookup[OF assms] by blast
  then show ?thesis
    by (intro exI[of _ m] exI) (auto simp: effective_def)
qed

theorem flag_precedence_witness:
  "\<exists>m p'. read_flagMap (demo_lib\<lparr>l_auth := demo_auth\<lparr>util_ReadFunc := (\<lambda>_ _ x. (Ok demo_conf, x))\<rparr>\<rparr>) demo_prog = Some (Ret m, p') \<and>
    programConfig p' = demo_conf \<and>
    (\<forall>k \<in> set flag_names. fmlookup m k =
       (if k = ''storage''
        then first_of [fmlookup (conf_section demo_conf ''mem'') k, demo_given k, fmlookup (conf_section demo_conf []) k, demo_defaults k]
        else first_of [demo_given k, fmlookup (conf_section demo_conf ''mem'') k, fmlookup (conf_section demo_conf []) k, demo_defaults k]))"
proof (rule flag_precedence)
  show "flags_ok (demo_lib\<lparr>l_auth := demo_auth\<lparr>util_ReadFunc := (\<lambda>_ _ x. (Ok demo_conf, x))\<rparr>\<rparr>) demo_defaults demo_given"
    using demo_lib_flags by (simp add: flags_ok_def)
qed (simp_all add: demo_given_def)

text \<open>
  C33. The first call of \<^verbatim>\<open>needvar\<close> gives the variables the values of the options, when the configuration file, found
  at the path given or else in the default directory, can be read and the option \<^verbatim>\<open>storage\<close> has a string for a value.
  If one of the values that the precedence of C31 selects has not the type of its variable, which a value in the configuration file
  suffices for, the program panics.  Otherwise, when the initialisation returns, \<^verbatim>\<open>authName\<close>, \<^verbatim>\<open>credentialPath\<close>,
  \<^verbatim>\<open>keyringKind\<close>, \<^verbatim>\<open>storageName\<close>, \<^verbatim>\<open>storageUri\<close> and \<^verbatim>\<open>acceptTlsCert\<close> have the values of their options, \<^verbatim>\<open>dataDir\<close> has
  its own or, if that is empty, the default directory, and certificates go unchecked if they did before or
  \<^verbatim>\<open>accept-tls-cert\<close> is set.
\<close>

theorem option_variables:
  assumes "flags_ok L defaults given" "\<not> needvarOnce p"
    and "if configPath p = [] then \<exists>dir. appdata_ConfigDir L = Ok dir \<and> cp = path_Join dir ''objfs.conf'' else cp = configPath p"
    and "fst (util_ReadFunc (l_auth L) cp (config_ReadTyped (l_auth L)) (w_os (p_world p))) = Ok c"
    and "first_of [given ''storage'', fmlookup (conf_section c []) ''storage'', defaults ''storage''] = Some (VString name)"
    and "v = effective defaults given c name" and "needvar_once L p = Some (r, q)"
  shows "(\<not> vars_typed v \<longrightarrow> r = Crash PanicRuntime) \<and>
    (r = Ret () \<longrightarrow>
       v ''accept-tls-cert'' = Some (VBool (acceptTlsCert q)) \<and> v ''auth'' = Some (VString (authName q)) \<and>
       v ''credentials'' = Some (VString (credentialPath q)) \<and> v ''keyring'' = Some (VString (keyringKind q)) \<and>
       v ''storage'' = Some (VString (storageName q)) \<and> v ''storage-uri'' = Some (VString (storageUri q)) \<and>
       (\<exists>d. v ''datadir'' = Some (VString d) \<and>
          (if d = [] then \<exists>dir. appdata_DataDir L = Ok dir \<and> dataDir q = path_Join dir ''objfs'' else dataDir q = d)) \<and>
       insecureTls q = (insecureTls p \<or> acceptTlsCert q) \<and> configPath q = cp \<and> programConfig q = c)"
proof -
  let ?p0 = "p\<lparr>needvarOnce := True, configPath := cp\<rparr>"
  obtain x where x: "util_ReadFunc (l_auth L) cp (config_ReadTyped (l_auth L)) (w_os (p_world p)) = (Ok c, x)"
    using assms(4) by (metis prod.collapse)
  let ?p1 = "?p0\<lparr>p_world := (p_world p)\<lparr>w_os := x\<rparr>, programConfig := c\<rparr>"
  obtain m where m: "read_flagMap L ?p0 = Some (Ret m, ?p1)" "\<forall>k \<in> set flag_names. fmlookup m k = v k"
    using read_flagMap_lookup[OF assms(1) _ assms(5), of ?p0 x] x assms(6) by auto
  obtain p' where a: "assign_vars m ?p1 =
    (if vars_typed v then
       Some (Ret (), ?p1\<lparr>acceptTlsCert := (v ''accept-tls-cert'' = Some (VBool True)), authName := to_string (v ''auth''),
         credentialPath := to_string (v ''credentials''), dataDir := to_string (v ''datadir''),
         keyringKind := to_string (v ''keyring''), storageName := to_string (v ''storage''),
         storageUri := to_string (v ''storage-uri'')\<rparr>)
     else Some (Crash PanicRuntime, p'))"
    using assign_vars_run[OF m(2)] by blast
  let ?rest = "\<lambda>_ :: unit. bindp (getp dataDir) (\<lambda>dir.
     bindp (if [] = dir then
              bindp (tryp L id (\<lambda>p. (appdata_DataDir L, p))) (\<lambda>dir. updp (dataDir_update (\<lambda>_. path_Join dir ''objfs'')))
            else retp ()) (\<lambda>_.
     bindp (getp (\<lambda>p. (keyringKind p, dataDir p))) (\<lambda>(kind, dir).
     bindp (initKeyring L kind dir) (\<lambda>_.
       updp (\<lambda>p. if acceptTlsCert p then p\<lparr>insecureTls := True\<rparr> else p)))))"
  have cp: "(if [] = configPath p then
      bindp (tryp L id (\<lambda>p. (appdata_ConfigDir L, p))) (\<lambda>dir. updp (configPath_update (\<lambda>_. path_Join dir ''objfs.conf'')))
      else retp ()) (p\<lparr>needvarOnce := True\<rparr>) = Some (Ret (), ?p0)"
    using assms(3) by (auto simp: tryp_def callp_def bindp_def updp_def retp_def split: if_splits)
  have run: "bindp (assign_vars m) ?rest ?p1 = Some (r, q)"
    using assms(2,7) cp m(1) by (simp add: needvar_once_def init_vars_def getp_def)
  show ?thesis
  proof (cases "vars_typed v")
    case False
    then show ?thesis
      using run a by (auto simp: bindp_def)
  next
    case True
    then obtain b s1 s2 s3 s4 s5 s6 where t: "v ''accept-tls-cert'' = Some (VBool b)" "v ''auth'' = Some (VString s1)"
      "v ''credentials'' = Some (VString s2)" "v ''datadir'' = Some (VString s3)" "v ''keyring'' = Some (VString s4)"
      "v ''storage'' = Some (VString s5)" "v ''storage-uri'' = Some (VString s6)"
      by (auto simp: vars_typed_def typed_iff)
    let ?p2 = "?p1\<lparr>acceptTlsCert := b, authName := s1, credentialPath := s2, dataDir := s3, keyringKind := s4,
        storageName := s5, storageUri := s6\<rparr>"
    have "assign_vars m ?p1 = Some (Ret (), ?p2)"
      using a True by (simp add: t to_string_def)
    then have rest: "?rest () ?p2 = Some (r, q)"
      using run by simp
    show ?thesis
    proof (cases "r = Ret ()")
      case True
      from after_assign[OF rest[unfolded True]] show ?thesis
        using \<open>vars_typed v\<close> by (simp add: t split: if_splits)
    qed (use \<open>vars_typed v\<close> in simp)
  qed
qed

theorem option_variables_witness:
  "\<exists>q. needvar_once (demo_lib\<lparr>l_auth := demo_auth\<lparr>util_ReadFunc := (\<lambda>_ _ x. (Ok demo_conf, x))\<rparr>\<rparr>)
         (demo_prog\<lparr>needvarOnce := False\<rparr>) = Some (Ret (), q) \<and>
     storageName q = ''mem'' \<and> storageUri q = ''x://y'' \<and> keyringKind q = ''system'' \<and> authName q = [] \<and>
     dataDir q = path_Join ''/var'' ''objfs'' \<and> configPath q = path_Join ''/etc'' ''objfs.conf''"
proof -
  define L where "L = demo_lib\<lparr>l_auth := demo_auth\<lparr>util_ReadFunc := (\<lambda>_ _ x. (Ok demo_conf, x))\<rparr>\<rparr>"
  define p where "p = demo_prog\<lparr>needvarOnce := False\<rparr>"
  let ?v = "effective demo_defaults demo_given demo_conf ''mem''" and ?cp = "path_Join ''/etc'' ''objfs.conf''"
  have v: "?v ''accept-tls-cert'' = Some (VBool False)" "?v ''auth'' = Some (VString [])" "?v ''credentials'' = Some (VString [])"
    "?v ''datadir'' = Some (VString [])" "?v ''keyring'' = Some (VString ''system'')" "?v ''storage'' = Some (VString ''mem'')"
    "?v ''storage-uri'' = Some (VString ''x://y'')"
    by (simp_all add: effective_def demo_defaults_def demo_given_def demo_conf_def conf_section_def flag_names_def)
  have L: "appdata_ConfigDir L = Ok ''/etc''" "appdata_DataDir L = Ok ''/var''" "l_auth L = demo_auth\<lparr>util_ReadFunc := (\<lambda>_ _ x. (Ok demo_conf, x))\<rparr>"
    by (simp_all add: L_def demo_lib_def)
  have f: "flags_ok L demo_defaults demo_given"
    using demo_lib_flags by (simp add: flags_ok_def L_def)
  have p: "\<not> needvarOnce p" "configPath p = []" "p_world p = demo_world"
    by (simp_all add: p_def demo_prog_def)
  have h: "if configPath p = [] then \<exists>dir. appdata_ConfigDir L = Ok dir \<and> ?cp = path_Join dir ''objfs.conf'' else ?cp = configPath p"
    "fst (util_ReadFunc (l_auth L) ?cp (config_ReadTyped (l_auth L)) (w_os (p_world p))) = Ok demo_conf"
    "first_of [demo_given ''storage'', fmlookup (conf_section demo_conf []) ''storage'', demo_defaults ''storage''] = Some (VString ''mem'')"
    by (simp_all add: p L demo_given_def)
  let ?p0 = "p\<lparr>needvarOnce := True, configPath := ?cp\<rparr>"
  obtain m where m: "read_flagMap L ?p0 = Some (Ret m, ?p0\<lparr>p_world := (p_world p)\<lparr>w_os := w_os (p_world p)\<rparr>, programConfig := demo_conf\<rparr>)"
    "\<forall>k \<in> set flag_names. fmlookup m k = ?v k"
    using read_flagMap_lookup[OF f _ h(3), of ?p0 "w_os (p_world p)"] by (auto simp: L)
  have t: "vars_typed ?v"
    by (simp add: vars_typed_def is_VBool_def is_VString_def v)
  have "\<exists>q. needvar_once L p = Some (Ret (), q)"
    using m(1) assign_vars_run[OF m(2), of "?p0\<lparr>p_world := (p_world p)\<lparr>w_os := w_os (p_world p)\<rparr>, programConfig := demo_conf\<rparr>"] t
    by (simp add: needvar_once_def init_vars_def getp_def updp_def tryp_def callp_def bindp_def retp_def initKeyring_def v to_string_def p L)
  then obtain q where q: "needvar_once L p = Some (Ret (), q)" ..
  from option_variables[OF f p(1) h refl q] q v L show ?thesis
    unfolding L_def[symmetric] p_def[symmetric] by auto
qed

text \<open>
  C32. \<^verbatim>\<open>needvar\<close> gives its variables values: when it returns, each variable it was called for has one; calls after the
  first leave every variable alone that has one already; and calling it again for these variables changes
  nothing, prints nothing and does not fail.
\<close>

theorem needvar_sets:
  assumes "needvar L vs p = Some (Ret (), q)"
  shows "(\<forall>v \<in> set vs. var_set v q) \<and> (needvarOnce p \<longrightarrow> extends p q) \<and>
    (\<forall>ws. set ws \<subseteq> set vs \<longrightarrow> needvar L ws q = Some (Ret (), q))"
proof -
  obtain p1 where p1: "needvar_once L p = Some (Ret (), p1)" "needvars L vs p1 = Some (Ret (), q)"
    using assms by (auto simp: needvar_def elim: bindp_RetE)
  note once = needvar_once_sets[OF p1(1)] and sets = needvars_sets[OF p1(2)]
  have "needvarOnce q"
    using once sets by (simp add: extends_def)
  then have "needvar L ws q = Some (Ret (), q)" if "set ws \<subseteq> set vs" for ws
    using needvars_done[of ws q L] sets that by (auto simp: needvar_def needvar_once_def)
  with once sets show ?thesis by auto
qed

theorem needvar_sets_witness:
  "\<exists>q. needvar demo_lib [V_cachePath, V_storageName] demo_prog = Some (Ret (), q) \<and>
     (\<forall>v \<in> set [V_cachePath, V_storageName]. var_set v q) \<and> (needvarOnce demo_prog \<longrightarrow> extends demo_prog q) \<and>
     (\<forall>ws. set ws \<subseteq> set [V_cachePath, V_storageName] \<longrightarrow> needvar demo_lib ws q = Some (Ret (), q))"
proof -
  have "needvar demo_lib [V_cachePath, V_storageName] demo_prog =
      Some (Ret (), demo_prog\<lparr>cachePath := path_Join (dataDir demo_prog) (storageName demo_prog)\<rparr>)"
    by (simp add: needvar_def needvar_once_def needvars.simps demo_prog_def)
  from this needvar_sets[OF this] show ?thesis by blast
qed

end
