(* ===== verification/Commands.thy ===== *)
theory Commands
  imports Vars
begin

text \<open>
  The commands of \<^verbatim>\<open>src/commands.go\<close> that work on the configuration, the keyring and the object storage.

  Each command initialises the variables it needs, parses its flags, checks its arguments and does its work; the commands
  with several paths go on after an error and end with the exit code 1.  The text of a printed line is reduced to
  what it shows: \<^verbatim>\<open>printObjectInfo\<close> and \<^verbatim>\<open>printStorageInfo\<close> are events with the information and the format.
  A file that is written by \<^verbatim>\<open>io.Copy\<close> is written from the position it was opened at or moved to.
\<close>

subsection \<open>Definitions\<close>

type_synonym ('k, 's, 'd, 'a) command = "gostring list \<Rightarrow> (unit, ('k, 's, 'd, 'a) program) prog"

definition printObjectInfo :: "ObjectInfo \<Rightarrow> bool \<Rightarrow> (unit, ('k, 's, 'd, 'a) program) prog" where
  "printObjectInfo info long = print (OutInfo info long)"

definition printStorageInfo :: "StorageInfo \<Rightarrow> (unit, ('k, 's, 'd, 'a) program) prog" where
  "printStorageInfo info = print (OutStorageInfo info)"

definition the_storage :: "('s storage, ('k, 's, 'd, 'a) program) prog" where
  "the_storage = bindp (getp storage) (\<lambda>s. case s of None \<Rightarrow> crash PanicRuntime | Some S \<Rightarrow> retp S)"

definition wraperr :: "('k, 's, 'd, 'a) proglib \<Rightarrow> gostring \<Rightarrow> error \<Rightarrow> error" where
  "wraperr L msg e = errors_New L msg (Some e) None"

text \<open>The opening of a command on the storage.\<close>

definition storage_command ::
  "('k, 's, 'd, 'a) proglib \<Rightarrow> gostring \<Rightarrow> gostring list \<Rightarrow> ('s storage \<Rightarrow> cmdflags \<Rightarrow> gostring list \<Rightarrow> (unit, ('k, 's, 'd, 'a) program) prog) \<Rightarrow>
     (unit, ('k, 's, 'd, 'a) program) prog" where
  "storage_command L cmd args body =
     bindp (needvar L [V_storage]) (\<lambda>_.
     bindp (parse L cmd args) (\<lambda>(fl, args).
     bindp the_storage (\<lambda>S. body S fl args)))"

text \<open>
  A loop over paths: the body says whether it has failed; the loop goes on, and at the end a failure is the exit code 1.
\<close>

fun each_path :: "(gostring \<Rightarrow> (bool, 'p) prog) \<Rightarrow> gostring list \<Rightarrow> bool \<Rightarrow> (bool, 'p) prog" where
  "each_path body [] failed = retp failed"
| "each_path body (path # paths) failed = bindp (body path) (\<lambda>f. each_path body paths (failed \<or> f))"

definition exit_failed :: "bool \<Rightarrow> (unit, ('k, 's, 'd, 'a) program) prog" where
  "exit_failed failed = (if failed then exit 1 else retp ())"

definition on_path ::
  "('k, 's, 'd, 'a) proglib \<Rightarrow> gostring \<Rightarrow> (('k, 's, 'd, 'a) program \<Rightarrow> 'x res \<times> ('k, 's, 'd, 'a) program) \<Rightarrow>
     ('x \<Rightarrow> (unit, ('k, 's, 'd, 'a) program) prog) \<Rightarrow> (bool, ('k, 's, 'd, 'a) program) prog" where
  "on_path L msg f g =
     bindp (callp f) (\<lambda>r.
       case r of
         Inl e \<Rightarrow> bindp (warn L (wraperr L msg e)) (\<lambda>_. retp True)
       | Inr x \<Rightarrow> bindp (g x) (\<lambda>_. retp False))"

definition Statfs_cmd :: "('k, 's, 'd, 'a) proglib \<Rightarrow> ('k, 's, 'd, 'a) command" where
  "Statfs_cmd L args = storage_command L ''statfs'' args (\<lambda>S fl args.
     if length args \<noteq> 0 then usage ''statfs''
     else bindp (tryp L (wraperr L ''statfs'') (on_pst (st_Info S True))) printStorageInfo)"

definition Stat_cmd :: "('k, 's, 'd, 'a) proglib \<Rightarrow> ('k, 's, 'd, 'a) command" where
  "Stat_cmd L args = storage_command L ''stat'' args (\<lambda>S fl args.
     bindp (each_path (\<lambda>path. on_path L (''stat '' @ path) (on_pst (st_Stat S path))
       (\<lambda>info. printObjectInfo info (flag_l fl))) args False) exit_failed)"

definition Mkdir_cmd :: "('k, 's, 'd, 'a) proglib \<Rightarrow> ('k, 's, 'd, 'a) command" where
  "Mkdir_cmd L args = storage_command L ''mkdir'' args (\<lambda>S fl args.
     bindp (each_path (\<lambda>path. on_path L (''mkdir '' @ path) (on_pst (st_Mkdir S path))
       (\<lambda>info. printObjectInfo info False)) args False) exit_failed)"

definition Rmdir_cmd :: "('k, 's, 'd, 'a) proglib \<Rightarrow> ('k, 's, 'd, 'a) command" where
  "Rmdir_cmd L args = storage_command L ''rmdir'' args (\<lambda>S fl args.
     bindp (each_path (\<lambda>path. on_path L (''rmdir '' @ path) (on_pst (st_Rmdir S path)) (\<lambda>_. retp ())) args False) exit_failed)"

definition rm_one :: "('k, 's, 'd, 'a) proglib \<Rightarrow> 's storage \<Rightarrow> gostring \<Rightarrow> (bool, ('k, 's, 'd, 'a) program) prog" where
  "rm_one L S path = on_path L (''rm '' @ path) (on_pst (st_Remove S path)) (\<lambda>_. retp ())"

definition Rm_cmd :: "('k, 's, 'd, 'a) proglib \<Rightarrow> ('k, 's, 'd, 'a) command" where
  "Rm_cmd L args = storage_command L ''rm'' args (\<lambda>S fl args.
     bindp (each_path (rm_one L S) args False) exit_failed)"

definition Mv_cmd :: "('k, 's, 'd, 'a) proglib \<Rightarrow> ('k, 's, 'd, 'a) command" where
  "Mv_cmd L args = storage_command L ''mv'' args (\<lambda>S fl args.
     if 1 > length args \<or> 2 < length args then usage ''mv''
     else
       (let oldpath = Arg args 0; newpath = Arg args 1
        in tryp L (wraperr L (''mv '' @ oldpath)) (on_pst (st_Rename S oldpath newpath))))"

text \<open>
  \<^verbatim>\<open>Ls\<close>: the pages of one listing.  The variable \<^verbatim>\<open>count\<close> belongs to the whole command: what one path has
  left of it is what the next one starts with.
\<close>

partial_function (option) ls_pages ::
  "('k, 's, 'd, 'a) proglib \<Rightarrow> 's storage \<Rightarrow> bool \<Rightarrow> int \<Rightarrow> gostring \<Rightarrow> gostring \<Rightarrow> int \<Rightarrow> ('k, 's, 'd, 'a) program \<Rightarrow>
     ((bool \<times> int) out \<times> ('k, 's, 'd, 'a) program) option" where
  "ls_pages L S long maxcount path marker count p =
     (case on_pst (st_List S path marker count) p of
        (Err e, p) \<Rightarrow> bindp (warn L (wraperr L (''ls '' @ path) e)) (\<lambda>_. retp (True, count)) p
      | (Panic q, p) \<Rightarrow> Some (Crash q, p)
      | (Ok (marker, infos), p) \<Rightarrow>
          (let p = p\<lparr>p_out := p_out p @ map (\<lambda>info. OutInfo info long) infos\<rparr>
           in if [] = marker then Some (Ret (False, count), p)
              else if 0 < maxcount then
                (let count = count - int (length infos)
                 in if 0 \<ge> count then Some (Ret (False, count), p) else ls_pages L S long maxcount path marker count p)
              else ls_pages L S long maxcount path marker count p))"

fun ls_paths ::
  "('k, 's, 'd, 'a) proglib \<Rightarrow> 's storage \<Rightarrow> bool \<Rightarrow> int \<Rightarrow> gostring list \<Rightarrow> bool \<Rightarrow> int \<Rightarrow> (bool, ('k, 's, 'd, 'a) program) prog" where
  "ls_paths L S long maxcount [] failed count = retp failed"
| "ls_paths L S long maxcount (path # paths) failed count =
     bindp (ls_pages L S long maxcount path [] count) (\<lambda>(f, count). ls_paths L S long maxcount paths (failed \<or> f) count)"

definition Ls_cmd :: "('k, 's, 'd, 'a) proglib \<Rightarrow> ('k, 's, 'd, 'a) command" where
  "Ls_cmd L args = storage_command L ''ls'' args (\<lambda>S fl args.
     bindp (ls_paths L S (flag_l fl) (flag_n fl) args False (flag_n fl)) exit_failed)"


text \<open>
  \<^verbatim>\<open>Get\<close>.  The local file is opened with \<^verbatim>\<open>O_CREATE|O_WRONLY\<close>: created when it is not there, and not truncated when it is.
  With a range, the part of the object is written to the same offset of the file.
\<close>

definition os_OpenCreate :: "gostring \<Rightarrow> osstate \<Rightarrow> fileno res \<times> osstate" where
  "os_OpenCreate path w = (if fmlookup (os_files w) path = None then createFile path w else openFile path w)"

definition copy_to :: "fileno \<Rightarrow> i64 \<Rightarrow> stream \<Rightarrow> osstate \<Rightarrow> unit res \<times> osstate" where
  "copy_to f off r w =
     (let (err, w) = (if fst r = [] then (None, w) else (let ((n, e), w) = file_WriteAt f (fst r) off w in (e, w)))
      in case (case err of None \<Rightarrow> snd r | Some e \<Rightarrow> Some e) of None \<Rightarrow> (Ok (), w) | Some e \<Rightarrow> (Err e, w))"

definition file_Seek :: "i64 \<Rightarrow> osstate \<Rightarrow> unit res \<times> osstate" where
  "file_Seek off w =
     (case os_fails w of
        Some e \<Rightarrow> (Err e, os_tick w)
      | None \<Rightarrow> (if sint off < 0 then Err (OsErr NegativeOffset) else Ok (), os_tick w))"

definition get_range :: "('k, 's, 'd, 'a) proglib \<Rightarrow> gostring \<Rightarrow> (i64 \<times> i64, ('k, 's, 'd, 'a) program) prog" where
  "get_range L rng =
     (if [] = rng then retp (0, 0)
      else
        (case fmt_Sscanf L rng of
           None \<Rightarrow> usage ''get''
         | Some (off, n) \<Rightarrow> (let n = n - off in if 0 \<ge> sint n then usage ''get'' else retp (off, n))))"

definition get_copy ::
  "('k, 's, 'd, 'a) proglib \<Rightarrow> gostring \<Rightarrow> gostring \<Rightarrow> gostring \<Rightarrow> i64 \<Rightarrow> i64 \<Rightarrow> ObjectInfo \<Rightarrow> stream \<Rightarrow>
     (unit, ('k, 's, 'd, 'a) program) prog" where
  "get_copy L ipath opath rng off n info reader =
     (let wrap = wraperr L (''get '' @ ipath)
      in bindp
           (if [] = rng then retp reader
            else
              (case io_Section L reader off n of
                 None \<Rightarrow> fail L (errors_New L (''get '' @ ipath @ ''; storage does not implement GET with Range'') None None)
               | Some r \<Rightarrow> retp r)) (\<lambda>reader.
         bindp (tryp L wrap (on_pos (os_OpenCreate opath))) (\<lambda>writer.
         bindp (if [] = rng then retp () else tryp L wrap (on_pos (file_Seek off))) (\<lambda>_.
         bindp (tryp L wrap (on_pos (copy_to writer (if [] = rng then 0 else off) reader))) (\<lambda>_.
           printObjectInfo info False)))))"

definition Get_cmd :: "('k, 's, 'd, 'a) proglib \<Rightarrow> ('k, 's, 'd, 'a) command" where
  "Get_cmd L args = storage_command L ''get'' args (\<lambda>S fl args.
     let rng = flag_r fl; sig = flag_s fl
     in bindp (get_range L rng) (\<lambda>(off, n).
          if 1 > length args \<or> 2 < length args then usage ''get''
          else
            (let ipath = Arg args 0;
                 opath = (if [] = Arg args 1 then path_Base ipath else Arg args 1)
             in bindp (tryp L (wraperr L (''get '' @ ipath)) (on_pst (st_OpenRead S ipath sig))) (\<lambda>(info, reader).
                  case reader of
                    None \<Rightarrow> print (OutText (ipath @ '' matches sig '' @ sig @ ''; not downloaded''))
                  | Some r \<Rightarrow> get_copy L ipath opath rng off n info r))))"

definition Put_cmd :: "('k, 's, 'd, 'a) proglib \<Rightarrow> ('k, 's, 'd, 'a) command" where
  "Put_cmd L args = storage_command L ''put'' args (\<lambda>S fl args.
     if 1 > length args \<or> 2 < length args then usage ''put''
     else
       (let (ipath, opath) = (if [] = Arg args 1 then (path_Base (Arg args 0), Arg args 0) else (Arg args 0, Arg args 1));
            wrap = wraperr L (''put '' @ opath)
        in bindp (tryp L wrap (on_pos (openFile ipath))) (\<lambda>reader.
           bindp (tryp L wrap (on_pos (file_Stat reader))) (\<lambda>stat.
           bindp (tryp L wrap (on_pst (st_OpenWrite S opath (fi_Size stat)))) (\<lambda>writer.
             deferp (\<lambda>p. p\<lparr>p_st := wr_Close S writer (p_st p)\<rparr>)
               (bindp (tryp L wrap (on_pos (read_file reader))) (\<lambda>b.
                bindp (tryp L wrap (on_pst (write_chunks S writer b))) (\<lambda>_.
                bindp (tryp L wrap (on_pst (wr_Wait S writer))) (\<lambda>info.
                  printObjectInfo info False)))))))))"

text \<open>The commands on the configuration.  The errors of writing the file are ignored, as in the code.\<close>

definition save_config :: "('k, 's, 'd, 'a) proglib \<Rightarrow> (unit, ('k, 's, 'd, 'a) program) prog" where
  "save_config L =
     bindp (getp (\<lambda>p. (configPath p, programConfig p))) (\<lambda>(path, conf).
     bindp (callp (on_pos (util_WriteFunc (l_auth L) path (config_WriteTyped (l_auth L) conf)))) (\<lambda>_. retp ()))"

definition IndexByte :: "char \<Rightarrow> gostring \<Rightarrow> nat option" where
  "IndexByte c s = (let i = length (takeWhile (\<lambda>x. x \<noteq> c) s) in if i < length s then Some i else None)"

text \<open>Two arguments, or one of the form \<^verbatim>\<open>a=b\<close> or \<^verbatim>\<open>a/b\<close>.\<close>

definition two_args :: "char \<Rightarrow> gostring list \<Rightarrow> gostring \<times> gostring" where
  "two_args sep args =
     (let k = Arg args 0; v = Arg args 1
      in if [] = v then (case IndexByte sep k of None \<Rightarrow> (k, v) | Some i \<Rightarrow> (take i k, drop (Suc i) k)) else (k, v))"

definition ConfigGet :: "('k, 's, 'd, 'a) proglib \<Rightarrow> ('k, 's, 'd, 'a) command" where
  "ConfigGet L args =
     bindp (needvar L []) (\<lambda>_. bindp (parse L ''config.get'' args) (\<lambda>(fl, args).
       let k = Arg args 0
       in if [] = k then usage ''config.get''
          else
            bindp (getp programConfig) (\<lambda>c.
              case config_Get L k c of None \<Rightarrow> retp () | Some v \<Rightarrow> print (OutText (fmt_Value L v)))))"

definition ConfigSet :: "('k, 's, 'd, 'a) proglib \<Rightarrow> ('k, 's, 'd, 'a) command" where
  "ConfigSet L args =
     bindp (needvar L []) (\<lambda>_. bindp (parse L ''config.set'' args) (\<lambda>(fl, args).
       let (k, v) = two_args (CHR ''='') args
       in if [] = k \<or> [] = v then usage ''config.set''
          else bindp (updp (\<lambda>p. p\<lparr>programConfig := config_Set L k v (programConfig p)\<rparr>)) (\<lambda>_. save_config L)))"

definition ConfigDelete :: "('k, 's, 'd, 'a) proglib \<Rightarrow> ('k, 's, 'd, 'a) command" where
  "ConfigDelete L args =
     bindp (needvar L []) (\<lambda>_. bindp (parse L ''config.delete'' args) (\<lambda>(fl, args).
       let k = Arg args 0
       in if [] = k then usage ''config.delete''
          else bindp (updp (\<lambda>p. p\<lparr>programConfig := config_Delete L k (programConfig p)\<rparr>)) (\<lambda>_. save_config L)))"

text \<open>The commands on the keyring.\<close>

definition keyring_command ::
  "('k, 's, 'd, 'a) proglib \<Rightarrow> gostring \<Rightarrow> gostring list \<Rightarrow>
     (cmdflags \<Rightarrow> gostring \<Rightarrow> gostring \<Rightarrow> (unit, ('k, 's, 'd, 'a) program) prog) \<Rightarrow> (unit, ('k, 's, 'd, 'a) program) prog" where
  "keyring_command L cmd args body =
     bindp (needvar L []) (\<lambda>_. bindp (parse L cmd args) (\<lambda>(fl, args).
       let (service, user) = two_args slash args
       in if [] = service \<or> [] = user then usage cmd else body fl service user))"

definition KeyringGet :: "('k, 's, 'd, 'a) proglib \<Rightarrow> ('k, 's, 'd, 'a) command" where
  "KeyringGet L args = keyring_command L ''keyring.get'' args (\<lambda>fl service user.
     bindp (tryp L id (on_world (on_wkr (keyring_Get (l_auth L) service user)))) (\<lambda>pass.
     bindp (print (OutText pass)) (\<lambda>_.
       if \<not> suffix [CHR 0x0A] pass \<and> stdout_IsTerminal L then print (OutText [CHR 0x0A]) else retp ())))"

definition TrimSuffix :: "gostring \<Rightarrow> gostring \<Rightarrow> gostring" where
  "TrimSuffix s suf = (if suffix suf s then take (length s - length suf) s else s)"

definition KeyringSet :: "('k, 's, 'd, 'a) proglib \<Rightarrow> ('k, 's, 'd, 'a) command" where
  "KeyringSet L args = keyring_command L ''keyring.set'' args (\<lambda>fl service user.
     bindp (tryp L id (\<lambda>p. (os_Stdin L, p))) (\<lambda>pass.
       let pass = (if \<not> flag_k fl \<and> stdin_IsTerminal L then TrimSuffix pass [CHR 0x0A] else pass)
       in tryp L id (on_world (on_wkr (keyring_Set (l_auth L) service user pass)))))"

definition KeyringDelete :: "('k, 's, 'd, 'a) proglib \<Rightarrow> ('k, 's, 'd, 'a) command" where
  "KeyringDelete L args = keyring_command L ''keyring.delete'' args (\<lambda>fl service user.
     tryp L id (on_world (on_wkr (keyring_Delete (l_auth L) service user))))"

definition Auth_cmd :: "('k, 's, 'd, 'a) proglib \<Rightarrow> ('k, 's, 'd, 'a) command" where
  "Auth_cmd L args =
     bindp (needvar L [V_authSession]) (\<lambda>_. bindp (parse L ''auth'' args) (\<lambda>(fl, args).
       let opath = Arg args 0
       in if [] = opath then usage ''auth''
          else
            bindp (getp authSession) (\<lambda>s.
              case s of
                None \<Rightarrow> crash PanicRuntime
              | Some s \<Rightarrow>
                  tryp L (wraperr L ''auth'') (on_world (WriteCredentials (l_auth L) opath (session_Credentials L s))))))"

text \<open>\<^verbatim>\<open>Version\<close>, but for the lines about the product: the names of the storages in order, the default one marked.\<close>

definition version_line :: "gostring \<Rightarrow> gostring \<Rightarrow> outev" where
  "version_line dflt n = OutText (if n = dflt then ''  '' @ n @ '' (default)'' else ''  '' @ n)"

definition Version_storages ::
  "('k, 's, 'd, 'a) proglib \<Rightarrow> (((gostring \<times> 'a creds, 's storage, 'k world) ObjectFactory) ObjectFactoryRegistry \<Rightarrow> gostring list) \<Rightarrow>
     gostring \<Rightarrow> (unit, ('k, 's, 'd, 'a) program) prog" where
  "Version_storages L rangekeys dflt =
     (case GetNames rangekeys (objio_Registry L) of
        Ok names \<Rightarrow> updp (\<lambda>p. p\<lparr>p_out := p_out p @ map (version_line dflt) (sort names)\<rparr>)
      | _ \<Rightarrow> crash PanicRuntime)"

text \<open>
  The subcommands of \<^verbatim>\<open>config\<close> and \<^verbatim>\<open>keyring\<close>, which the user calls by the name after the dot.  They are dispatched by a \<^verbatim>\<open>run\<close>
  of their own, whose result, the exit code, the code does not use.
\<close>

definition Config_cmd :: "('k, 's, 'd, 'a) proglib \<Rightarrow> ('k, 's, 'd, 'a) command" where
  "Config_cmd L args p =
     map_option (\<lambda>(ec, p). (Ret (), p))
       (run L [''get'' \<mapsto> ConfigGet L, ''set'' \<mapsto> ConfigSet L, ''delete'' \<mapsto> ConfigDelete L] args p)"

definition Keyring_cmd :: "('k, 's, 'd, 'a) proglib \<Rightarrow> ('k, 's, 'd, 'a) command" where
  "Keyring_cmd L args p =
     map_option (\<lambda>(ec, p). (Ret (), p))
       (run L [''get'' \<mapsto> KeyringGet L, ''set'' \<mapsto> KeyringSet L, ''delete'' \<mapsto> KeyringDelete L] args p)"


subsection \<open>Running a command\<close>

lemma storage_command_run:
  assumes "storage p = Some S" "needvarOnce p" "flag_Parse L cmd args = Ok (fl, args')"
  shows "storage_command L cmd args body p = body S fl args' p"
proof -
  have "needvar L [V_storage] p = Some (Ret (), p)"
    using assms(1,2) needvars_done[of "[V_storage]" p L] by (simp add: needvar_def needvar_once_def)
  then show ?thesis
    using assms(1,3) by (simp add: storage_command_def parse_def the_storage_def)
qed

lemma on_pos_OkE:
  assumes "on_pos f p = (Ok x, q)"
  obtains w where "f (w_os (p_world p)) = (Ok x, w)" "q = p\<lparr>p_world := (p_world p)\<lparr>w_os := w\<rparr>\<rparr>"
  using assms by (auto simp: on_pos_def on_world_def on_wos_def Let_def split: prod.splits)

lemma on_pst_OkE:
  assumes "on_pst f p = (Ok x, q)"
  obtains s where "f (p_st p) = (Ok x, s)" "q = p\<lparr>p_st := s\<rparr>"
  using assms by (auto simp: on_pst_def Let_def split: prod.splits)

lemma try_pos_RetE:
  assumes "bindp (tryp L wrap (on_pos f)) g p = Some (Ret y, q)"
  obtains x w where "f (w_os (p_world p)) = (Ok x, w)" "g x (p\<lparr>p_world := (p_world p)\<lparr>w_os := w\<rparr>\<rparr>) = Some (Ret y, q)"
proof -
  from assms obtain x p1 where "tryp L wrap (on_pos f) p = Some (Ret x, p1)" and g: "g x p1 = Some (Ret y, q)"
    by (rule bindp_RetE)
  from tryp_RetE[OF this(1)] obtain w where "f (w_os (p_world p)) = (Ok x, w)" "p1 = p\<lparr>p_world := (p_world p)\<lparr>w_os := w\<rparr>\<rparr>"
    by (rule on_pos_OkE)
  with g that show thesis by blast
qed

lemma try_pst_RetE:
  assumes "bindp (tryp L wrap (on_pst f)) g p = Some (Ret y, q)"
  obtains x s where "f (p_st p) = (Ok x, s)" "g x (p\<lparr>p_st := s\<rparr>) = Some (Ret y, q)"
proof -
  from assms obtain x p1 where "tryp L wrap (on_pst f) p = Some (Ret x, p1)" and g: "g x p1 = Some (Ret y, q)"
    by (rule bindp_RetE)
  from tryp_RetE[OF this(1)] obtain s where "f (p_st p) = (Ok x, s)" "p1 = p\<lparr>p_st := s\<rparr>"
    by (rule on_pst_OkE)
  with g that show thesis by blast
qed

lemma deferp_RetE:
  assumes "deferp f m p = Some (Ret y, q)"
  obtains p1 where "m p = Some (Ret y, p1)" "q = f p1"
  using assms by (auto simp: deferp_def)

subsection \<open>Put and get\<close>

text \<open>
  What the commands rely on of \<^verbatim>\<open>OpenRead\<close>: without a signature it opens the object, and a reader that ends without an
  error has delivered its content.
\<close>

definition reads_ok :: "'s storage \<Rightarrow> ('s \<Rightarrow> gostring \<Rightarrow> bytes option) \<Rightarrow> bool" where
  "reads_ok S content \<longleftrightarrow>
     (\<forall>name s i reader s'. st_OpenRead S name [] s = (Ok (i, reader), s') \<longrightarrow>
        (\<exists>b err. reader = Some (b, err) \<and> (err = None \<longrightarrow> content s name = Some b)))"

definition local_bytes :: "('k, 's, 'd, 'a) program \<Rightarrow> gostring \<Rightarrow> bytes option" where
  "local_bytes p path =
     (let w = w_os (p_world p) in map_option (\<lambda>f. fd_bytes (os_data w f)) (fmlookup (os_files w) path))"

lemma read_only_steps:
  "openFile path w = (Ok f, w') \<Longrightarrow> fmlookup (os_files w) path = Some f \<and> os_data w' = os_data w \<and> os_files w' = os_files w"
  "file_Stat f w = (Ok i, w') \<Longrightarrow> os_data w' = os_data w \<and> os_files w' = os_files w"
  "read_file f w = (Ok b, w') \<Longrightarrow> b = fd_bytes (os_data w f) \<and> os_data w' = os_data w \<and> os_files w' = os_files w"
  by (auto simp: openFile_def file_Stat_def read_file_def os_tick_def Let_def split: option.splits if_splits)

lemma put_content:
  assumes "Put_cmd L args p = Some (Ret (), q)" "storage p = Some S" "needvarOnce p"
    and "flag_Parse L ''put'' args = Ok (fl, [lp, rp])" "rp \<noteq> []" "writes_ok S pnd content"
  shows "\<exists>b. local_bytes p lp = Some b \<and> content (p_st q) rp = Some b \<and> storage q = Some S \<and> needvarOnce q \<and>
    (\<forall>path. local_bytes q path = local_bytes p path)"
proof -
  note laws = writes_okD[OF assms(6)]
  let ?wrap = "wraperr L (''put '' @ rp)"
  have "bindp (tryp L ?wrap (on_pos (openFile lp))) (\<lambda>reader.
      bindp (tryp L ?wrap (on_pos (file_Stat reader))) (\<lambda>stat.
      bindp (tryp L ?wrap (on_pst (st_OpenWrite S rp (fi_Size stat)))) (\<lambda>writer.
        deferp (\<lambda>p. p\<lparr>p_st := wr_Close S writer (p_st p)\<rparr>)
          (bindp (tryp L ?wrap (on_pos (read_file reader))) (\<lambda>b.
           bindp (tryp L ?wrap (on_pst (write_chunks S writer b))) (\<lambda>_.
           bindp (tryp L ?wrap (on_pst (wr_Wait S writer))) (\<lambda>info. printObjectInfo info False))))))) p = Some (Ret (), q)"
    using assms(1)[unfolded Put_cmd_def storage_command_run[OF assms(2,3,4)]] assms(5)
    by (simp add: Arg_def Let_def)
  then show ?thesis
  proof (elim try_pos_RetE try_pst_RetE deferp_RetE, goal_cases)
    case (1 f w1 i w2 wr s1 p1 b w3 u s2 info s3)
    then have f: "openFile lp (w_os (p_world p)) = (Ok f, w1)" "file_Stat f w1 = (Ok i, w2)"
      "st_OpenWrite S rp (fi_Size i) (p_st p) = (Ok wr, s1)" "read_file f w2 = (Ok b, w3)"
      "write_chunks S wr b s1 = (Ok (), s2)" "wr_Wait S wr s2 = (Ok info, s3)"
      and q: "q = p\<lparr>p_world := (p_world p)\<lparr>w_os := w3\<rparr>, p_st := wr_Close S wr s3, p_out := p_out p @ [OutInfo info False]\<rparr>"
      by (auto simp: printObjectInfo_def print_def)
    have "pnd s2 wr = Some (rp, [] @ b)"
      by (rule write_chunks_pending[OF f(5) assms(6)]) (rule laws(1)[OF f(3)])
    then have "content (p_st q) rp = Some b"
      using laws(3)[OF f(6)] laws(4) by (simp add: q)
    moreover have "local_bytes p lp = Some b" "local_bytes q path = local_bytes p path" for path
      using read_only_steps(1)[OF f(1)] read_only_steps(2)[OF f(2)] read_only_steps(3)[OF f(4)]
      by (simp_all add: local_bytes_def q Let_def)
    ultimately show ?case
      using assms(2,3) by (simp add: q)
  qed
qed

lemma open_create:
  assumes "os_OpenCreate path w = (Ok f, w')" "\<And>x g. fmlookup (os_files w) x = Some g \<Longrightarrow> g < os_next w"
  shows "fmlookup (os_files w') path = Some f \<and>
    fd_bytes (os_data w' f) = (case fmlookup (os_files w) path of None \<Rightarrow> [] | Some g \<Rightarrow> fd_bytes (os_data w g))"
  using assms by (auto simp: os_OpenCreate_def createFile_def openFile_def os_tick_def Let_def split: option.splits if_splits)

lemma copy_to_start:
  assumes "copy_to f 0 (b, err) w = (Ok (), w')"
  shows "err = None \<and> os_files w' = os_files w \<and>
    fd_bytes (os_data w' f) = b @ drop (length b) (fd_bytes (os_data w f))"
  using assms
  by (auto simp: copy_to_def file_WriteAt_def set_data_def write_bytes_def os_tick_def Let_def split: if_splits option.splits)

lemma get_content:
  assumes "Get_cmd L args p = Some (Ret (), q)" "storage p = Some S" "needvarOnce p"
    and "flag_Parse L ''get'' args = Ok (fl, [rp, lp])" "lp \<noteq> []" "flag_r fl = []" "flag_s fl = []"
    and "reads_ok S content" "\<And>x g. fmlookup (os_files (w_os (p_world p))) x = Some g \<Longrightarrow> g < os_next (w_os (p_world p))"
  shows "\<exists>b. content (p_st p) rp = Some b \<and>
    local_bytes q lp = Some (b @ drop (length b) (case local_bytes p lp of None \<Rightarrow> [] | Some old \<Rightarrow> old))"
proof -
  let ?wrap = "wraperr L (''get '' @ rp)"
  have "bindp (tryp L ?wrap (on_pst (st_OpenRead S rp []))) (\<lambda>(info, reader).
      case reader of
        None \<Rightarrow> print (OutText (rp @ '' matches sig ; not downloaded''))
      | Some r \<Rightarrow> get_copy L rp lp [] 0 0 info r) p = Some (Ret (), q)"
    using assms(1)[unfolded Get_cmd_def storage_command_run[OF assms(2,3,4)]] assms(5-7)
    by (simp add: Arg_def Let_def get_range_def cong: option.case_cong)
  then obtain x s where x: "st_OpenRead S rp [] (p_st p) = (Ok x, s)"
    "(case x of (info, reader) \<Rightarrow> case reader of
        None \<Rightarrow> print (OutText (rp @ '' matches sig ; not downloaded''))
      | Some r \<Rightarrow> get_copy L rp lp [] 0 0 info r) (p\<lparr>p_st := s\<rparr>) = Some (Ret (), q)"
    by (rule try_pst_RetE)
  obtain info b err where b: "x = (info, Some (b, err))" "err = None \<longrightarrow> content (p_st p) rp = Some b"
  proof -
    obtain info reader where "x = (info, reader)" by (cases x)
    moreover from this x(1) have "\<exists>b err. reader = Some (b, err) \<and> (err = None \<longrightarrow> content (p_st p) rp = Some b)"
      using assms(8)[unfolded reads_ok_def, rule_format, of rp "p_st p" info reader s] by simp
    ultimately show thesis using that by blast
  qed
  from x(2) have "bindp (tryp L ?wrap (on_pos (os_OpenCreate lp))) (\<lambda>writer.
          bindp (tryp L ?wrap (on_pos (copy_to writer 0 (b, err)))) (\<lambda>_. printObjectInfo info False)) (p\<lparr>p_st := s\<rparr>) = Some (Ret (), q)"
    by (simp add: b(1) get_copy_def Let_def)
  then show ?thesis
  proof (elim try_pos_RetE, goal_cases)
    case (1 f w1 u w2)
    then have f: "os_OpenCreate lp (w_os (p_world p)) = (Ok f, w1)" "copy_to f 0 (b, err) w1 = (Ok (), w2)"
      and q: "q = p\<lparr>p_st := s, p_world := (p_world p)\<lparr>w_os := w2\<rparr>, p_out := p_out p @ [OutInfo info False]\<rparr>"
      by (simp_all add: printObjectInfo_def print_def)
    from open_create[OF f(1) assms(9)] copy_to_start[OF f(2)] b(2) show ?case
      by (auto simp: local_bytes_def q Let_def split: option.splits)
  qed
qed


subsection \<open>Several paths\<close>

text \<open>
  The reference for the loop of \<^verbatim>\<open>rm\<close>: all paths are removed one after the other, and the errors are collected.
\<close>

fun remove_all :: "'s storage \<Rightarrow> gostring list \<Rightarrow> 's \<Rightarrow> (gostring \<times> error) list \<times> 's" where
  "remove_all S [] s = ([], s)"
| "remove_all S (path # paths) s =
     (let (r, s) = st_Remove S path s; (es, s) = remove_all S paths s
      in ((case r of Err e \<Rightarrow> [(path, e)] | _ \<Rightarrow> []) @ es, s))"

definition rm_warning :: "('k, 's, 'd, 'a) proglib \<Rightarrow> gostring \<times> error \<Rightarrow> outev" where
  "rm_warning L pe =
     (let e = wraperr L (''rm '' @ fst pe) (snd pe)
      in OutWarn e (case ErrnoFromErr (l_golib L) (Some e) of None \<Rightarrow> EIO | Some no \<Rightarrow> no))"

lemma rm_paths:
  assumes "\<And>path s q. fst (st_Remove S path s) \<noteq> Panic q"
    and "\<And>msg e. ErrnoFromErr (l_golib L) (Some (wraperr L msg e)) \<noteq> None"
  shows "each_path (rm_one L S) paths failed p =
    (let (es, s) = remove_all S paths (p_st p)
     in Some (Ret (failed \<or> es \<noteq> []), p\<lparr>p_st := s, p_out := p_out p @ map (rm_warning L) es\<rparr>))"
proof (induction paths arbitrary: failed p)
  case (Cons path paths)
  obtain r s where rs: "st_Remove S path (p_st p) = (r, s)" by fastforce
  have "r \<noteq> Panic q" for q
    using assms(1)[of path "p_st p" q] rs by simp
  then consider "r = Ok ()" | e where "r = Err e" by (cases r) auto
  then show ?case
  proof cases
    case 1
    with rs have "rm_one L S path p = Some (Ret False, p\<lparr>p_st := s\<rparr>)"
      by (simp add: rm_one_def on_path_def callp_def on_pst_def)
    then show ?thesis
      using rs 1 by (simp add: bindp_def Cons.IH case_prod_beta Let_def)
  next
    case 2
    obtain no where "ErrnoFromErr (l_golib L) (Some (wraperr L (''rm '' @ path) e)) = Some no"
      using assms(2) by auto
    with rs 2 have "rm_one L S path p =
        Some (Ret True, p\<lparr>p_st := s, p_out := p_out p @ [rm_warning L (path, e)]\<rparr>)"
      by (simp add: rm_one_def on_path_def callp_def on_pst_def warn_def print_def rm_warning_def Let_def)
    then show ?thesis
      using rs 2 by (simp add: bindp_def Cons.IH case_prod_beta Let_def)
  qed
qed simp


subsection \<open>Listing\<close>

text \<open>
  How many entries a part of the output shows, and what \<^verbatim>\<open>List\<close> documents of its limit: a positive one is kept.
\<close>

fun is_OutInfo :: "outev \<Rightarrow> bool" where
  "is_OutInfo (OutInfo info long) = True"
| "is_OutInfo _ = False"

definition entries :: "outev list \<Rightarrow> nat" where
  "entries es = length (filter is_OutInfo es)"

definition list_ok :: "'s storage \<Rightarrow> bool" where
  "list_ok S \<longleftrightarrow>
     (\<forall>path marker count s marker' infos s'. st_List S path marker count s = (Ok (marker', infos), s') \<longrightarrow> 0 < count \<longrightarrow>
        int (length infos) \<le> count)"

lemma entries_simps [simp]:
  "entries (es @ es') = entries es + entries es'" "entries (map (\<lambda>i. OutInfo i long) infos) = length infos"
  "entries [OutWarn e no] = 0" "entries [] = 0"
  by (simp_all add: entries_def filter_map o_def)

lemma ls_pages_limit:
  assumes "ls_pages L S long n path marker count p = Some (r, q)" "list_ok S" "0 < n" "0 < count"
  shows "\<exists>es. p_out q = p_out p @ es \<and> int (entries es) \<le> count"
proof -
  let ?P = "\<lambda>L' S' l' n' path' marker count p y. S' = S \<and> n' = n \<and> 0 < count \<longrightarrow>
        (\<exists>es. p_out (snd y) = p_out p @ es \<and> int (entries es) \<le> count)"
  have "?P L S long n path marker count p (r, q)"
  proof (rule ls_pages.raw_induct[of ?P, OF _ assms(1)], intro impI, elim conjE, goal_cases)
    case (1 f L S' long n' path marker count p y)
    obtain x p1 where x: "on_pst (st_List S path marker count) p = (x, p1)" by fastforce
    then obtain s where p1: "p1 = p\<lparr>p_st := s\<rparr>" "st_List S path marker count (p_st p) = (x, s)"
      by (auto simp: on_pst_def Let_def split: prod.splits)
    show ?case
    proof (cases x)
      case (Ok m)
      obtain marker' infos where m: "m = (marker', infos)" by (cases m)
      define p2 where "p2 = p1\<lparr>p_out := p_out p1 @ map (\<lambda>info. OutInfo info long) infos\<rparr>"
      have len: "int (length infos) \<le> count"
        using assms(2)[unfolded list_ok_def, rule_format, of path marker count "p_st p" marker' infos s] p1 Ok m 1 by simp
      have p2: "p_out p2 = p_out p @ map (\<lambda>info. OutInfo info long) infos"
        by (simp add: p2_def p1)
      show ?thesis
      proof (cases "marker' = [] \<or> count - int (length infos) \<le> 0")
        case True
        then have "snd y = p2"
          using 1(2-) x Ok m assms(3) by (auto simp: p2_def Let_def split: if_splits)
        then show ?thesis
          using p2 len by (intro exI[of _ "map (\<lambda>info. OutInfo info long) infos"]) simp
      next
        case False
        then have "f L S long n path marker' (count - int (length infos)) p2 = Some y"
          using 1(2-) x Ok m assms(3) by (auto simp: p2_def Let_def)
        from 1(1)[OF this] False obtain es where "p_out (snd y) = p_out p2 @ es" "int (entries es) \<le> count - int (length infos)"
          by auto
        then show ?thesis
          using p2 by (intro exI[of _ "map (\<lambda>info. OutInfo info long) infos @ es"]) simp
      qed
    next
      case (Err e)
      then show ?thesis
        using 1 x p1 by (auto simp: warn_def print_def bindp_def split: option.splits)
    next
      case (Panic u)
      then show ?thesis
        using 1 x p1 by auto
    qed
  qed
  with assms show ?thesis by simp
qed


subsection \<open>Properties\<close>

text \<open>
  C29. A file that was put is got back: when \<^verbatim>\<open>put\<close> of a local file and then \<^verbatim>\<open>get\<close> of the object, with neither range nor
  signature, both succeed, then the second local file starts with exactly the bytes of the first one.  If that file was
  there before and was longer, its old bytes follow, because it is opened without being truncated.
\<close>

theorem put_get:
  assumes "Put_cmd L pargs p = Some (Ret (), p1)" "Get_cmd L gargs p1 = Some (Ret (), q)"
    and "storage p = Some S" "needvarOnce p" "writes_ok S pnd content" "reads_ok S content"
    and "flag_Parse L ''put'' pargs = Ok (pfl, [src, rp])" "rp \<noteq> []"
    and "flag_Parse L ''get'' gargs = Ok (gfl, [rp, dst])" "dst \<noteq> []" "flag_r gfl = []" "flag_s gfl = []"
    and "\<And>x g. fmlookup (os_files (w_os (p_world p1))) x = Some g \<Longrightarrow> g < os_next (w_os (p_world p1))"
  shows "\<exists>b. local_bytes p src = Some b \<and>
    local_bytes q dst = Some (b @ drop (length b) (case local_bytes p dst of None \<Rightarrow> [] | Some old \<Rightarrow> old))"
proof -
  obtain b where b: "local_bytes p src = Some b" "content (p_st p1) rp = Some b" "storage p1 = Some S" "needvarOnce p1"
    "\<And>path. local_bytes p1 path = local_bytes p path"
    using put_content[OF assms(1,3,4,7,8,5)] by blast
  from get_content[OF assms(2) b(3,4) assms(9-12) assms(6) assms(13)] b show ?thesis
    by auto
qed

text \<open>A run of both commands on the storage in memory.\<close>

definition put_world :: "(gostring \<times> gostring \<Rightarrow> gostring option) world" where
  "put_world =
     demo_world\<lparr>w_os := (w_os demo_world)\<lparr>os_files := fmupd ''/a'' 0 (fmupd ''/b'' 1 fmempty), os_next := 2,
       os_data := (\<lambda>f. \<lparr>fd_bytes = (if f = 0 then ''new'' else ''older''), fd_mtime = 0\<rparr>)\<rparr>\<rparr>"

definition put_prog :: "((gostring \<times> gostring \<Rightarrow> gostring option), memstore, unit, nat) program" where
  "put_prog = demo_prog\<lparr>storage := Some mem_storage, p_world := put_world\<rparr>"

lemma mem_reads_ok: "reads_ok mem_storage (\<lambda>s. fmlookup (ms_objects s))"
  by (auto simp: reads_ok_def mem_storage_def split: option.splits)

lemma demo_parse [simp]:
  "flag_Parse demo_lib cmd args = Ok (\<lparr>flag_l = False, flag_n = 0, flag_r = [], flag_s = [], flag_k = False, flag_o = []\<rparr>, args)"
  by (simp add: demo_lib_def)

lemma put_prog_simps [simp]: "storage put_prog = Some mem_storage" "needvarOnce put_prog"
  by (simp_all add: put_prog_def demo_prog_def)

lemma demo_write_chunks:
  assumes "wr_Write mem_storage w ''new'' s = (Ok (), s')"
  shows "write_chunks mem_storage w ''new'' s = (Ok (), s')"
  using assms by (simp add: write_chunks.simps[of _ _ "''new''"] write_chunks.simps[of _ _ "[]"] bindr_def)

lemma demo_put:
  "\<exists>p1. Put_cmd demo_lib [''/a'', ''/r''] put_prog = Some (Ret (), p1) \<and> storage p1 = Some mem_storage \<and> needvarOnce p1 \<and>
     fmlookup (ms_objects (p_st p1)) ''/r'' = Some ''new'' \<and> os_files (w_os (p_world p1)) = os_files (w_os put_world) \<and>
     os_next (w_os (p_world p1)) = 2 \<and> os_fault (w_os (p_world p1)) = (\<lambda>_. None) \<and> os_data (w_os (p_world p1)) = os_data (w_os put_world)"
  unfolding Put_cmd_def storage_command_run[OF put_prog_simps demo_parse]
  by (simp add: Arg_def Let_def deferp_def tryp_def callp_def on_pos_def on_world_def on_wos_def on_pst_def put_prog_def put_world_def
      demo_prog_def demo_world_def openFile_def file_Stat_def read_file_def os_fails_def os_tick_def demo_write_chunks bindr_def
      memstore0_def printObjectInfo_def print_def)


lemma demo_get:
  assumes "storage p = Some mem_storage" "needvarOnce p" "fmlookup (ms_objects (p_st p)) ''/r'' = Some ''new''"
    and "os_files (w_os (p_world p)) = os_files (w_os put_world)" "os_fault (w_os (p_world p)) = (\<lambda>_. None)"
  shows "\<exists>q. Get_cmd demo_lib [''/r'', ''/b''] p = Some (Ret (), q)"
  unfolding Get_cmd_def storage_command_run[OF assms(1,2) demo_parse]
  using assms(3-5)
  by (simp add: Arg_def Let_def get_range_def get_copy_def tryp_def callp_def on_pos_def on_world_def on_wos_def on_pst_def
      put_world_def mem_storage_def os_OpenCreate_def openFile_def os_fails_def os_tick_def copy_to_def file_WriteAt_def
      printObjectInfo_def print_def)

theorem put_get_witness:
  "\<exists>p1 q b. Put_cmd demo_lib [''/a'', ''/r''] put_prog = Some (Ret (), p1) \<and> Get_cmd demo_lib [''/r'', ''/b''] p1 = Some (Ret (), q) \<and>
     local_bytes put_prog ''/a'' = Some b \<and>
     local_bytes q ''/b'' = Some (b @ drop (length b) (case local_bytes put_prog ''/b'' of None \<Rightarrow> [] | Some old \<Rightarrow> old))"
proof -
  obtain p1 where p1: "Put_cmd demo_lib [''/a'', ''/r''] put_prog = Some (Ret (), p1)" "storage p1 = Some mem_storage" "needvarOnce p1"
    "fmlookup (ms_objects (p_st p1)) ''/r'' = Some ''new''" "os_files (w_os (p_world p1)) = os_files (w_os put_world)"
    "os_next (w_os (p_world p1)) = 2" "os_fault (w_os (p_world p1)) = (\<lambda>_. None)"
    using demo_put by blast
  obtain q where q: "Get_cmd demo_lib [''/r'', ''/b''] p1 = Some (Ret (), q)"
    using demo_get[OF p1(2-5,7)] by blast
  have "g < os_next (w_os (p_world p1))" if "fmlookup (os_files (w_os (p_world p1))) x = Some g" for x g
    using that p1(5,6) by (auto simp: put_world_def split: if_splits)
  from put_get[OF p1(1) q put_prog_simps mem_writes_ok mem_reads_ok demo_parse _ demo_parse _ _ _ this] p1(1) q show ?thesis
    by simp
qed

text \<open>
  C30. \<^verbatim>\<open>rm\<close> tries every path: it removes the objects one after the other whatever happens to the others, prints one
  warning for each that could not be removed, in their order, and ends with the exit code 1 if and only if there was one.
\<close>

theorem rm_tries_all:
  assumes "storage p = Some S" "needvarOnce p" "flag_Parse L ''rm'' args = Ok (fl, paths)"
    and "\<And>path s q. fst (st_Remove S path s) \<noteq> Panic q"
    and "\<And>msg e. ErrnoFromErr (l_golib L) (Some (wraperr L msg e)) \<noteq> None"
    and "remove_all S paths (p_st p) = (es, s)"
  shows "Rm_cmd L args p =
    Some (if es = [] then Ret () else Exit 1, p\<lparr>p_st := s, p_out := p_out p @ map (rm_warning L) es\<rparr>)"
  unfolding Rm_cmd_def storage_command_run[OF assms(1-3)]
  using rm_paths[OF assms(4,5), of paths False p] assms(6)
  by (simp add: bindp_def exit_failed_def)

lemma mem_Remove_no_panic: "fst (st_Remove mem_storage path s) \<noteq> Panic q"
  by (simp add: mem_storage_def)

lemma demo_errno: "ErrnoFromErr (l_golib demo_lib) (Some (wraperr demo_lib msg e)) \<noteq> None"
proof -
  have "cause_chain demo_golib (ExtErr 0) [ExtErr 0]"
    by (simp add: demo_golib_def)
  from errno_loop_chain[OF this] show ?thesis
    by (simp add: ErrnoFromErr_def demo_lib_def wraperr_def)
qed

theorem rm_tries_all_witness:
  "\<exists>q. Rm_cmd demo_lib [''/x'', ''/r''] (put_prog\<lparr>p_st := memstore0\<lparr>ms_objects := fmupd ''/r'' ''new'' fmempty\<rparr>\<rparr>) = Some (Exit 1, q)"
proof -
  let ?p = "put_prog\<lparr>p_st := memstore0\<lparr>ms_objects := fmupd ''/r'' ''new'' fmempty\<rparr>\<rparr>"
  have "storage ?p = Some mem_storage" "needvarOnce ?p" by simp_all
  from rm_tries_all[OF this demo_parse mem_Remove_no_panic demo_errno, of "[''/x'', ''/r'']"] show ?thesis
    by (simp add: mem_storage_def case_prod_beta)
qed

text \<open>
  The limit of \<^verbatim>\<open>ls -n\<close> for one path: no more entries are printed than asked for, however many pages the storage
  delivers, provided that \<^verbatim>\<open>List\<close> keeps its limit.
\<close>

theorem ls_limit:
  assumes "Ls_cmd L args p = Some (r, q)" "storage p = Some S" "needvarOnce p"
    and "flag_Parse L ''ls'' args = Ok (fl, [path])" "0 < flag_n fl" "list_ok S"
  shows "\<exists>es. p_out q = p_out p @ es \<and> int (entries es) \<le> flag_n fl"
proof -
  let ?m = "ls_pages L S (flag_l fl) (flag_n fl) path [] (flag_n fl)"
  obtain r' where "?m p = Some (r', q)"
    using assms(1)[unfolded Ls_cmd_def storage_command_run[OF assms(2-4)]]
    by (auto simp: bindp_def exit_failed_def split: option.splits out.splits prod.splits if_splits)
  from ls_pages_limit[OF this assms(6,5,5)] show ?thesis .
qed


text \<open>A storage with three entries in every directory.\<close>

definition three_entries :: "memstore storage" where
  "three_entries =
     mem_storage\<lparr>st_List := (\<lambda>path m n s.
       let infos = map (\<lambda>x. mem_info x False []) [''x'', ''y'', ''z'']
       in (Ok (if 0 < n then (''m'', take (nat n) infos) else ([], infos)), s))\<rparr>"

definition ls_lib :: "((gostring \<times> gostring \<Rightarrow> gostring option), memstore, unit, nat) proglib" where
  "ls_lib = demo_lib\<lparr>flag_Parse := (\<lambda>_ args.
     Ok (\<lparr>flag_l = False, flag_n = 1, flag_r = [], flag_s = [], flag_k = False, flag_o = []\<rparr>, args))\<rparr>"

definition ls_prog :: "((gostring \<times> gostring \<Rightarrow> gostring option), memstore, unit, nat) program" where
  "ls_prog = demo_prog\<lparr>storage := Some three_entries\<rparr>"

lemma ls_prog_simps [simp]: "storage ls_prog = Some three_entries" "needvarOnce ls_prog" "p_out ls_prog = []"
  by (simp_all add: ls_prog_def demo_prog_def)

lemma ls_lib_parse:
  "flag_Parse ls_lib cmd args = Ok (\<lparr>flag_l = False, flag_n = 1, flag_r = [], flag_s = [], flag_k = False, flag_o = []\<rparr>, args)"
  by (simp add: ls_lib_def)

lemma three_entries_ok: "list_ok three_entries"
  by (auto simp: list_ok_def three_entries_def Let_def split: if_splits)

lemma demo_ls: "\<exists>r q. Ls_cmd ls_lib [''/d''] ls_prog = Some (r, q)"
  unfolding Ls_cmd_def storage_command_run[OF ls_prog_simps(1,2) ls_lib_parse]
  by (simp add: bindp_def exit_failed_def ls_pages.simps on_pst_def three_entries_def Let_def)

theorem ls_limit_witness:
  "\<exists>r q es. Ls_cmd ls_lib [''/d''] ls_prog = Some (r, q) \<and> p_out q = p_out ls_prog @ es \<and> int (entries es) \<le> 1"
proof -
  obtain r q where q: "Ls_cmd ls_lib [''/d''] ls_prog = Some (r, q)"
    using demo_ls by blast
  from ls_limit[OF q ls_prog_simps(1,2) ls_lib_parse _ three_entries_ok] q show ?thesis
    by simp
qed

text \<open>
  With several paths the limit does not hold: once a path has used it up, the next one is listed with the limit 0,
  which means none.
\<close>

lemma ls_second_path_unlimited:
  "\<exists>q. Ls_cmd ls_lib [''/d'', ''/e''] ls_prog = Some (Ret (), q) \<and> entries (p_out q) = 4"
  unfolding Ls_cmd_def storage_command_run[OF ls_prog_simps(1,2) ls_lib_parse]
  by (simp add: bindp_def exit_failed_def ls_pages.simps on_pst_def three_entries_def Let_def entries_def ls_prog_def demo_prog_def)

text \<open>\<^verbatim>\<open>mv\<close> with one argument renames the object to the empty name, although its usage asks for two.\<close>

lemma mv_one_argument:
  assumes "storage p = Some S" "needvarOnce p" "flag_Parse L ''mv'' args = Ok (fl, [path])"
    and "st_Rename S path [] (p_st p) = (Ok (), s)"
  shows "Mv_cmd L args p = Some (Ret (), p\<lparr>p_st := s\<rparr>)"
  unfolding Mv_cmd_def storage_command_run[OF assms(1-3)]
  using assms(4) by (simp add: Arg_def tryp_def callp_def on_pst_def)

text \<open>
  The exit code of a subcommand of \<^verbatim>\<open>keyring\<close> is lost: getting a key that is not there prints an error, and the program
  reports success.
\<close>

lemma keyring_failure_exit_code:
  "\<exists>q. run demo_lib [''keyring'' \<mapsto> Keyring_cmd demo_lib] [''keyring'', ''get'', ''s'', ''u''] demo_prog = Some (0, q) \<and>
     p_out q \<noteq> []"
proof -
  obtain no where no: "ErrnoFromErr demo_golib (Some (ExtErr 0)) = Some no"
    using demo_errno[of "[]" "ExtErr 0"] by (auto simp: demo_lib_def wraperr_def)
  have nv: "needvar demo_lib [] demo_prog = Some (Ret (), demo_prog)"
    by (simp add: needvar_def needvar_once_def needvars.simps demo_prog_def)
  have lib: "l_golib demo_lib = demo_golib" "l_auth demo_lib = demo_auth"
    by (simp_all add: demo_lib_def)
  have get: "KeyringGet demo_lib [''s'', ''u''] demo_prog = Some (Exit 1, demo_prog\<lparr>p_out := [OutWarn (ExtErr 0) no]\<rparr>)"
    unfolding KeyringGet_def keyring_command_def
    by (simp add: bindp_def nv parse_def two_args_def Arg_def tryp_def callp_def on_world_def on_wkr_def
        fail_def warn_def print_def lib no) (simp add: demo_auth_def demo_prog_def demo_world_def bindp_def warn_def print_def lib no)
  show ?thesis
    by (simp add: run_def dispatch_def bindp_def parse_def Arg_def Keyring_cmd_def get)
qed

end
