(* ===== verification/CacheCommands.thy ===== *)
theory CacheCommands
  imports Commands Download
begin

text \<open>
  The commands that work through the cache: \<^verbatim>\<open>src/cache_commands.go\<close>, and \<^verbatim>\<open>cache-pending\<close> and \<^verbatim>\<open>cache-reset\<close> of
  \<^verbatim>\<open>src/commands.go\<close>.

  A command opens the cache, works on it and closes it by a deferred call.  While it is open, the files, the storage and the
  database are those of the cache; the state of such a command is the pair of the program and the cache, and closing
  puts them back into the program.  What the cache needs outside the repository is the parameter \<open>cachelib\<close>; \<open>cl_Open\<close> is
  \<^verbatim>\<open>bolt.Open\<close> of the index file.  The state in which a failing \<^verbatim>\<open>OpenCache\<close> leaves the files is not modelled: the command ends there.
\<close>

subsection \<open>Definitions\<close>

record ('d) cachelib =
  cl_bolt :: "'d bolt"
  cl_sha256 :: "bytes \<Rightarrow> bytes"
  cl_SimpleFold :: "rune \<Rightarrow> rune"
  cl_wrap :: "error \<Rightarrow> error"
  cl_badversion :: error
  cl_cwd :: "gostring res"
  cl_ErrShortWrite :: error
  cl_Open :: "'d \<Rightarrow> gostring \<Rightarrow> osstate \<Rightarrow> 'd res \<times> osstate"

type_synonym ('k, 's, 'd, 'a) opened = "('k, 's, 'd, 'a) program \<times> ('d, 's) cache"

definition cache_env :: "('k, 's, 'd, 'a) proglib \<Rightarrow> 'd cachelib \<Rightarrow> 's storage \<Rightarrow> ('d, 's) env" where
  "cache_env L C S =
     \<lparr>e_bolt = cl_bolt C, e_storage = S, e_golib = l_golib L, e_sha256 = cl_sha256 C, e_SimpleFold = cl_SimpleFold C\<rparr>"

definition openCache ::
  "('k, 's, 'd, 'a) proglib \<Rightarrow> 'd cachelib \<Rightarrow> 's storage \<Rightarrow> openflag \<Rightarrow> ('k, 's, 'd, 'a) program \<Rightarrow> (('d, 's) cache res) option" where
  "openCache L C S flag p =
     OpenCache (cache_env L C S) (cl_wrap C) (cl_badversion C) (cl_cwd C) (cl_Open C (p_db p)) (cachePath p) None flag
       (p_st p) (w_os (p_world p))"

text \<open>The deferred \<^verbatim>\<open>c.CloseCache()\<close>: its error is ignored.\<close>

definition close_cache ::
  "('d, 's) env \<Rightarrow> 'd cachelib \<Rightarrow> 'x out \<Rightarrow> ('k, 's, 'd, 'a) opened \<Rightarrow> ('x out \<times> ('k, 's, 'd, 'a) program) option" where
  "close_cache E C r pc =
     (let back = (\<lambda>c. (fst pc)\<lparr>p_world := (p_world (fst pc))\<lparr>w_os := c_os c\<rparr>, p_st := c_st c, p_db := c_db c\<rparr>)
      in case CloseCache E (cl_wrap C) (snd pc) of
           None \<Rightarrow> None
         | Some (Panic q, c) \<Rightarrow> Some (Crash q, back c)
         | Some (_, c) \<Rightarrow> Some (r, back c))"

definition with_cache ::
  "('k, 's, 'd, 'a) proglib \<Rightarrow> 'd cachelib \<Rightarrow> gostring \<Rightarrow> openflag \<Rightarrow> (('d, 's) env \<Rightarrow> ('x, ('k, 's, 'd, 'a) opened) prog) \<Rightarrow>
     ('x, ('k, 's, 'd, 'a) program) prog" where
  "with_cache L C cmd flag body =
     bindp the_storage (\<lambda>S p.
       case openCache L C S flag p of
         None \<Rightarrow> None
       | Some (Err e) \<Rightarrow> fail L (wraperr L cmd e) p
       | Some (Panic q) \<Rightarrow> Some (Crash q, p)
       | Some (Ok c) \<Rightarrow>
           (case body (cache_env L C S) (p, c) of
              None \<Rightarrow> None
            | Some (r, pc) \<Rightarrow> close_cache (cache_env L C S) C r pc))"

text \<open>Steps of the program and of the cache on the pair.\<close>

definition liftp :: "('x, ('k, 's, 'd, 'a) program) prog \<Rightarrow> ('x, ('k, 's, 'd, 'a) opened) prog" where
  "liftp m pc = map_option (\<lambda>(r, p). (r, (p, snd pc))) (m (fst pc))"

definition on_cache :: "(('d, 's) cache \<Rightarrow> 'x res \<times> ('d, 's) cache) \<Rightarrow> ('k, 's, 'd, 'a) opened \<Rightarrow> 'x res \<times> ('k, 's, 'd, 'a) opened" where
  "on_cache f pc = (let (r, c) = f (snd pc) in (r, (fst pc, c)))"

definition callc :: "(('d, 's) cache \<Rightarrow> 'x res \<times> ('d, 's) cache) \<Rightarrow> (error + 'x, ('k, 's, 'd, 'a) opened) prog" where
  "callc f = callp (on_cache f)"

definition trycc ::
  "('k, 's, 'd, 'a) proglib \<Rightarrow> gostring \<Rightarrow> (('d, 's) cache \<Rightarrow> 'x res \<times> ('d, 's) cache) \<Rightarrow> ('x, ('k, 's, 'd, 'a) opened) prog" where
  "trycc L msg f = bindp (callc f) (\<lambda>r. case r of Inl e \<Rightarrow> liftp (fail L (wraperr L msg e)) | Inr x \<Rightarrow> retp x)"

text \<open>
  The body of a loop over paths: the path is opened, the call is made, the inode is closed (not deferred: after a
  panic it stays open), and an error of the opening or the call is reported.
\<close>

definition with_ino ::
  "('d, 's) env \<Rightarrow> gostring \<Rightarrow> (u64 \<Rightarrow> (error + 'x, ('k, 's, 'd, 'a) opened) prog) \<Rightarrow> (error + 'x, ('k, 's, 'd, 'a) opened) prog" where
  "with_ino E path f =
     bindp (callc (Open E path)) (\<lambda>r.
       case r of
         Inl e \<Rightarrow> retp (Inl e)
       | Inr ino \<Rightarrow> bindp (f ino) (\<lambda>r. bindp (callc (Close E ino)) (\<lambda>_. retp r)))"

definition cache_path ::
  "('k, 's, 'd, 'a) proglib \<Rightarrow> gostring \<Rightarrow> ('d, 's) env \<Rightarrow> (u64 \<Rightarrow> (error + 'x, ('k, 's, 'd, 'a) opened) prog) \<Rightarrow> gostring \<Rightarrow>
     (bool, ('k, 's, 'd, 'a) opened) prog" where
  "cache_path L cmd E f path =
     bindp (with_ino E path f) (\<lambda>r.
       case r of
         Inl e \<Rightarrow> bindp (liftp (warn L (wraperr L (cmd @ '' '' @ path) e))) (\<lambda>_. retp True)
       | Inr _ \<Rightarrow> retp False)"

definition cache_loop ::
  "('k, 's, 'd, 'a) proglib \<Rightarrow> 'd cachelib \<Rightarrow> gostring \<Rightarrow> (cmdflags \<Rightarrow> ('d, 's) env \<Rightarrow> u64 \<Rightarrow> (error + 'x, ('k, 's, 'd, 'a) opened) prog) \<Rightarrow>
     ('k, 's, 'd, 'a) command" where
  "cache_loop L C cmd f args =
     bindp (needvar L [V_storage, V_cachePath]) (\<lambda>_. bindp (parse L cmd args) (\<lambda>(fl, args).
       with_cache L C cmd OpenOnly (\<lambda>E.
         bindp (each_path (cache_path L cmd E (f fl E)) args False) (\<lambda>failed. liftp (exit_failed failed)))))"

definition readdir_print ::
  "('d, 's) env \<Rightarrow> bool \<Rightarrow> u64 \<Rightarrow> (error + unit, ('k, 's, 'd, 'a) opened) prog" where
  "readdir_print E long ino pc =
     (case Readdir E ino 0 (snd pc) of
        None \<Rightarrow> None
      | Some (Err e, c) \<Rightarrow> Some (Ret (Inl e), (fst pc, c))
      | Some (Panic q, c) \<Rightarrow> Some (Crash q, (fst pc, c))
      | Some (Ok infos, c) \<Rightarrow>
          Some (Ret (Inr ()), ((fst pc)\<lparr>p_out := p_out (fst pc) @ map (\<lambda>info. OutInfo info long) infos\<rparr>, c)))"

definition CacheLs :: "('k, 's, 'd, 'a) proglib \<Rightarrow> 'd cachelib \<Rightarrow> ('k, 's, 'd, 'a) command" where
  "CacheLs L C = cache_loop L C ''cache-ls'' (\<lambda>fl E ino. readdir_print E (flag_l fl) ino)"

definition CacheStat :: "('k, 's, 'd, 'a) proglib \<Rightarrow> 'd cachelib \<Rightarrow> ('k, 's, 'd, 'a) command" where
  "CacheStat L C = cache_loop L C ''cache-stat'' (\<lambda>fl E ino.
     bindp (callc (Stat E ino)) (\<lambda>r.
       case r of
         Inl e \<Rightarrow> retp (Inl e)
       | Inr info \<Rightarrow> bindp (liftp (printObjectInfo info (flag_l fl))) (\<lambda>_. retp (Inr ()))))"

definition CacheMkdir :: "('k, 's, 'd, 'a) proglib \<Rightarrow> 'd cachelib \<Rightarrow> ('k, 's, 'd, 'a) command" where
  "CacheMkdir L C = cache_loop L C ''cache-mkdir'' (\<lambda>fl E ino. callc (Make E ino True))"

definition CacheRmdir :: "('k, 's, 'd, 'a) proglib \<Rightarrow> 'd cachelib \<Rightarrow> ('k, 's, 'd, 'a) command" where
  "CacheRmdir L C = cache_loop L C ''cache-rmdir'' (\<lambda>fl E ino. callc (Remove E ino True))"

definition CacheRm :: "('k, 's, 'd, 'a) proglib \<Rightarrow> 'd cachelib \<Rightarrow> ('k, 's, 'd, 'a) command" where
  "CacheRm L C = cache_loop L C ''cache-rm'' (\<lambda>fl E ino. callc (Remove E ino False))"

text \<open>The opening of the commands that take a fixed number of arguments.\<close>

definition cache_command ::
  "('k, 's, 'd, 'a) proglib \<Rightarrow> gostring \<Rightarrow> (nat \<Rightarrow> bool) \<Rightarrow> (gostring list \<Rightarrow> (unit, ('k, 's, 'd, 'a) program) prog) \<Rightarrow>
     ('k, 's, 'd, 'a) command" where
  "cache_command L cmd nargs body args =
     bindp (needvar L [V_storage, V_cachePath]) (\<lambda>_. bindp (parse L cmd args) (\<lambda>(fl, args).
       if nargs (length args) then body args else usage cmd))"

definition CacheStatfs :: "('k, 's, 'd, 'a) proglib \<Rightarrow> 'd cachelib \<Rightarrow> ('k, 's, 'd, 'a) command" where
  "CacheStatfs L C = cache_command L ''cache-statfs'' (\<lambda>n. n = 0) (\<lambda>args.
     with_cache L C ''cache-statfs'' OpenOnly (\<lambda>E.
       bindp (trycc L ''cache-statfs'' (Statfs E)) (\<lambda>info. liftp (printStorageInfo info))))"

definition CacheMv :: "('k, 's, 'd, 'a) proglib \<Rightarrow> 'd cachelib \<Rightarrow> ('k, 's, 'd, 'a) command" where
  "CacheMv L C = cache_command L ''cache-mv'' (\<lambda>n. \<not> (1 > n \<or> 2 < n)) (\<lambda>args.
     let oldpath = Arg args 0; newpath = Arg args 1
     in with_cache L C ''cache-mv'' OpenOnly (\<lambda>E.
          bindp (with_ino E oldpath (\<lambda>ino. callc (Rename E ino newpath))) (\<lambda>r.
            case r of Inl e \<Rightarrow> liftp (fail L (wraperr L (''cache-mv '' @ oldpath) e)) | Inr _ \<Rightarrow> retp ())))"


text \<open>
  The copying of \<^verbatim>\<open>cache-get\<close> and \<^verbatim>\<open>cache-put\<close>.  \<^verbatim>\<open>cacheReader\<close> and \<^verbatim>\<open>cacheWriter\<close> keep an offset, which advances by the bytes read
  or written.  \<^verbatim>\<open>io.Copy\<close> moves at most 32 KB at a time, until the reader is at its end or something fails; a reader that
  delivers nothing and no error is asked again.
\<close>

definition cacheReader_Read ::
  "('d, 's) env \<Rightarrow> u64 \<Rightarrow> nat \<Rightarrow> i64 \<Rightarrow> ('d, 's) cache \<Rightarrow> ((bytes \<times> error option) \<times> i64) res \<times> ('d, 's) cache" where
  "cacheReader_Read E ino len off c =
     (case ReadAt E ino len off c of
        (Ok (got, err), c) \<Rightarrow> (Ok ((got, err), off + of_nat (length got)), c)
      | (Err e, c) \<Rightarrow> (Ok (([], Some e), off), c)
      | (Panic q, c) \<Rightarrow> (Panic q, c))"

definition cacheWriter_Write ::
  "('d, 's) env \<Rightarrow> u64 \<Rightarrow> bytes \<Rightarrow> i64 \<Rightarrow> ('d, 's) cache \<Rightarrow> ((nat \<times> error option) \<times> i64) res \<times> ('d, 's) cache" where
  "cacheWriter_Write E ino buf off c =
     (case WriteAt E ino buf off c of
        (Ok (n, err), c) \<Rightarrow> (Ok ((n, err), off + of_nat n), c)
      | (Err e, c) \<Rightarrow> (Ok ((0, Some e), off), c)
      | (Panic q, c) \<Rightarrow> (Panic q, c))"

partial_function (option) copy_out ::
  "('d, 's) env \<Rightarrow> u64 \<Rightarrow> fileno \<Rightarrow> i64 \<Rightarrow> i64 \<Rightarrow> ('d, 's) cache \<Rightarrow> (unit res \<times> ('d, 's) cache) option" where
  "copy_out E ino f off woff c =
     (case cacheReader_Read E ino 32768 off c of
        (Ok ((got, err), off), c) \<Rightarrow>
          (case (if got = [] then ((0, None), c) else on_os (file_WriteAt f got woff) c) of
             ((n, Some e), c) \<Rightarrow> Some (Err e, c)
           | ((n, None), c) \<Rightarrow>
               (case err of
                  None \<Rightarrow> copy_out E ino f off (woff + of_nat (length got)) c
                | Some e \<Rightarrow> Some (if e = ErrEOF then Ok () else Err e, c)))
      | (Err e, c) \<Rightarrow> Some (Err e, c)
      | (Panic q, c) \<Rightarrow> Some (Panic q, c))"

function copy_in ::
  "('d, 's) env \<Rightarrow> error \<Rightarrow> u64 \<Rightarrow> bytes \<Rightarrow> i64 \<Rightarrow> ('d, 's) cache \<Rightarrow> unit res \<times> ('d, 's) cache" where
  "copy_in E short ino b off c =
     (if b = [] then (Ok (), c)
      else
        (case cacheWriter_Write E ino (take 32768 b) off c of
           (Ok ((n, Some e), off), c) \<Rightarrow> (Err e, c)
         | (Ok ((n, None), off), c) \<Rightarrow>
             if n \<noteq> length (take 32768 b) then (Err short, c) else copy_in E short ino (drop 32768 b) off c
         | (Err e, c) \<Rightarrow> (Err e, c)
         | (Panic q, c) \<Rightarrow> (Panic q, c)))"
  by pat_completeness auto
termination
  by (relation "measure (\<lambda>(E, short, ino, b, off, c). length b)") auto

declare copy_in.simps [simp del]

definition copy_out_cmd ::
  "('k, 's, 'd, 'a) proglib \<Rightarrow> gostring \<Rightarrow> ('d, 's) env \<Rightarrow> u64 \<Rightarrow> fileno \<Rightarrow> (unit, ('k, 's, 'd, 'a) opened) prog" where
  "copy_out_cmd L msg E ino f pc =
     (case copy_out E ino f 0 0 (snd pc) of
        None \<Rightarrow> None
      | Some (Ok _, c) \<Rightarrow> Some (Ret (), (fst pc, c))
      | Some (Err e, c) \<Rightarrow> liftp (fail L (wraperr L msg e)) (fst pc, c)
      | Some (Panic q, c) \<Rightarrow> Some (Crash q, (fst pc, c)))"

text \<open>\<^verbatim>\<open>defer c.Close(ino)\<close>.\<close>

definition defer_Close :: "('d, 's) env \<Rightarrow> u64 \<Rightarrow> ('x, ('k, 's, 'd, 'a) opened) prog \<Rightarrow> ('x, ('k, 's, 'd, 'a) opened) prog" where
  "defer_Close E ino m pc =
     (case m pc of
        None \<Rightarrow> None
      | Some (r, pc) \<Rightarrow> (case on_cache (Close E ino) pc of (Panic q, pc) \<Rightarrow> Some (Crash q, pc) | (_, pc) \<Rightarrow> Some (r, pc)))"

definition CacheGet :: "('k, 's, 'd, 'a) proglib \<Rightarrow> 'd cachelib \<Rightarrow> ('k, 's, 'd, 'a) command" where
  "CacheGet L C = cache_command L ''cache-get'' (\<lambda>n. \<not> (1 > n \<or> 2 < n)) (\<lambda>args.
     let ipath = Arg args 0;
         opath = (if [] = Arg args 1 then path_Base ipath else Arg args 1);
         msg = ''cache-get '' @ ipath
     in with_cache L C ''cache-get'' OpenOnly (\<lambda>E.
          bindp (trycc L msg (Open E ipath)) (\<lambda>ino.
          defer_Close E ino
            (bindp (trycc L msg (on_os (os_OpenCreate opath))) (\<lambda>writer. copy_out_cmd L msg E ino writer)))))"

definition CachePut :: "('k, 's, 'd, 'a) proglib \<Rightarrow> 'd cachelib \<Rightarrow> ('k, 's, 'd, 'a) command" where
  "CachePut L C = cache_command L ''cache-put'' (\<lambda>n. \<not> (1 > n \<or> 2 < n)) (\<lambda>args.
     let (ipath, opath) = (if [] = Arg args 1 then (path_Base (Arg args 0), Arg args 0) else (Arg args 0, Arg args 1));
         msg = ''cache-put '' @ opath
     in with_cache L C ''cache-put'' OpenOnly (\<lambda>E.
          bindp (trycc L msg (on_os (openFile ipath))) (\<lambda>reader.
          bindp (trycc L msg (Open E opath)) (\<lambda>ino.
          defer_Close E ino
            (bindp (trycc L msg (Make E ino False)) (\<lambda>_.
             bindp (trycc L msg (on_os (read_file reader))) (\<lambda>b.
               trycc L msg (copy_in E (cl_ErrShortWrite C) ino b 0))))))))"

definition CachePending :: "('k, 's, 'd, 'a) proglib \<Rightarrow> 'd cachelib \<Rightarrow> ('k, 's, 'd, 'a) command" where
  "CachePending L C = cache_command L ''cache-pending'' (\<lambda>n. n = 0) (\<lambda>args.
     bindp (getp cachePath) (\<lambda>path. bindp (print (OutText (path @ '':''))) (\<lambda>_.
       with_cache L C ''cache-pending'' OpenIfExists (\<lambda>E pc.
         let (paths, c) = ListCache E (snd pc)
         in Some (Ret (), ((fst pc)\<lparr>p_out := p_out (fst pc) @ map OutText paths\<rparr>, c))))))"

text \<open>\<^verbatim>\<open>cache-reset\<close>; the lines its progress callback prints are left out, as the callback is in \<open>ResetCache\<close>.\<close>

definition CacheReset :: "('k, 's, 'd, 'a) proglib \<Rightarrow> 'd cachelib \<Rightarrow> ('k, 's, 'd, 'a) command" where
  "CacheReset L C = cache_command L ''cache-reset'' (\<lambda>n. n = 0) (\<lambda>args.
     bindp (getp cachePath) (\<lambda>path. bindp (print (OutText (path @ '':''))) (\<lambda>_.
       with_cache L C ''cache-reset'' OpenOnly (\<lambda>E pc.
         case ResetCache E (cl_wrap C) (snd pc) of
           None \<Rightarrow> None
         | Some (Ok _, c) \<Rightarrow> Some (Ret (), (fst pc, c))
         | Some (Err e, c) \<Rightarrow> liftp (fail L (wraperr L ''cache-reset'' e)) (fst pc, c)
         | Some (Panic q, c) \<Rightarrow> Some (Crash q, (fst pc, c))))))"


subsection \<open>Copying through the cache\<close>

lemma ReadAt_open:
  assumes "fmlookup (c_openmap c) ino = Some n" "File n = Some g" "file_ReadAt g len off (c_os c) = (x, w)"
  shows "ReadAt E ino len off c = (Ok x, c\<lparr>c_os := w\<rparr>)"
  using assms by (simp add: ReadAt_def with_open_def performFileIoOnNode_def node_at_def on_os_def)

lemma small_word:
  assumes "k < 2 ^ 63"
  shows "unat (of_nat k :: i64) = k" "sint (of_nat k :: i64) = int k"
proof -
  have k: "int k < 2 ^ 63"
    using assms by (metis of_nat_less_numeral_power_cancel_iff)
  then show "unat (of_nat k :: i64) = k"
    by (simp add: unat_of_nat take_bit_nat_eq_self)
  have "signed_take_bit 63 (int k) = int k"
    using k by (intro signed_take_bit_int_eq_self) simp_all
  then show "sint (of_nat k :: i64) = int k"
    by (simp add: signed_of_nat)
qed

lemma write_bytes_next:
  assumes "k \<le> length b" "chunk = take m (drop k b)"
  shows "write_bytes (take k b @ drop k old) k chunk = take (k + length chunk) b @ drop (k + length chunk) old"
proof (cases "chunk = []")
  case True
  then show ?thesis by (simp add: write_bytes_def)
next
  case False
  have len: "length (take k b) = k"
    using assms(1) by simp
  have "take (k + length chunk) b = take k b @ chunk"
    using assms(1) unfolding assms(2) by (simp add: take_add min_def)
  moreover have "drop (length chunk) (drop k old) = drop (k + length chunk) old"
    by (simp add: add.commute)
  ultimately show ?thesis
    using False len by (simp add: write_bytes_def)
qed

lemma copy_out_ends:
  assumes "fmlookup (c_openmap c) ino = Some n" "File n = Some g" "g \<noteq> f" "os_fault (c_os c) = (\<lambda>_. None)"
    and "fd_bytes (os_data (c_os c) g) = b" "length b < 2 ^ 63" "k \<le> length b"
    and "fd_bytes (os_data (c_os c) f) = take k b @ drop k old"
  shows "\<exists>c'. copy_out E ino f (of_nat k) (of_nat k) c = Some (Ok (), c') \<and>
    fd_bytes (os_data (c_os c') f) = b @ drop (length b) old \<and> c_openmap c' = c_openmap c"
  using assms
proof (induction "length b - k" arbitrary: k c rule: less_induct)
  case less
  define got where "got = take 32768 (drop k b)"
  define err where "err = (if length got < 32768 then Some ErrEOF else None)"
  have k: "k < 2 ^ 63" and k2: "k + length got \<le> length b"
    using less.prems(6,7) by (auto simp: got_def)
  have rd: "file_ReadAt g 32768 (of_nat k) (c_os c) = ((got, err), os_tick (c_os c))"
    using less.prems(4,5) small_word[OF k] by (simp add: file_ReadAt_def os_fails_def got_def err_def Let_def)
  define c1 where "c1 = c\<lparr>c_os := os_tick (c_os c)\<rparr>"
  have read: "cacheReader_Read E ino 32768 (of_nat k) c = (Ok ((got, err), of_nat (k + length got)), c1)"
    using ReadAt_open[OF less.prems(1,2) rd, of E] by (simp add: cacheReader_Read_def c1_def)
  define c2 where "c2 = (if got = [] then c1 else c1\<lparr>c_os := os_tick (set_data f (take (k + length got) b @ drop (k + length got) old) (c_os c1))\<rparr>)"
  have wr: "(if got = [] then ((0, None), c1) else on_os (file_WriteAt f got (of_nat k)) c1) = ((if got = [] then 0 else length got, None), c2)"
    using less.prems(4,8) small_word[OF k] write_bytes_next[OF less.prems(7) got_def, of old]
    by (simp add: on_os_def file_WriteAt_def c1_def c2_def os_tick_def)
  have c2: "c_openmap c2 = c_openmap c" "os_fault (c_os c2) = (\<lambda>_. None)" "fd_bytes (os_data (c_os c2) g) = b"
    "fd_bytes (os_data (c_os c2) f) = take (k + length got) b @ drop (k + length got) old"
    using less.prems(3,4,5,8) by (auto simp: c2_def c1_def os_tick_def set_data_def)
  have step: "copy_out E ino f (of_nat k) (of_nat k) c =
      (case err of None \<Rightarrow> copy_out E ino f (of_nat (k + length got)) (of_nat (k + length got)) c2
       | Some e \<Rightarrow> Some (if e = ErrEOF then Ok () else Err e, c2))"
    by (subst copy_out.simps) (simp add: read wr cong: option.case_cong)
  show ?case
  proof (cases "length got < 32768")
    case True
    then have "length b \<le> k + length got"
      by (auto simp: got_def)
    with True step c2 k2 show ?thesis
      by (simp add: err_def)
  next
    case False
    have "length b - (k + length got) < length b - k"
      using False k2 by simp
    from less.hyps[OF this] less.prems c2 k2 obtain c' where
      "copy_out E ino f (of_nat (k + length got)) (of_nat (k + length got)) c2 = Some (Ok (), c')"
      "fd_bytes (os_data (c_os c') f) = b @ drop (length b) old" "c_openmap c' = c_openmap c2"
      by metis
    with False step c2(1) show ?thesis
      by (simp add: err_def)
  qed
qed


lemma WriteAt_open:
  assumes "fmlookup (c_openmap c) ino = Some n" "File n = Some f" "WriteAt E ino buf off c = (Ok (m, None), c')"
  shows "m = length buf \<and> c_openmap c' = c_openmap c \<and>
    fd_bytes (os_data (c_os c') f) = write_bytes (fd_bytes (os_data (c_os c) f)) (unat off) buf"
  using assms
  by (auto simp: WriteAt_def with_open_def performFileIoOnNode_def node_at_def on_os_def file_WriteAt_def set_data_def os_tick_def
      touch_def time_now_def time_Now_def Let_def split: if_splits option.splits)

lemma cacheWriter_OkE:
  assumes "copy_in E short ino b off c = (Ok (), c')" "b \<noteq> []"
  obtains c1 where "WriteAt E ino (take 32768 b) off c = (Ok (length (take 32768 b), None), c1)"
    "copy_in E short ino (drop 32768 b) (off + of_nat (length (take 32768 b))) c1 = (Ok (), c')"
proof -
  obtain r c1 where w: "WriteAt E ino (take 32768 b) off c = (r, c1)"
    by (cases "WriteAt E ino (take 32768 b) off c")
  note step = assms(1)[unfolded copy_in.simps[of E short ino b off c] cacheWriter_Write_def w]
  show thesis
  proof (cases r)
    case (Ok x)
    obtain n err where x: "x = (n, err)"
      by (cases x)
    have "err = None" "n = length (take 32768 b)"
      using step assms(2) by (auto simp: Ok x split: option.splits if_splits)
    with step assms(2) w show thesis
      by (intro that[of c1]) (simp_all add: Ok x)
  qed (use step assms(2) in simp_all)
qed

lemma copy_in_open:
  assumes "copy_in E short ino (drop k b) (of_nat k) c = (Ok (), c')"
    and "fmlookup (c_openmap c) ino = Some n" "File n = Some f" "length b < 2 ^ 63" "k \<le> length b"
    and "fd_bytes (os_data (c_os c) f) = take k b @ drop k old"
  shows "c_openmap c' = c_openmap c \<and> fd_bytes (os_data (c_os c') f) = b @ drop (length b) old"
  using assms
proof (induction "length b - k" arbitrary: k c rule: less_induct)
  case less
  show ?case
  proof (cases "k = length b")
    case True
    with less.prems show ?thesis
      by (simp add: copy_in.simps)
  next
    case False
    define chunk where "chunk = take 32768 (drop k b)"
    have k: "k < 2 ^ 63" "k + length chunk \<le> length b" "chunk \<noteq> []"
      using False less.prems(4,5) by (auto simp: chunk_def)
    have ne: "drop k b \<noteq> []"
      using False less.prems(5) by simp
    obtain c1 where c1: "WriteAt E ino chunk (of_nat k) c = (Ok (length chunk, None), c1)"
      "copy_in E short ino (drop 32768 (drop k b)) (of_nat k + of_nat (length chunk)) c1 = (Ok (), c')"
      unfolding chunk_def by (rule cacheWriter_OkE[OF less.prems(1) ne])
    have "drop 32768 (drop k b) = drop (k + length chunk) b"
      by (auto simp: chunk_def min_def add.commute)
    with c1(2) have next1: "copy_in E short ino (drop (k + length chunk) b) (of_nat (k + length chunk)) c1 = (Ok (), c')"
      by simp
    have data: "c_openmap c1 = c_openmap c"
      "fd_bytes (os_data (c_os c1) f) = take (k + length chunk) b @ drop (k + length chunk) old"
      using WriteAt_open[OF less.prems(2,3) c1(1)] less.prems(6) small_word[OF k(1)]
        write_bytes_next[OF less.prems(5) chunk_def, of old] by simp_all
    have "length b - (k + length chunk) < length b - k"
      using k by (cases chunk) auto
    from less.hyps[OF this next1 _ less.prems(3,4) k(2) data(2)] less.prems(2) data(1) show ?thesis
      by simp
  qed
qed

lemma copy_in_data:
  assumes "copy_in E short ino b 0 c = (Ok (), c')" "open_inv (c_openmap c)" "b \<noteq> []" "length b < 2 ^ 63"
  obtains n f old where "fmlookup (c_openmap c') ino = Some n" "File n = Some f"
    "fd_bytes (os_data (c_os c') f) = b @ drop (length b) old"
proof -
  let ?k = "length (take 32768 b)"
  obtain c1 where c1: "WriteAt E ino (take 32768 b) 0 c = (Ok (?k, None), c1)"
    "copy_in E short ino (drop 32768 b) (of_nat ?k) c1 = (Ok (), c')"
    using cacheWriter_OkE[OF assms(1,3)] by auto
  obtain f old where f: "File (node_at c1 ino) = Some f" "fmlookup (c_openmap c1) ino \<noteq> None"
    "fd_bytes (os_data (c_os c1) f) = write_bytes old (unat (0 :: i64)) (take 32768 b)"
    by (rule WriteAt_data[OF assms(2) c1(1)])
  obtain n where n: "fmlookup (c_openmap c1) ino = Some n" "File n = Some f"
    using f(1,2) by (auto simp: node_at_def)
  have "fd_bytes (os_data (c_os c1) f) = take ?k b @ drop ?k old"
    using f(3) by (simp add: write_bytes_0 min_def)
  moreover have "drop 32768 b = drop ?k b" "?k \<le> length b"
    by (auto simp: min_def)
  ultimately have "c_openmap c' = c_openmap c1 \<and> fd_bytes (os_data (c_os c') f) = b @ drop (length b) old"
    using c1(2) n assms(4) by (intro copy_in_open) auto
  with n that show thesis by metis
qed

subsection \<open>Properties\<close>

text \<open>
  C37. Copying through the cache is faithful: when \<^verbatim>\<open>cache-put\<close> has copied a file that is not empty into an open
  inode in pieces of 32 KB, then the copying of \<^verbatim>\<open>cache-get\<close> out of this inode ends without an error, as long as the
  operating system does not fail any more, and leaves the whole content of the inode, which starts with the bytes put
  in, at the start of the local file.  The local file is not the one in which the cache keeps the inode, and no file has
  2^63 bytes or more.  (Putting an empty file does not open the local file of the inode, so that the copying out
  has to fetch the object and can end with an error of the storage.)
\<close>

theorem cache_copy_roundtrip:
  assumes "copy_in E short ino b 0 c = (Ok (), c1)" "open_inv (c_openmap c)" "b \<noteq> []" "length b < 2 ^ 63"
    and "os_fault (c_os c1) = (\<lambda>_. None)" "File (node_at c1 ino) \<noteq> Some f"
    and "\<And>g. length (fd_bytes (os_data (c_os c1) g)) < 2 ^ 63"
  shows "\<exists>rest c2. copy_out E ino f 0 0 c1 = Some (Ok (), c2) \<and>
    fd_bytes (os_data (c_os c2) f) = (b @ rest) @ drop (length (b @ rest)) (fd_bytes (os_data (c_os c1) f))"
proof -
  obtain n g old where g: "fmlookup (c_openmap c1) ino = Some n" "File n = Some g"
    "fd_bytes (os_data (c_os c1) g) = b @ drop (length b) old"
    by (rule copy_in_data[OF assms(1-4)])
  have "g \<noteq> f"
    using assms(6) g by (auto simp: node_at_def)
  from copy_out_ends[OF g(1,2) this assms(5) g(3) _ le0, of "fd_bytes (os_data (c_os c1) f)" E] assms(7)[of g] g(3)
  show ?thesis by fastforce
qed

theorem cache_copy_roundtrip_witness:
  "\<exists>c1 rest c2. copy_in demo_env (ExtErr 9) 7 ''new'' 0 demo_cache = (Ok (), c1) \<and> copy_out demo_env 7 5 0 0 c1 = Some (Ok (), c2) \<and>
     fd_bytes (os_data (c_os c2) 5) = (''new'' @ rest) @ drop (length (''new'' @ rest)) (fd_bytes (os_data (c_os c1) 5))"
proof -
  let ?c = "snd (WriteAt demo_env 7 ''new'' 0 demo_cache)"
  have w: "fst (WriteAt demo_env 7 ''new'' 0 demo_cache) = Ok (3, None)"
    by (simp add: WriteAt_def with_open_def performFileIoOnNode_def node_at_def on_os_def file_WriteAt_def demo_os_def Let_def)
  then have ci: "copy_in demo_env (ExtErr 9) 7 ''new'' 0 demo_cache = (Ok (), ?c)"
    by (cases "WriteAt demo_env 7 ''new'' 0 demo_cache")
      (simp add: copy_in.simps[of _ _ _ "''new''"] copy_in.simps[of _ _ _ "[]"] cacheWriter_Write_def)
  have os: "os_fault (c_os ?c) = (\<lambda>_. None)" "File (node_at ?c 7) \<noteq> Some 5" "length (fd_bytes (os_data (c_os ?c) g)) < 2 ^ 63" for g
    by (simp_all add: WriteAt_def with_open_def performFileIoOnNode_def node_at_def on_os_def file_WriteAt_def demo_os_def
        touch_def time_now_def time_Now_def os_tick_def set_data_def write_bytes_def Let_def)
  have "\<exists>rest c2. copy_out demo_env 7 5 0 0 ?c = Some (Ok (), c2) \<and>
      fd_bytes (os_data (c_os c2) 5) = (''new'' @ rest) @ drop (length (''new'' @ rest)) (fd_bytes (os_data (c_os ?c) 5))"
    by (rule cache_copy_roundtrip[OF ci demo_open_inv _ _ os]) simp_all
  with ci show ?thesis by blast
qed

end
