(* ===== verification/MountFs.thy ===== *)
theory MountFs
  imports ObjFs Registry
begin

text \<open>
  Mounting: \<^verbatim>\<open>src/fs/mount.go\<close>, the tracing file system of \<^verbatim>\<open>src/fs/tracefs.go\<close>, and the factory of
  \<^verbatim>\<open>src/fs/objfs/objfs.go\<close>.

  \<^verbatim>\<open>fuse.FileSystemInterface\<close> is a record with one method per field, over a state \<open>'w\<close>; an output parameter is a part of
  the result (\<^const>\<open>None\<close> when the method leaves it alone).  \<^verbatim>\<open>Readdir\<close> and \<^verbatim>\<open>Listxattr\<close> take a callback over a state \<open>'f\<close> of the caller.
  \<open>objfs_fs\<close> is the value of type \<^verbatim>\<open>*objfs\<close>: the methods of \<open>ObjFs\<close>, and those of the embedded \<^verbatim>\<open>fuse.FileSystemBase\<close> for the rest, which is
  the parameter \<open>base\<close>.

  Parameters are also: the user and the group of the caller of a method (\<open>ctx\<close>, \<^verbatim>\<open>fuse.Getcontext\<close>), what \<^verbatim>\<open>trace.Trace\<close> of golib
  does with an event (\<open>tr\<close>), the text of an error code (\<open>fe\<close>, \<^verbatim>\<open>fuse.Error\<close>), and the FUSE host, which serves a file system with two
  capabilities at a mountpoint until it is unmounted.
\<close>

subsection \<open>Definitions\<close>

type_synonym 'f filler = "gostring \<Rightarrow> Stat_t option \<Rightarrow> i64 \<Rightarrow> 'f \<Rightarrow> bool \<times> 'f"

record ('f, 'w) FileSystemInterface =
  fi_Init :: "'w \<Rightarrow> (unit, 'w) reply"
  fi_Destroy :: "'w \<Rightarrow> (unit, 'w) reply"
  fi_Statfs :: "gostring \<Rightarrow> 'w \<Rightarrow> (int \<times> Statfs_t option, 'w) reply"
  fi_Mknod :: "gostring \<Rightarrow> u32 \<Rightarrow> u64 \<Rightarrow> 'w \<Rightarrow> (int, 'w) reply"
  fi_Mkdir :: "gostring \<Rightarrow> u32 \<Rightarrow> 'w \<Rightarrow> (int, 'w) reply"
  fi_Unlink :: "gostring \<Rightarrow> 'w \<Rightarrow> (int, 'w) reply"
  fi_Rmdir :: "gostring \<Rightarrow> 'w \<Rightarrow> (int, 'w) reply"
  fi_Link :: "gostring \<Rightarrow> gostring \<Rightarrow> 'w \<Rightarrow> (int, 'w) reply"
  fi_Symlink :: "gostring \<Rightarrow> gostring \<Rightarrow> 'w \<Rightarrow> (int, 'w) reply"
  fi_Readlink :: "gostring \<Rightarrow> 'w \<Rightarrow> (int \<times> gostring, 'w) reply"
  fi_Rename :: "gostring \<Rightarrow> gostring \<Rightarrow> 'w \<Rightarrow> (int, 'w) reply"
  fi_Chmod :: "gostring \<Rightarrow> u32 \<Rightarrow> 'w \<Rightarrow> (int, 'w) reply"
  fi_Chown :: "gostring \<Rightarrow> u32 \<Rightarrow> u32 \<Rightarrow> 'w \<Rightarrow> (int, 'w) reply"
  fi_Utimens :: "gostring \<Rightarrow> (i64 \<times> i64) list \<Rightarrow> 'w \<Rightarrow> (int, 'w) reply"
  fi_Access :: "gostring \<Rightarrow> u32 \<Rightarrow> 'w \<Rightarrow> (int, 'w) reply"
  fi_Create :: "gostring \<Rightarrow> int \<Rightarrow> u32 \<Rightarrow> 'w \<Rightarrow> (int \<times> u64, 'w) reply"
  fi_Open :: "gostring \<Rightarrow> int \<Rightarrow> 'w \<Rightarrow> (int \<times> u64, 'w) reply"
  fi_Getattr :: "gostring \<Rightarrow> u64 \<Rightarrow> 'w \<Rightarrow> (int \<times> Stat_t option, 'w) reply"
  fi_Truncate :: "gostring \<Rightarrow> i64 \<Rightarrow> u64 \<Rightarrow> 'w \<Rightarrow> (int, 'w) reply"
  fi_Read :: "gostring \<Rightarrow> nat \<Rightarrow> i64 \<Rightarrow> u64 \<Rightarrow> 'w \<Rightarrow> (int \<times> bytes, 'w) reply"
  fi_Write :: "gostring \<Rightarrow> bytes \<Rightarrow> i64 \<Rightarrow> u64 \<Rightarrow> 'w \<Rightarrow> (int, 'w) reply"
  fi_Flush :: "gostring \<Rightarrow> u64 \<Rightarrow> 'w \<Rightarrow> (int, 'w) reply"
  fi_Release :: "gostring \<Rightarrow> u64 \<Rightarrow> 'w \<Rightarrow> (int, 'w) reply"
  fi_Fsync :: "gostring \<Rightarrow> bool \<Rightarrow> u64 \<Rightarrow> 'w \<Rightarrow> (int, 'w) reply"
  fi_Opendir :: "gostring \<Rightarrow> 'w \<Rightarrow> (int \<times> u64, 'w) reply"
  fi_Readdir :: "gostring \<Rightarrow> 'f filler \<Rightarrow> i64 \<Rightarrow> u64 \<Rightarrow> 'f \<Rightarrow> 'w \<Rightarrow> (int \<times> 'f, 'w) reply"
  fi_Releasedir :: "gostring \<Rightarrow> u64 \<Rightarrow> 'w \<Rightarrow> (int, 'w) reply"
  fi_Fsyncdir :: "gostring \<Rightarrow> bool \<Rightarrow> u64 \<Rightarrow> 'w \<Rightarrow> (int, 'w) reply"
  fi_Setxattr :: "gostring \<Rightarrow> gostring \<Rightarrow> bytes \<Rightarrow> int \<Rightarrow> 'w \<Rightarrow> (int, 'w) reply"
  fi_Getxattr :: "gostring \<Rightarrow> gostring \<Rightarrow> 'w \<Rightarrow> (int \<times> bytes, 'w) reply"
  fi_Removexattr :: "gostring \<Rightarrow> gostring \<Rightarrow> 'w \<Rightarrow> (int, 'w) reply"
  fi_Listxattr :: "gostring \<Rightarrow> (gostring \<Rightarrow> 'f \<Rightarrow> bool \<times> 'f) \<Rightarrow> 'f \<Rightarrow> 'w \<Rightarrow> (int \<times> 'f, 'w) reply"

text \<open>
  What is shown of a call.  The results are read when the deferred call runs, so that after a panic they are still zero,
  and an error code of zero is shown as success.
\<close>

datatype fval =
    VStr gostring | VInt int | VBytes bytes | VBool bool | VTimes "(i64 \<times> i64) list"
  | VStatfs "Statfs_t option" | VStat "Stat_t option" | VErrc gostring

datatype fsev = FEnter u32 u32 gostring "fval list" | FLeave gostring "fval list"

definition traceErrc_GoString :: "(int \<Rightarrow> gostring) \<Rightarrow> int \<Rightarrow> gostring" where
  "traceErrc_GoString fe ec =
     (if 0 = ec then ''{{bold green}}OK{{off}}'' else ''{{bold red}}'' @ fe ec @ ''{{off}}'')"

definition trace_errc :: "(int \<Rightarrow> gostring) \<Rightarrow> int res \<Rightarrow> fval list" where
  "trace_errc fe r = [VErrc (traceErrc_GoString fe (case r of Ok ec \<Rightarrow> ec | _ \<Rightarrow> 0))]"

definition trace_out :: "(int \<Rightarrow> gostring) \<Rightarrow> ('x \<Rightarrow> fval) \<Rightarrow> 'x \<Rightarrow> (int \<times> 'x) res \<Rightarrow> fval list" where
  "trace_out fe val zero r = trace_errc fe (map_res fst r) @ [val (case r of Ok (_, x) \<Rightarrow> x | _ \<Rightarrow> zero)]"

definition trace_n :: "int res \<Rightarrow> fval list" where
  "trace_n r = [VInt (case r of Ok n \<Rightarrow> n | _ \<Rightarrow> 0)]"

definition traceFuse ::
  "('w \<Rightarrow> u32 \<times> u32) \<Rightarrow> (fsev \<Rightarrow> 'w \<Rightarrow> 'w) \<Rightarrow> gostring \<Rightarrow> fval list \<Rightarrow> ('x res \<Rightarrow> fval list) \<Rightarrow> ('w \<Rightarrow> ('x, 'w) reply) \<Rightarrow> 'w \<Rightarrow> ('x, 'w) reply" where
  "traceFuse ctx tr name vals results f w =
     (let (uid, gid) = ctx w
      in map_option (\<lambda>(r, w). (r, tr (FLeave name (results r)) w)) (f (tr (FEnter uid gid name vals) w)))"

definition TraceFs ::
  "('w \<Rightarrow> u32 \<times> u32) \<Rightarrow> (fsev \<Rightarrow> 'w \<Rightarrow> 'w) \<Rightarrow> (int \<Rightarrow> gostring) \<Rightarrow> ('f, 'w) FileSystemInterface \<Rightarrow> ('f, 'w) FileSystemInterface" where
  "TraceFs ctx tr fe I =
     \<lparr>fi_Init = traceFuse ctx tr ''Init'' [] (\<lambda>_. []) (fi_Init I),
      fi_Destroy = traceFuse ctx tr ''Destroy'' [] (\<lambda>_. []) (fi_Destroy I),
      fi_Statfs = (\<lambda>path. traceFuse ctx tr ''Statfs'' [VStr path] (trace_out fe VStatfs None) (fi_Statfs I path)),
      fi_Mknod = (\<lambda>path mode dev. traceFuse ctx tr ''Mknod'' [VStr path, VInt (uint mode), VInt (uint dev)]
        (trace_errc fe) (fi_Mknod I path mode dev)),
      fi_Mkdir = (\<lambda>path mode. traceFuse ctx tr ''Mkdir'' [VStr path, VInt (uint mode)]
        (trace_errc fe) (fi_Mkdir I path mode)),
      fi_Unlink = (\<lambda>path. traceFuse ctx tr ''Unlink'' [VStr path] (trace_errc fe) (fi_Unlink I path)),
      fi_Rmdir = (\<lambda>path. traceFuse ctx tr ''Rmdir'' [VStr path] (trace_errc fe) (fi_Rmdir I path)),
      fi_Link = (\<lambda>oldpath newpath. traceFuse ctx tr ''Link'' [VStr oldpath, VStr newpath]
        (trace_errc fe) (fi_Link I oldpath newpath)),
      fi_Symlink = (\<lambda>target newpath. traceFuse ctx tr ''Symlink'' [VStr target, VStr newpath]
        (trace_errc fe) (fi_Symlink I target newpath)),
      fi_Readlink = (\<lambda>path. traceFuse ctx tr ''Readlink'' [VStr path] (trace_out fe VStr []) (fi_Readlink I path)),
      fi_Rename = (\<lambda>oldpath newpath. traceFuse ctx tr ''Rename'' [VStr oldpath, VStr newpath]
        (trace_errc fe) (fi_Rename I oldpath newpath)),
      fi_Chmod = (\<lambda>path mode. traceFuse ctx tr ''Chmod'' [VStr path, VInt (uint mode)]
        (trace_errc fe) (fi_Chmod I path mode)),
      fi_Chown = (\<lambda>path uid gid. traceFuse ctx tr ''Chown'' [VStr path, VInt (uint uid), VInt (uint gid)]
        (trace_errc fe) (fi_Chown I path uid gid)),
      fi_Utimens = (\<lambda>path tmsp. traceFuse ctx tr ''Utimens'' [VStr path, VTimes tmsp]
        (trace_errc fe) (fi_Utimens I path tmsp)),
      fi_Access = (\<lambda>path amask. traceFuse ctx tr ''Access'' [VStr path, VInt (uint amask)]
        (trace_errc fe) (fi_Access I path amask)),
      fi_Create = (\<lambda>path flags mode. traceFuse ctx tr ''Create'' [VStr path, VInt flags, VInt (uint mode)]
        (trace_out fe (\<lambda>fh. VInt (uint fh)) 0) (fi_Create I path flags mode)),
      fi_Open = (\<lambda>path flags. traceFuse ctx tr ''Open'' [VStr path, VInt flags]
        (trace_out fe (\<lambda>fh. VInt (uint fh)) 0) (fi_Open I path flags)),
      fi_Getattr = (\<lambda>path fh. traceFuse ctx tr ''Getattr'' [VStr path, VInt (uint fh)]
        (trace_out fe VStat None) (fi_Getattr I path fh)),
      fi_Truncate = (\<lambda>path sz fh. traceFuse ctx tr ''Truncate'' [VStr path, VInt (sint sz), VInt (uint fh)]
        (trace_errc fe) (fi_Truncate I path sz fh)),
      fi_Read = (\<lambda>path len ofst fh. traceFuse ctx tr ''Read'' [VStr path, VInt (sint ofst), VInt (uint fh)]
        (trace_n \<circ> map_res fst) (fi_Read I path len ofst fh)),
      fi_Write = (\<lambda>path buff ofst fh. traceFuse ctx tr ''Write'' [VStr path, VInt (sint ofst), VInt (uint fh)]
        trace_n (fi_Write I path buff ofst fh)),
      fi_Flush = (\<lambda>path fh. traceFuse ctx tr ''Flush'' [VStr path, VInt (uint fh)] (trace_errc fe) (fi_Flush I path fh)),
      fi_Release = (\<lambda>path fh. traceFuse ctx tr ''Release'' [VStr path, VInt (uint fh)]
        (trace_errc fe) (fi_Release I path fh)),
      fi_Fsync = (\<lambda>path datasync fh. traceFuse ctx tr ''Fsync'' [VStr path, VBool datasync, VInt (uint fh)]
        (trace_errc fe) (fi_Fsync I path datasync fh)),
      fi_Opendir = (\<lambda>path. traceFuse ctx tr ''Opendir'' [VStr path]
        (trace_out fe (\<lambda>fh. VInt (uint fh)) 0) (fi_Opendir I path)),
      fi_Readdir = (\<lambda>path fill ofst fh f. traceFuse ctx tr ''Readdir'' [VStr path, VInt (sint ofst), VInt (uint fh)]
        (trace_errc fe \<circ> map_res fst) (fi_Readdir I path fill ofst fh f)),
      fi_Releasedir = (\<lambda>path fh. traceFuse ctx tr ''Releasedir'' [VStr path, VInt (uint fh)]
        (trace_errc fe) (fi_Releasedir I path fh)),
      fi_Fsyncdir = (\<lambda>path datasync fh. traceFuse ctx tr ''Fsyncdir'' [VStr path, VBool datasync, VInt (uint fh)]
        (trace_errc fe) (fi_Fsyncdir I path datasync fh)),
      fi_Setxattr = (\<lambda>path name value flags. traceFuse ctx tr ''Setxattr'' [VStr path, VStr name, VBytes value, VInt flags]
        (trace_errc fe) (fi_Setxattr I path name value flags)),
      fi_Getxattr = (\<lambda>path name. traceFuse ctx tr ''Getxattr'' [VStr path, VStr name]
        (trace_out fe VBytes []) (fi_Getxattr I path name)),
      fi_Removexattr = (\<lambda>path name. traceFuse ctx tr ''Removexattr'' [VStr path, VStr name]
        (trace_errc fe) (fi_Removexattr I path name)),
      fi_Listxattr = (\<lambda>path xfill f. traceFuse ctx tr ''Listxattr'' [VStr path]
        (trace_errc fe \<circ> map_res fst) (fi_Listxattr I path xfill f))\<rparr>"

text \<open>The value of type \<^verbatim>\<open>*objfs\<close> as an interface.\<close>

definition objfs_fs ::
  "fuse \<Rightarrow> ('d, 's) env \<Rightarrow> ('f, ('d, 's) cache) FileSystemInterface \<Rightarrow> ('f, ('d, 's) cache) FileSystemInterface" where
  "objfs_fs F E base =
     base
       \<lparr>fi_Statfs := (\<lambda>path. fs_Statfs F E),
        fi_Mkdir := (\<lambda>path mode. fs_Mkdir F E path),
        fi_Unlink := fs_Unlink F E,
        fi_Rmdir := fs_Rmdir F E,
        fi_Rename := fs_Rename F E,
        fi_Utimens := (\<lambda>path tmsp. fs_Utimens F),
        fi_Create := (\<lambda>path flags mode. fs_Create F E path),
        fi_Open := (\<lambda>path flags. fs_Open F E path),
        fi_Getattr := fs_Getattr F E,
        fi_Truncate := fs_Truncate F E,
        fi_Read := (\<lambda>path. fs_Read F E),
        fi_Write := (\<lambda>path. fs_Write F E),
        fi_Release := (\<lambda>path. fs_Release F E),
        fi_Fsync := (\<lambda>path datasync. fs_Fsync F E),
        fi_Opendir := fs_Opendir F E,
        fi_Readdir := (\<lambda>path fill ofst. fs_Readdir F E path (\<lambda>name stat. fill name stat 0)),
        fi_Releasedir := (\<lambda>path. fs_Releasedir F E),
        fi_Setxattr := (\<lambda>path name value flags. fs_Xattr F),
        fi_Getxattr := (\<lambda>path name c. map_option (map_prod (map_res (\<lambda>rc. (rc, []))) id) (fs_Xattr F c)),
        fi_Removexattr := (\<lambda>path name. fs_Xattr F),
        fi_Listxattr := (\<lambda>path xfill f c. map_option (map_prod (map_res (\<lambda>rc. (rc, f))) id) (fs_Xattr F c))\<rparr>"

text \<open>
  What a value of type \<^verbatim>\<open>interface{}\<close> offers to \<^verbatim>\<open>Mount\<close>: whether it is a file system, and whether it tells if names are
  case insensitive.  The cache that a file system holds is the state its methods work on.
\<close>

record ('f, 'w) fsobject =
  as_FileSystemInterface :: "('f, 'w) FileSystemInterface option"
  as_FileSystemCaseInsensitive :: "('w \<Rightarrow> bool res \<times> 'w) option"

datatype newarg = ArgCache | ArgOther

definition objfs_New ::
  "newerr \<Rightarrow> fuse \<Rightarrow> ('d, 's) env \<Rightarrow> ('f, ('d, 's) cache) FileSystemInterface \<Rightarrow>
     (newarg list, ('f, ('d, 's) cache) fsobject, ('d, 's) cache) ObjectFactory" where
  "objfs_New newerr F E base args c =
     (if ArgCache \<notin> set args then (Err (newerr '': missing cache'' None (Some EINVAL)), c)
      else (Ok \<lparr>as_FileSystemInterface = Some (objfs_fs F E base), as_FileSystemCaseInsensitive = Some (fs_IsCaseInsensitive E)\<rparr>, c))"

definition fs_Registry ::
  "newerr \<Rightarrow> fuse \<Rightarrow> ('d, 's) env \<Rightarrow> ('f, ('d, 's) cache) FileSystemInterface \<Rightarrow>
     (newarg list, ('f, ('d, 's) cache) fsobject, ('d, 's) cache) ObjectFactory ObjectFactoryRegistry" where
  "fs_Registry newerr F E base = RegisterFactory ''objfs'' (objfs_New newerr F E base) NewObjectFactoryRegistry"

record ('f, 'w) fusehost =
  fh_CapCaseInsensitive :: bool
  fh_CapReaddirPlus :: bool
  fh_fsif :: "('f, 'w) FileSystemInterface"

type_synonym ('f, 'w) host_Mount = "('f, 'w) fusehost \<Rightarrow> gostring \<Rightarrow> gostring list \<Rightarrow> 'w \<Rightarrow> (bool \<times> 'w) option"

definition Mount ::
  "newerr \<Rightarrow> bool \<Rightarrow> (('f, 'w) FileSystemInterface \<Rightarrow> ('f, 'w) FileSystemInterface) \<Rightarrow> ('f, 'w) host_Mount \<Rightarrow> ('f, 'w) fsobject \<Rightarrow>
     gostring \<Rightarrow> gostring list \<Rightarrow> 'w \<Rightarrow> (unit, 'w) reply" where
  "Mount newerr verbose tracefs host_Mount fsys mountpoint opts w =
     (case as_FileSystemInterface fsys of
        None \<Rightarrow> Some (Err (newerr '': invalid argument'' None (Some EINVAL)), w)
      | Some fsif \<Rightarrow>
          (case (case as_FileSystemCaseInsensitive fsys of None \<Rightarrow> (Ok False, w) | Some i \<Rightarrow> i w) of
             (Err e, w) \<Rightarrow> Some (Err e, w)
           | (Panic q, w) \<Rightarrow> Some (Panic q, w)
           | (Ok cins, w) \<Rightarrow>
               (let fsif = (if verbose then tracefs fsif else fsif);
                    host = \<lparr>fh_CapCaseInsensitive = cins, fh_CapReaddirPlus = True, fh_fsif = fsif\<rparr>
                in case host_Mount host mountpoint opts w of
                     None \<Rightarrow> None
                   | Some (False, w) \<Rightarrow> Some (Err (newerr '': mount failed'' None (Some EINVAL)), w)
                   | Some (True, w) \<Rightarrow> Some (Ok (), w))))"

subsection \<open>Sequences of calls\<close>

text \<open>The calls that a FUSE host makes, their results, and a sequence of calls up to the first that panics.\<close>

datatype 'f fscall =
    FInit | FDestroy | FStatfs gostring | FMknod gostring u32 u64 | FMkdir gostring u32 | FUnlink gostring
   | FRmdir gostring | FLink gostring gostring | FSymlink gostring gostring | FReadlink gostring
   | FRename gostring gostring | FChmod gostring u32 | FChown gostring u32 u32
   | FUtimens gostring "(i64 \<times> i64) list" | FAccess gostring u32 | FCreate gostring int u32 | FOpen gostring int
   | FGetattr gostring u64 | FTruncate gostring i64 u64 | FRead gostring nat i64 u64 | FWrite gostring bytes i64 u64
   | FFlush gostring u64 | FRelease gostring u64 | FFsync gostring bool u64 | FOpendir gostring
   | FReaddir gostring "'f filler" i64 u64 "'f" | FReleasedir gostring u64 | FFsyncdir gostring bool u64
   | FSetxattr gostring gostring bytes int | FGetxattr gostring gostring | FRemovexattr gostring gostring
   | FListxattr gostring "(gostring \<Rightarrow> 'f \<Rightarrow> bool \<times> 'f)" "'f"

datatype 'f fsret =
    RNone unit | RErrc int | RStatfs "int \<times> Statfs_t option" | RStat "int \<times> Stat_t option" | RData "int \<times> bytes"
  | RHandle "int \<times> u64" | RFill "int \<times> 'f"

definition ret_map :: "('x \<Rightarrow> 'y) \<Rightarrow> ('x, 'w) reply \<Rightarrow> ('y, 'w) reply" where
  "ret_map f = map_option (map_prod (map_res f) id)"

fun fs_exec :: "('f, 'w) FileSystemInterface \<Rightarrow> 'f fscall \<Rightarrow> 'w \<Rightarrow> ('f fsret, 'w) reply" where
  "fs_exec I FInit w = ret_map RNone (fi_Init I w)"
| "fs_exec I FDestroy w = ret_map RNone (fi_Destroy I w)"
| "fs_exec I (FStatfs path) w = ret_map RStatfs (fi_Statfs I path w)"
| "fs_exec I (FMknod path mode dev) w = ret_map RErrc (fi_Mknod I path mode dev w)"
| "fs_exec I (FMkdir path mode) w = ret_map RErrc (fi_Mkdir I path mode w)"
| "fs_exec I (FUnlink path) w = ret_map RErrc (fi_Unlink I path w)"
| "fs_exec I (FRmdir path) w = ret_map RErrc (fi_Rmdir I path w)"
| "fs_exec I (FLink oldpath newpath) w = ret_map RErrc (fi_Link I oldpath newpath w)"
| "fs_exec I (FSymlink target newpath) w = ret_map RErrc (fi_Symlink I target newpath w)"
| "fs_exec I (FReadlink path) w = ret_map RData (fi_Readlink I path w)"
| "fs_exec I (FRename oldpath newpath) w = ret_map RErrc (fi_Rename I oldpath newpath w)"
| "fs_exec I (FChmod path mode) w = ret_map RErrc (fi_Chmod I path mode w)"
| "fs_exec I (FChown path uid gid) w = ret_map RErrc (fi_Chown I path uid gid w)"
| "fs_exec I (FUtimens path tmsp) w = ret_map RErrc (fi_Utimens I path tmsp w)"
| "fs_exec I (FAccess path amask) w = ret_map RErrc (fi_Access I path amask w)"
| "fs_exec I (FCreate path flags mode) w = ret_map RHandle (fi_Create I path flags mode w)"
| "fs_exec I (FOpen path flags) w = ret_map RHandle (fi_Open I path flags w)"
| "fs_exec I (FGetattr path fh) w = ret_map RStat (fi_Getattr I path fh w)"
| "fs_exec I (FTruncate path sz fh) w = ret_map RErrc (fi_Truncate I path sz fh w)"
| "fs_exec I (FRead path len ofst fh) w = ret_map RData (fi_Read I path len ofst fh w)"
| "fs_exec I (FWrite path buff ofst fh) w = ret_map RErrc (fi_Write I path buff ofst fh w)"
| "fs_exec I (FFlush path fh) w = ret_map RErrc (fi_Flush I path fh w)"
| "fs_exec I (FRelease path fh) w = ret_map RErrc (fi_Release I path fh w)"
| "fs_exec I (FFsync path datasync fh) w = ret_map RErrc (fi_Fsync I path datasync fh w)"
| "fs_exec I (FOpendir path) w = ret_map RHandle (fi_Opendir I path w)"
| "fs_exec I (FReaddir path fill ofst fh f) w = ret_map RFill (fi_Readdir I path fill ofst fh f w)"
| "fs_exec I (FReleasedir path fh) w = ret_map RErrc (fi_Releasedir I path fh w)"
| "fs_exec I (FFsyncdir path datasync fh) w = ret_map RErrc (fi_Fsyncdir I path datasync fh w)"
| "fs_exec I (FSetxattr path name value flags) w = ret_map RErrc (fi_Setxattr I path name value flags w)"
| "fs_exec I (FGetxattr path name) w = ret_map RData (fi_Getxattr I path name w)"
| "fs_exec I (FRemovexattr path name) w = ret_map RErrc (fi_Removexattr I path name w)"
| "fs_exec I (FListxattr path xfill f) w = ret_map RFill (fi_Listxattr I path xfill f w)"

fun fs_run :: "('f, 'w) FileSystemInterface \<Rightarrow> 'f fscall list \<Rightarrow> 'w \<Rightarrow> ('f fsret res list \<times> 'w) option" where
  "fs_run I [] w = Some ([], w)"
| "fs_run I (c # cs) w =
     (case fs_exec I c w of
        None \<Rightarrow> None
      | Some (Panic q, w) \<Rightarrow> Some ([Panic q], w)
      | Some (r, w) \<Rightarrow> map_option (\<lambda>(rs, w). (r # rs, w)) (fs_run I cs w))"

text \<open>
  \<open>seen obs\<close> is what remains of a reply when of its state only \<open>obs\<close> can be seen; \<open>blind_fs obs I\<close>: the file system does not
  depend on what \<open>obs\<close> does not see.
\<close>

definition seen :: "('w \<Rightarrow> 'b) \<Rightarrow> ('x \<times> 'w) option \<Rightarrow> ('x \<times> 'b) option" where
  "seen obs = map_option (map_prod id obs)"

definition blind_fs :: "('w \<Rightarrow> 'b) \<Rightarrow> ('f, 'w) FileSystemInterface \<Rightarrow> bool" where
  "blind_fs obs I \<longleftrightarrow> (\<forall>c w w'. obs w = obs w' \<longrightarrow> seen obs (fs_exec I c w) = seen obs (fs_exec I c w'))"

text \<open>A file system whose state stands beside another value, which it does not touch.\<close>

definition beside_fs :: "('c \<Rightarrow> ('x, 'c) reply) \<Rightarrow> 'c \<times> 'l \<Rightarrow> ('x, 'c \<times> 'l) reply" where
  "beside_fs f w = map_option (\<lambda>(r, c). (r, (c, snd w))) (f (fst w))"

definition log_fs :: "('f, 'c) FileSystemInterface \<Rightarrow> ('f, 'c \<times> 'l) FileSystemInterface" where
  "log_fs I =
     \<lparr>fi_Init = (beside_fs (fi_Init I)),
      fi_Destroy = (beside_fs (fi_Destroy I)),
      fi_Statfs = (\<lambda>path. beside_fs (fi_Statfs I path)),
      fi_Mknod = (\<lambda>path mode dev. beside_fs (fi_Mknod I path mode dev)),
      fi_Mkdir = (\<lambda>path mode. beside_fs (fi_Mkdir I path mode)),
      fi_Unlink = (\<lambda>path. beside_fs (fi_Unlink I path)),
      fi_Rmdir = (\<lambda>path. beside_fs (fi_Rmdir I path)),
      fi_Link = (\<lambda>oldpath newpath. beside_fs (fi_Link I oldpath newpath)),
      fi_Symlink = (\<lambda>target newpath. beside_fs (fi_Symlink I target newpath)),
      fi_Readlink = (\<lambda>path. beside_fs (fi_Readlink I path)),
      fi_Rename = (\<lambda>oldpath newpath. beside_fs (fi_Rename I oldpath newpath)),
      fi_Chmod = (\<lambda>path mode. beside_fs (fi_Chmod I path mode)),
      fi_Chown = (\<lambda>path uid gid. beside_fs (fi_Chown I path uid gid)),
      fi_Utimens = (\<lambda>path tmsp. beside_fs (fi_Utimens I path tmsp)),
      fi_Access = (\<lambda>path amask. beside_fs (fi_Access I path amask)),
      fi_Create = (\<lambda>path flags mode. beside_fs (fi_Create I path flags mode)),
      fi_Open = (\<lambda>path flags. beside_fs (fi_Open I path flags)),
      fi_Getattr = (\<lambda>path fh. beside_fs (fi_Getattr I path fh)),
      fi_Truncate = (\<lambda>path sz fh. beside_fs (fi_Truncate I path sz fh)),
      fi_Read = (\<lambda>path len ofst fh. beside_fs (fi_Read I path len ofst fh)),
      fi_Write = (\<lambda>path buff ofst fh. beside_fs (fi_Write I path buff ofst fh)),
      fi_Flush = (\<lambda>path fh. beside_fs (fi_Flush I path fh)),
      fi_Release = (\<lambda>path fh. beside_fs (fi_Release I path fh)),
      fi_Fsync = (\<lambda>path datasync fh. beside_fs (fi_Fsync I path datasync fh)),
      fi_Opendir = (\<lambda>path. beside_fs (fi_Opendir I path)),
      fi_Readdir = (\<lambda>path fill ofst fh f. beside_fs (fi_Readdir I path fill ofst fh f)),
      fi_Releasedir = (\<lambda>path fh. beside_fs (fi_Releasedir I path fh)),
      fi_Fsyncdir = (\<lambda>path datasync fh. beside_fs (fi_Fsyncdir I path datasync fh)),
      fi_Setxattr = (\<lambda>path name value flags. beside_fs (fi_Setxattr I path name value flags)),
      fi_Getxattr = (\<lambda>path name. beside_fs (fi_Getxattr I path name)),
      fi_Removexattr = (\<lambda>path name. beside_fs (fi_Removexattr I path name)),
      fi_Listxattr = (\<lambda>path xfill f. beside_fs (fi_Listxattr I path xfill f))\<rparr>"

subsection \<open>Tracing a file system\<close>

lemma traceFuse_seen:
  assumes "\<And>e w. obs (tr e w) = obs w"
  shows "\<exists>w1. obs w1 = obs w \<and> seen obs (ret_map K (traceFuse ctx tr name vals results f w)) = seen obs (ret_map K (f w1))"
  using assms
  by (intro exI[of _ "tr (FEnter (fst (ctx w)) (snd (ctx w)) name vals) w"])
    (auto simp: traceFuse_def seen_def ret_map_def option.map_comp comp_def case_prod_beta map_prod_def intro!: option.map_cong)

lemma TraceFs_exec:
  assumes "\<And>e w. obs (tr e w) = obs w"
  shows "\<exists>w1. obs w1 = obs w \<and> seen obs (fs_exec (TraceFs ctx tr fe I) c w) = seen obs (fs_exec I c w1)"
  by (cases c) (simp_all only: fs_exec.simps TraceFs_def FileSystemInterface.simps traceFuse_seen[of obs tr, OF assms])

lemma seen_cases:
  assumes "seen obs x = seen obs y"
  obtains "x = None" "y = None" | r w w' where "x = Some (r, w)" "y = Some (r, w')" "obs w = obs w'"
  using assms by (cases x; cases y) (auto simp: seen_def)

text \<open>
  C38. Mounting with the flag \<^verbatim>\<open>-v\<close> changes nothing but what is printed: every sequence of calls of the methods of a file
  system gives the same results through \<^verbatim>\<open>TraceFs\<close>, ends at the same call when one panics or does not return, and leaves the same state
  but for the trace.
\<close>

theorem tracefs_transparent:
  assumes "\<And>e w. obs (tr e w) = obs w" and "blind_fs obs I" and "obs w = obs w'"
  shows "seen obs (fs_run (TraceFs ctx tr fe I) cs w) = seen obs (fs_run I cs w')"
  using assms(3)
proof (induction cs arbitrary: w w')
  case (Cons c cs)
  obtain w1 where "obs w1 = obs w" "seen obs (fs_exec (TraceFs ctx tr fe I) c w) = seen obs (fs_exec I c w1)"
    using TraceFs_exec[of obs tr, OF assms(1)] by blast
  with assms(2) Cons.prems have "seen obs (fs_exec (TraceFs ctx tr fe I) c w) = seen obs (fs_exec I c w')"
    unfolding blind_fs_def by metis
  then show ?case
  proof (cases rule: seen_cases)
    case (2 r v v')
    from Cons.IH[OF 2(3)] have "map_option (\<lambda>x. (r # fst x, obs (snd x))) (fs_run (TraceFs ctx tr fe I) cs v) =
        map_option (\<lambda>x. (r # fst x, obs (snd x))) (fs_run I cs v')"
      by (cases rule: seen_cases) auto
    with 2 show ?thesis
      by (cases r) (simp_all add: seen_def option.map_comp comp_def case_prod_beta map_prod_def)
  qed (simp add: seen_def)
qed (simp add: seen_def)

lemma beside_fs_seen:
  assumes "fst w = fst w'"
  shows "seen fst (ret_map K (beside_fs f w)) = seen fst (ret_map K (beside_fs f w'))"
  using assms by (simp add: beside_fs_def seen_def ret_map_def option.map_comp comp_def case_prod_beta map_prod_def)

lemma log_fs_exec:
  assumes "fst w = fst w'"
  shows "seen fst (fs_exec (log_fs I) c w) = seen fst (fs_exec (log_fs I) c w')"
  by (cases c) (simp_all only: fs_exec.simps log_fs_def FileSystemInterface.simps beside_fs_seen[OF assms])

lemma log_fs_blind: "blind_fs fst (log_fs I)"
  unfolding blind_fs_def by (intro allI impI log_fs_exec)

text \<open>A base whose methods all return the code of \<^verbatim>\<open>ENOSYS\<close>.\<close>

definition demo_base :: "('f, 'w) FileSystemInterface" where
  "demo_base =
     \<lparr>fi_Init = (\<lambda>w. Some (Ok (), w)),
      fi_Destroy = (\<lambda>w. Some (Ok (), w)),
      fi_Statfs = (\<lambda>_ w. Some (Ok (- 78, None), w)),
      fi_Mknod = (\<lambda>_ _ _ w. Some (Ok (- 78), w)),
      fi_Mkdir = (\<lambda>_ _ w. Some (Ok (- 78), w)),
      fi_Unlink = (\<lambda>_ w. Some (Ok (- 78), w)),
      fi_Rmdir = (\<lambda>_ w. Some (Ok (- 78), w)),
      fi_Link = (\<lambda>_ _ w. Some (Ok (- 78), w)),
      fi_Symlink = (\<lambda>_ _ w. Some (Ok (- 78), w)),
      fi_Readlink = (\<lambda>_ w. Some (Ok (- 78, []), w)),
      fi_Rename = (\<lambda>_ _ w. Some (Ok (- 78), w)),
      fi_Chmod = (\<lambda>_ _ w. Some (Ok (- 78), w)),
      fi_Chown = (\<lambda>_ _ _ w. Some (Ok (- 78), w)),
      fi_Utimens = (\<lambda>_ _ w. Some (Ok (- 78), w)),
      fi_Access = (\<lambda>_ _ w. Some (Ok (- 78), w)),
      fi_Create = (\<lambda>_ _ _ w. Some (Ok (- 78, no_handle), w)),
      fi_Open = (\<lambda>_ _ w. Some (Ok (- 78, no_handle), w)),
      fi_Getattr = (\<lambda>_ _ w. Some (Ok (- 78, None), w)),
      fi_Truncate = (\<lambda>_ _ _ w. Some (Ok (- 78), w)),
      fi_Read = (\<lambda>_ _ _ _ w. Some (Ok (- 78, []), w)),
      fi_Write = (\<lambda>_ _ _ _ w. Some (Ok (- 78), w)),
      fi_Flush = (\<lambda>_ _ w. Some (Ok (- 78), w)),
      fi_Release = (\<lambda>_ _ w. Some (Ok (- 78), w)),
      fi_Fsync = (\<lambda>_ _ _ w. Some (Ok (- 78), w)),
      fi_Opendir = (\<lambda>_ w. Some (Ok (- 78, no_handle), w)),
      fi_Readdir = (\<lambda>_ _ _ _ f w. Some (Ok (- 78, f), w)),
      fi_Releasedir = (\<lambda>_ _ w. Some (Ok (- 78), w)),
      fi_Fsyncdir = (\<lambda>_ _ _ w. Some (Ok (- 78), w)),
      fi_Setxattr = (\<lambda>_ _ _ _ w. Some (Ok (- 78), w)),
      fi_Getxattr = (\<lambda>_ _ w. Some (Ok (- 78, []), w)),
      fi_Removexattr = (\<lambda>_ _ w. Some (Ok (- 78), w)),
      fi_Listxattr = (\<lambda>_ _ f w. Some (Ok (- 78, f), w))\<rparr>"

text \<open>The file system of the repository on the cache of the witnesses, beside the list of what was printed.\<close>

theorem tracefs_transparent_witness:
  "let I = log_fs (objfs_fs demo_fuse demo_env (demo_base :: (unit, _) FileSystemInterface)); tr = (\<lambda>e w. (fst w, snd w @ [e]));
       cs = [FOpen ''/a/b'' 0, FWrite ''/a/b'' ''new'' 0 7, FRelease ''/a/b'' 7]
   in seen fst (fs_run (TraceFs (\<lambda>_. (0, 0)) tr (\<lambda>_. ''error'') I) cs (demo_cache, [])) = seen fst (fs_run I cs (demo_cache, []))"
  unfolding Let_def by (rule tracefs_transparent[OF _ log_fs_blind]) simp_all

end
