(* ===== verification/Shell.thy ===== *)
theory Shell
  imports CacheCommands MountFs
begin

text \<open>
  The program as a whole: the commands \<^verbatim>\<open>version\<close>, \<^verbatim>\<open>mount\<close> and \<^verbatim>\<open>shell\<close> of \<^verbatim>\<open>src/commands.go\<close>, the tables of commands of
  \<^verbatim>\<open>src/commands.go\<close> and \<^verbatim>\<open>src/cache_commands.go\<close>, and \<^verbatim>\<open>main\<close> of \<^verbatim>\<open>src/objfs.go\<close>.

  While a file system is mounted, the FUSE host calls its methods on the cache that the command has opened; the host, the
  embedded base of the file system and the trace are in the parameter \<open>mountlib\<close>.  The goroutine that uploads and evicts while the cache is
  active is not run here: \<open>Interleave\<close> has its steps between those of the methods.

  The lines that the user types in the shell are a list, each a line or the error that \<^verbatim>\<open>GetLine\<close> returns; when the list is at
  its end the shell waits for ever (\<^const>\<open>None\<close>).  \<open>split\<close> is the splitting of a line by \<^verbatim>\<open>shlex\<close> of golib.  The history of the line editor
  is the list of the lines added to it.  The name of a command is the first word of its usage text.
\<close>

subsection \<open>Definitions\<close>

text \<open>\<^verbatim>\<open>version\<close>.  The variables of the product can be set by the linker; \<open>v_Sscan\<close> and \<open>v_Sprint\<close> scan and print a number.\<close>

record versionlib =
  MyProductName :: gostring
  MyDescription :: gostring
  MyCopyright :: gostring
  MyRepository :: gostring
  MyVersion :: gostring
  defaultStorageName :: gostring
  v_Year :: int
  v_Sscan :: "gostring \<Rightarrow> int"
  v_Sprint :: "int \<Rightarrow> gostring"

fun Replace1 :: "gostring \<Rightarrow> gostring \<Rightarrow> gostring \<Rightarrow> gostring" where
  "Replace1 old new [] = (if old = [] then new else [])"
| "Replace1 old new (x # xs) =
     (if take (length old) (x # xs) = old then new @ drop (length old) (x # xs) else x # Replace1 old new xs)"

definition version_copyright :: "versionlib \<Rightarrow> gostring" where
  "version_copyright V =
     (let curryear = v_Year V; scanyear = v_Sscan V (MyCopyright V)
      in if curryear \<noteq> scanyear
         then Replace1 (v_Sprint V scanyear) (v_Sprint V scanyear @ ''-'' @ v_Sprint V curryear) (MyCopyright V)
         else MyCopyright V)"

definition Version_cmd ::
  "('k, 's, 'd, 'a) proglib \<Rightarrow> (((gostring \<times> 'a creds, 's storage, 'k world) ObjectFactory) ObjectFactoryRegistry \<Rightarrow> gostring list) \<Rightarrow>
     versionlib \<Rightarrow> ('k, 's, 'd, 'a) command" where
  "Version_cmd L rangekeys V args =
     bindp (parse L ''version'' args) (\<lambda>(fl, args).
       if length args \<noteq> 0 then usage ''version''
       else
         bindp (print (OutText (MyProductName V @ '' - '' @ MyDescription V @ ''; version '' @ MyVersion V))) (\<lambda>_.
         bindp (print (OutText (''copyright '' @ version_copyright V))) (\<lambda>_.
         bindp (if MyRepository V \<noteq> [] then print (OutText (MyRepository V)) else retp ()) (\<lambda>_.
         bindp (print (OutText [])) (\<lambda>_.
         bindp (print (OutText ''supported storages:'')) (\<lambda>_.
           Version_storages L rangekeys (defaultStorageName V)))))))"

text \<open>\<^verbatim>\<open>mount\<close>.\<close>

record ('f, 'k, 's, 'd, 'a) mountlib =
  m_fuse :: fuse
  m_base :: "('f, ('d, 's) cache) FileSystemInterface"
  m_Getcontext :: "('d, 's) cache \<times> ('k, 's, 'd, 'a) program \<Rightarrow> u32 \<times> u32"
  m_Trace :: "fsev \<Rightarrow> ('k, 's, 'd, 'a) program \<Rightarrow> ('k, 's, 'd, 'a) program"
  m_Error :: "int \<Rightarrow> gostring"
  m_host :: "('f, ('d, 's) cache \<times> ('k, 's, 'd, 'a) program) host_Mount"

definition log_object :: "('f, 'c) fsobject \<Rightarrow> ('f, 'c \<times> 'l) fsobject" where
  "log_object obj =
     \<lparr>as_FileSystemInterface = map_option log_fs (as_FileSystemInterface obj),
      as_FileSystemCaseInsensitive =
        map_option (\<lambda>i w. let (r, c) = i (fst w) in (r, (c, snd w))) (as_FileSystemCaseInsensitive obj)\<rparr>"

definition mount_object ::
  "('k, 's, 'd, 'a) proglib \<Rightarrow> ('f, 'k, 's, 'd, 'a) mountlib \<Rightarrow> ('f, ('d, 's) cache) fsobject \<Rightarrow> gostring \<Rightarrow> gostring list \<Rightarrow>
     (unit, ('k, 's, 'd, 'a) opened) prog" where
  "mount_object L M fsys mountpoint opts pc =
     (case Mount (errors_New L) (trace_Verbose L) (TraceFs (m_Getcontext M) (\<lambda>e w. (fst w, m_Trace M e (snd w))) (m_Error M))
             (m_host M) (log_object fsys) mountpoint opts (snd pc, fst pc) of
        None \<Rightarrow> None
      | Some (Err e, (c, p)) \<Rightarrow> liftp (fail L (wraperr L ''mount'' e)) (p, c)
      | Some (Panic q, (c, p)) \<Rightarrow> Some (Crash q, (p, c))
      | Some (Ok _, (c, p)) \<Rightarrow> Some (Ret (), (p, c)))"

definition Mount_cmd ::
  "('k, 's, 'd, 'a) proglib \<Rightarrow> 'd cachelib \<Rightarrow> ('f, 'k, 's, 'd, 'a) mountlib \<Rightarrow> ('k, 's, 'd, 'a) command" where
  "Mount_cmd L C M args =
     bindp (needvar L [V_storage, V_cachePath]) (\<lambda>_. bindp (parse L ''mount'' args) (\<lambda>(fl, args).
       let mountpoint = Arg args 0; opts = map (\<lambda>s. ''-o'' @ s) (flag_o fl)
       in if [] = mountpoint then usage ''mount''
          else
            with_cache L C ''mount'' Activate (\<lambda>E.
              bindp (trycc L ''mount''
                (NewObject (errors_New L) ''objfs'' [ArgCache] (fs_Registry (errors_New L) (m_fuse M) E (m_base M)))) (\<lambda>fsys.
                mount_object L M fsys mountpoint opts))))"

text \<open>The tables of commands; those of \<^verbatim>\<open>src/cache_commands.go\<close> exist in a debug build only.\<close>

definition initCommands ::
  "('k, 's, 'd, 'a) proglib \<Rightarrow> 'd cachelib \<Rightarrow> ('f, 'k, 's, 'd, 'a) mountlib \<Rightarrow>
     (((gostring \<times> 'a creds, 's storage, 'k world) ObjectFactory) ObjectFactoryRegistry \<Rightarrow> gostring list) \<Rightarrow> versionlib \<Rightarrow> ('k, 's, 'd, 'a) cmdmap" where
  "initCommands L C M rangekeys V =
     [''version'' \<mapsto> Version_cmd L rangekeys V,
      ''config'' \<mapsto> Config_cmd L,
      ''keyring'' \<mapsto> Keyring_cmd L,
      ''auth'' \<mapsto> Auth_cmd L,
      ''mount'' \<mapsto> Mount_cmd L C M,
      ''statfs'' \<mapsto> Statfs_cmd L,
      ''ls'' \<mapsto> Ls_cmd L,
      ''stat'' \<mapsto> Stat_cmd L,
      ''mkdir'' \<mapsto> Mkdir_cmd L,
      ''rmdir'' \<mapsto> Rmdir_cmd L,
      ''rm'' \<mapsto> Rm_cmd L,
      ''mv'' \<mapsto> Mv_cmd L,
      ''get'' \<mapsto> Get_cmd L,
      ''put'' \<mapsto> Put_cmd L,
      ''cache-pending'' \<mapsto> CachePending L C,
      ''cache-reset'' \<mapsto> CacheReset L C]"

definition initCacheCommands :: "('k, 's, 'd, 'a) proglib \<Rightarrow> 'd cachelib \<Rightarrow> ('k, 's, 'd, 'a) cmdmap" where
  "initCacheCommands L C =
     [''cache-statfs'' \<mapsto> CacheStatfs L C,
      ''cache-ls'' \<mapsto> CacheLs L C,
      ''cache-stat'' \<mapsto> CacheStat L C,
      ''cache-mkdir'' \<mapsto> CacheMkdir L C,
      ''cache-rmdir'' \<mapsto> CacheRmdir L C,
      ''cache-rm'' \<mapsto> CacheRm L C,
      ''cache-mv'' \<mapsto> CacheMv L C,
      ''cache-get'' \<mapsto> CacheGet L C,
      ''cache-put'' \<mapsto> CachePut L C]"

definition shellCommands ::
  "bool \<Rightarrow> ('k, 's, 'd, 'a) proglib \<Rightarrow> 'd cachelib \<Rightarrow> ('f, 'k, 's, 'd, 'a) mountlib \<Rightarrow>
     (((gostring \<times> 'a creds, 's storage, 'k world) ObjectFactory) ObjectFactoryRegistry \<Rightarrow> gostring list) \<Rightarrow> versionlib \<Rightarrow> ('k, 's, 'd, 'a) cmdmap" where
  "shellCommands debug L C M rangekeys V =
     (if debug then initCommands L C M rangekeys V ++ initCacheCommands L C else initCommands L C M rangekeys V)"

text \<open>The loop of the shell, over the history and the program.\<close>

fun shell_loop ::
  "('k, 's, 'd, 'a) proglib \<Rightarrow> ('k, 's, 'd, 'a) cmdmap \<Rightarrow> (gostring \<Rightarrow> gostring list) \<Rightarrow> gostring res list \<Rightarrow>
     (unit, gostring list \<times> ('k, 's, 'd, 'a) program) prog" where
  "shell_loop L cmds split [] hp = None"
| "shell_loop L cmds split (Panic q # lines) hp = Some (Crash q, hp)"
| "shell_loop L cmds split (Err e # lines) hp =
     map_option (\<lambda>(r, p). (r, (fst hp, p)))
       ((if ErrEOF = e then print (OutText ''QUIT'') else fail L e) (snd hp))"
| "shell_loop L cmds split (Ok line # lines) hp =
     (if split line = [] then shell_loop L cmds split lines hp
      else
        (case run L cmds (split line) (snd hp) of
           None \<Rightarrow> None
         | Some (ec, p) \<Rightarrow> shell_loop L cmds split lines (if 2 \<noteq> ec then fst hp @ [line] else fst hp, p)))"

definition Shell_cmd ::
  "('k, 's, 'd, 'a) proglib \<Rightarrow> ('k, 's, 'd, 'a) cmdmap \<Rightarrow> bool \<Rightarrow> (gostring \<Rightarrow> gostring list) \<Rightarrow> gostring res list \<Rightarrow> ('k, 's, 'd, 'a) command" where
  "Shell_cmd L cmds windows split lines args =
     bindp (print (OutText (''Type \"help\" for help. Type '' @ (if windows then ''^Z'' else ''^D'') @ '' to quit.''))) (\<lambda>_ p.
       map_option (\<lambda>(r, hp). (r, snd hp)) (shell_loop L cmds split lines ([], p)))"

definition main_prog ::
  "bool \<Rightarrow> ('k, 's, 'd, 'a) proglib \<Rightarrow> 'd cachelib \<Rightarrow> ('f, 'k, 's, 'd, 'a) mountlib \<Rightarrow>
     (((gostring \<times> 'a creds, 's storage, 'k world) ObjectFactory) ObjectFactoryRegistry \<Rightarrow> gostring list) \<Rightarrow> versionlib \<Rightarrow>
     bool \<Rightarrow> (gostring \<Rightarrow> gostring list) \<Rightarrow> gostring res list \<Rightarrow> gostring list \<Rightarrow> ('k, 's, 'd, 'a) program \<Rightarrow>
     (int \<times> ('k, 's, 'd, 'a) program) option" where
  "main_prog debug L C M rangekeys V windows split lines args p =
     (let cmds = shellCommands debug L C M rangekeys V
      in run L (cmds(''shell'' \<mapsto> Shell_cmd L cmds windows split lines)) args p)"

subsection \<open>The shell\<close>

text \<open>The commands of the lines one after the other, with their exit codes.\<close>

fun run_lines ::
  "('k, 's, 'd, 'a) proglib \<Rightarrow> ('k, 's, 'd, 'a) cmdmap \<Rightarrow> (gostring \<Rightarrow> gostring list) \<Rightarrow> gostring list \<Rightarrow> ('k, 's, 'd, 'a) program \<Rightarrow>
     ((gostring \<times> int) list \<times> ('k, 's, 'd, 'a) program) option" where
  "run_lines L cmds split [] p = Some ([], p)"
| "run_lines L cmds split (line # lines) p =
     (if split line = [] then run_lines L cmds split lines p
      else
        (case run L cmds (split line) p of
           None \<Rightarrow> None
         | Some (ec, p) \<Rightarrow> map_option (\<lambda>(codes, p). ((line, ec) # codes, p)) (run_lines L cmds split lines p)))"

lemma shell_loop_lines:
  assumes "run_lines L cmds split lines p = Some (codes, p')"
  shows "shell_loop L cmds split (map Ok lines @ rest) (h, p) =
    shell_loop L cmds split rest (h @ map fst (filter (\<lambda>(line, ec). ec \<noteq> 2) codes), p')"
  using assms
proof (induction lines arbitrary: h p codes)
  case (Cons line lines)
  show ?case
  proof (cases "split line = []")
    case False
    with Cons.prems obtain ec p1 codes1 where "run L cmds (split line) p = Some (ec, p1)"
      "run_lines L cmds split lines p1 = Some (codes1, p')" "codes = (line, ec) # codes1"
      by (auto split: option.splits)
    with False Cons.IH show ?thesis by simp
  qed (use Cons in simp)
qed simp

text \<open>
  C39. The shell outlives its commands: whatever the exit codes of the commands typed, each runs on what the ones before it have left,
  and the end of the input ends the shell regularly.  Exactly the lines that were not rejected with the code 2 are added
  to the history.
\<close>

theorem shell_survives:
  assumes "run_lines L cmds split lines (p\<lparr>p_out := p_out p @ [OutText msg]\<rparr>) = Some (codes, p')"
    and "msg = ''Type \"help\" for help. Type '' @ (if windows then ''^Z'' else ''^D'') @ '' to quit.''"
  shows "Shell_cmd L cmds windows split (map Ok lines @ Err ErrEOF # rest) args p =
      Some (Ret (), p'\<lparr>p_out := p_out p' @ [OutText ''QUIT'']\<rparr>) \<and>
    shell_loop L cmds split (map Ok lines @ Err ErrEOF # rest) ([], p\<lparr>p_out := p_out p @ [OutText msg]\<rparr>) =
      Some (Ret (), (map fst (filter (\<lambda>(line, ec). ec \<noteq> 2) codes), p'\<lparr>p_out := p_out p' @ [OutText ''QUIT'']\<rparr>))"
  using shell_loop_lines[OF assms(1), of "Err ErrEOF # rest" "[]"] assms(2)
  by (simp_all add: Shell_cmd_def print_def)

lemma demo_rm: "Rm_cmd demo_lib [] (put_prog\<lparr>p_out := es\<rparr>) = Some (Ret (), put_prog\<lparr>p_out := es\<rparr>)"
proof -
  have "storage (put_prog\<lparr>p_out := es\<rparr>) = Some mem_storage" "needvarOnce (put_prog\<lparr>p_out := es\<rparr>)"
    by simp_all
  from storage_command_run[OF this demo_parse] show ?thesis
    by (simp add: Rm_cmd_def bindp_def exit_failed_def)
qed

theorem shell_survives_witness:
  "let msg = OutText ''Type \"help\" for help. Type ^D to quit.'' in
   Shell_cmd demo_lib [''rm'' \<mapsto> Rm_cmd demo_lib] False (\<lambda>s. [s]) (map Ok [''nosuch'', ''rm''] @ [Err ErrEOF]) [] (put_prog\<lparr>p_out := []\<rparr>) =
     Some (Ret (), put_prog\<lparr>p_out := [msg, OutUsage [], OutText ''QUIT'']\<rparr>) \<and>
   shell_loop demo_lib [''rm'' \<mapsto> Rm_cmd demo_lib] (\<lambda>s. [s]) (map Ok [''nosuch'', ''rm''] @ [Err ErrEOF]) ([], put_prog\<lparr>p_out := [msg]\<rparr>) =
     Some (Ret (), ([''rm''], put_prog\<lparr>p_out := [msg, OutUsage [], OutText ''QUIT'']\<rparr>))"
proof -
  let ?msg = "''Type \"help\" for help. Type ^D to quit.''" and ?cmds = "[''rm'' \<mapsto> Rm_cmd demo_lib]"
  have "run demo_lib ?cmds [''nosuch''] (put_prog\<lparr>p_out := [OutText ?msg]\<rparr>) = Some (2, put_prog\<lparr>p_out := [OutText ?msg, OutUsage []]\<rparr>)"
    "run demo_lib ?cmds [''rm''] (put_prog\<lparr>p_out := [OutText ?msg, OutUsage []]\<rparr>) = Some (0, put_prog\<lparr>p_out := [OutText ?msg, OutUsage []]\<rparr>)"
    by (simp_all add: run_def dispatch_def parse_def bindp_def print_def Arg_def demo_rm)
  then have "run_lines demo_lib ?cmds (\<lambda>s. [s]) [''nosuch'', ''rm''] ((put_prog\<lparr>p_out := []\<rparr>)\<lparr>p_out := p_out (put_prog\<lparr>p_out := []\<rparr>) @ [OutText ?msg]\<rparr>) =
      Some ([(''nosuch'', 2), (''rm'', 0)], put_prog\<lparr>p_out := [OutText ?msg, OutUsage []]\<rparr>)"
    by simp
  from shell_survives[OF this, of False "[]" "[]"] show ?thesis
    by (simp add: Let_def)
qed

end
