(* ===== verification/HttpRetry.thy ===== *)
theory HttpRetry
  imports Errno
begin

text \<open>
  The HTTP helpers of \<^verbatim>\<open>src/httputil/httputil.go\<close>: \<^verbatim>\<open>Retry\<close>, \<^verbatim>\<open>AllowRedirect\<close> and \<^verbatim>\<open>CheckRedirect\<close>.

  The errors that \<^verbatim>\<open>Retry\<close> tells apart are those of the packages \<^verbatim>\<open>net/url\<close> and \<^verbatim>\<open>net\<close>, each with the fields
  the code reads; every other dynamic type is \<open>OtherError\<close>.  The body and the function \<^verbatim>\<open>do\<close> act on an
  arbitrary world.  The package \<^verbatim>\<open>retry\<close> of golib is the parameter \<open>retry\<close>, a function of the action;
  \<open>retry_ok\<close> is its documented behaviour: the action is run for 0, 1, 2 and so on until it returns
  false, at most a fixed number of times, and at least once.  A result \<^const>\<open>None\<close> is a call that does
  not return.
\<close>

subsection \<open>Definitions\<close>

datatype httperr =
    UrlError "httperr option"
  | OpError gostring "httperr option"
  | DNSError bool
  | OtherError nat

record response =
  rsp_StatusCode :: int
  rsp_id :: nat

record 'w http =
  h_rsp :: "response option"
  h_err :: "httperr option"
  h_world :: 'w

type_synonym ('w, 'a) action = "nat \<Rightarrow> 'w http \<Rightarrow> ('a res \<times> 'w http) option"

text \<open>
  The loop that looks for an error of dialling or of the name service.  The switch of the code has no
  default: an error of another type is looked at again and again.
\<close>

partial_function (option) dial_error :: "httperr option \<Rightarrow> bool option" where
  "dial_error e =
     (case e of
        None \<Rightarrow> Some False
      | Some t \<Rightarrow>
          (case t of
             UrlError e' \<Rightarrow> dial_error e'
           | OpError op e' \<Rightarrow> if ''dial'' = op then Some True else dial_error e'
           | DNSError temporary \<Rightarrow> if temporary then Some True else dial_error None
           | OtherError n \<Rightarrow> dial_error (Some t)))"

text \<open>
  One attempt.  The error of \<^verbatim>\<open>Seek\<close> is a variable of its own block, so it reaches neither \<^verbatim>\<open>err\<close> nor \<^verbatim>\<open>rsp\<close>.
  \<open>busy\<close> are the status codes that are tried again, after the body of the response was closed.
\<close>

definition busy :: "int \<Rightarrow> bool" where
  "busy code \<longleftrightarrow> 429 = code \<or> 503 = code \<or> 509 = code"

definition do_request ::
  "(response \<Rightarrow> 'w \<Rightarrow> 'w) \<Rightarrow> bool \<Rightarrow> ('w \<Rightarrow> (response option \<times> httperr option) \<times> 'w) \<Rightarrow> ('w, bool) action" where
  "do_request body_Close has_body dofn i s =
     (let ((rsp, err), w) = dofn (h_world s);
          s = \<lparr>h_rsp = rsp, h_err = err, h_world = w\<rparr>
      in case err of
           Some e \<Rightarrow>
             if \<not> has_body then Some (Ok True, s)
             else map_option (\<lambda>again. (Ok again, s)) (dial_error (Some e))
         | None \<Rightarrow>
             (case rsp of
                None \<Rightarrow> Some (Panic PanicRuntime, s)
              | Some r \<Rightarrow>
                  if busy (rsp_StatusCode r) then Some (Ok True, s\<lparr>h_world := body_Close r w\<rparr>)
                  else Some (Ok False, s)))"

definition attempt ::
  "(response \<Rightarrow> 'w \<Rightarrow> 'w) \<Rightarrow> ('w \<Rightarrow> error option \<times> 'w) option \<Rightarrow>
     ('w \<Rightarrow> (response option \<times> httperr option) \<times> 'w) \<Rightarrow> ('w, bool) action" where
  "attempt body_Close body dofn i s =
     (case body of
        None \<Rightarrow> do_request body_Close False dofn i s
      | Some seek \<Rightarrow>
          (case seek (h_world s) of
             (Some _, w) \<Rightarrow> Some (Ok False, s\<lparr>h_world := w\<rparr>)
           | (None, w) \<Rightarrow> do_request body_Close True dofn i (s\<lparr>h_world := w\<rparr>)))"

definition Retry ::
  "(('w, bool) action \<Rightarrow> 'w http \<Rightarrow> (unit res \<times> 'w http) option) \<Rightarrow> (response \<Rightarrow> 'w \<Rightarrow> 'w) \<Rightarrow>
     ('w \<Rightarrow> error option \<times> 'w) option \<Rightarrow> ('w \<Rightarrow> (response option \<times> httperr option) \<times> 'w) \<Rightarrow> 'w \<Rightarrow>
     ((response option \<times> httperr option) res \<times> 'w) option" where
  "Retry retry body_Close body dofn w =
     (case retry (attempt body_Close body dofn) \<lparr>h_rsp = None, h_err = None, h_world = w\<rparr> of
        None \<Rightarrow> None
      | Some (Ok _, s) \<Rightarrow> Some (Ok (h_rsp s, h_err s), h_world s)
      | Some (Err e, s) \<Rightarrow> Some (Err e, h_world s)
      | Some (Panic q, s) \<Rightarrow> Some (Panic q, h_world s))"

text \<open>The documented behaviour of \<^verbatim>\<open>retry.Retry\<close> with \<^verbatim>\<open>retry.Count\<close>, for a limit of \<open>n\<close> attempts.\<close>

fun attempts :: "nat \<Rightarrow> nat \<Rightarrow> ('w, bool) action \<Rightarrow> 'w http \<Rightarrow> (unit res \<times> 'w http) option" where
  "attempts 0 i act s = Some (Ok (), s)"
| "attempts (Suc n) i act s =
     (case act i s of
        None \<Rightarrow> None
      | Some (Ok again, s) \<Rightarrow> if again then attempts n (Suc i) act s else Some (Ok (), s)
      | Some (Err e, s) \<Rightarrow> Some (Err e, s)
      | Some (Panic q, s) \<Rightarrow> Some (Panic q, s))"

definition retry_ok :: "nat \<Rightarrow> (('w, bool) action \<Rightarrow> 'w http \<Rightarrow> (unit res \<times> 'w http) option) \<Rightarrow> bool" where
  "retry_ok n retry \<longleftrightarrow> 0 < n \<and> (\<forall>act s. retry act s = attempts n 0 act s)"

text \<open>
  Redirects.  The map remembers the requests that must not be redirected; a request is known by its
  address.  \<^verbatim>\<open>via\<close> is never empty when the package \<^verbatim>\<open>http\<close> calls \<^verbatim>\<open>CheckRedirect\<close>, but reading its first element
  when it is panics.
\<close>

datatype redirerr = StoppedAfter10 | ErrUseLastResponse

type_synonym redirMap = "(addr, redirerr) fmap"

definition AllowRedirect :: "addr \<Rightarrow> bool \<Rightarrow> redirMap \<Rightarrow> redirMap" where
  "AllowRedirect req allow m = (if allow then fmdrop req m else fmupd req ErrUseLastResponse m)"

definition CheckRedirect :: "addr list \<Rightarrow> redirMap \<Rightarrow> redirerr option res" where
  "CheckRedirect via m =
     (if 10 \<le> length via then Ok (Some StoppedAfter10)
      else (case via of [] \<Rightarrow> Panic PanicRuntime | r # _ \<Rightarrow> Ok (fmlookup m r)))"

text \<open>
  \<open>other_first\<close>: following the errors inside an error, one of another type comes before anything that
  ends the search.
\<close>

function other_first :: "httperr option \<Rightarrow> bool" where
  "other_first None = False"
| "other_first (Some (UrlError e)) = other_first e"
| "other_first (Some (OpError op e)) = (''dial'' \<noteq> op \<and> other_first e)"
| "other_first (Some (DNSError t)) = False"
| "other_first (Some (OtherError n)) = True"
  by pat_completeness auto
termination
  by (relation "measure (case_option 0 size)") (auto split: option.splits)

text \<open>
  The requests of a call of \<^verbatim>\<open>Retry\<close> whose body can be rewound: \<open>request\<close> is what one of them returns,
  \<open>request_world\<close> the world after it.
\<close>

definition rewind :: "('w \<Rightarrow> error option \<times> 'w) option \<Rightarrow> 'w \<Rightarrow> 'w" where
  "rewind body w = (case body of None \<Rightarrow> w | Some seek \<Rightarrow> snd (seek w))"

definition request ::
  "('w \<Rightarrow> error option \<times> 'w) option \<Rightarrow> ('w \<Rightarrow> (response option \<times> httperr option) \<times> 'w) \<Rightarrow> 'w \<Rightarrow>
     response option \<times> httperr option" where
  "request body dofn w = fst (dofn (rewind body w))"

definition request_world ::
  "(response \<Rightarrow> 'w \<Rightarrow> 'w) \<Rightarrow> ('w \<Rightarrow> error option \<times> 'w) option \<Rightarrow>
     ('w \<Rightarrow> (response option \<times> httperr option) \<times> 'w) \<Rightarrow> 'w \<Rightarrow> 'w" where
  "request_world body_Close body dofn w =
     (let w' = snd (dofn (rewind body w))
      in case request body dofn w of
           (Some r, None) \<Rightarrow> if busy (rsp_StatusCode r) then body_Close r w' else w'
         | _ \<Rightarrow> w')"

definition retryable :: "bool \<Rightarrow> response option \<times> httperr option \<Rightarrow> bool" where
  "retryable has_body r \<longleftrightarrow>
     (case r of
        (_, Some e) \<Rightarrow> has_body \<longrightarrow> dial_error (Some e) = Some True
      | (Some rsp, None) \<Rightarrow> busy (rsp_StatusCode rsp)
      | (None, None) \<Rightarrow> False)"

subsection \<open>The search for an error of dialling\<close>

lemma dial_error_simps [simp]:
  "dial_error None = Some False"
  "dial_error (Some (UrlError e)) = dial_error e"
  "dial_error (Some (OpError op e)) = (if ''dial'' = op then Some True else dial_error e)"
  "dial_error (Some (DNSError t)) = Some t"
  by (simp_all add: dial_error.simps)

lemma dial_error_returns:
  assumes "dial_error e = Some b"
  shows "\<not> other_first e"
proof (rule dial_error.raw_induct[of "\<lambda>e b. \<not> other_first e", OF _ assms])
  fix f e b
  assume "\<And>e b. f e = Some b \<Longrightarrow> \<not> other_first e"
    and "(case e of
       None \<Rightarrow> Some False
     | Some t \<Rightarrow>
         (case t of
            UrlError e' \<Rightarrow> f e'
          | OpError op e' \<Rightarrow> if ''dial'' = op then Some True else f e'
          | DNSError temporary \<Rightarrow> if temporary then Some True else f None
          | OtherError n \<Rightarrow> f (Some t))) = Some b"
  then show "\<not> other_first e"
    by (cases e) (auto split: httperr.splits if_splits dest: meta_spec[of _ e])
qed

lemma dial_error_None_iff: "dial_error e = None \<longleftrightarrow> other_first e"
proof
  show "dial_error e = None \<Longrightarrow> other_first e"
    by (induction e rule: other_first.induct) (auto split: if_splits)
  show "other_first e \<Longrightarrow> dial_error e = None"
    using dial_error_returns by fastforce
qed


subsection \<open>The attempts\<close>

lemma attempt_request:
  assumes "\<And>seek w. body = Some seek \<Longrightarrow> fst (seek w) = None"
    and "\<And>w. request body dofn w \<noteq> (None, None)"
    and "\<And>w e. body \<noteq> None \<Longrightarrow> snd (request body dofn w) = Some e \<Longrightarrow> \<not> other_first (Some e)"
  shows "attempt body_Close body dofn i s =
    (let r = request body dofn (h_world s)
     in Some (Ok (retryable (body \<noteq> None) r),
              \<lparr>h_rsp = fst r, h_err = snd r, h_world = request_world body_Close body dofn (h_world s)\<rparr>))"
proof -
  let ?w = "rewind body (h_world s)"
  obtain rsp err w' where d: "dofn ?w = ((rsp, err), w')"
    by (metis prod.collapse)
  have req: "request body dofn (h_world s) = (rsp, err)"
    by (simp add: request_def d)
  have at: "attempt body_Close body dofn i s = do_request body_Close (body \<noteq> None) dofn i (s\<lparr>h_world := ?w\<rparr>)"
    using assms(1) by (auto simp: attempt_def rewind_def split: option.splits prod.splits) (metis fst_conv option.discI)+
  show ?thesis
  proof (cases err)
    case None
    with assms(2)[of "h_world s"] req obtain r where "rsp = Some r" by (cases rsp) auto
    with None show ?thesis
      unfolding at by (simp add: do_request_def d req request_world_def retryable_def Let_def)
  next
    case (Some e)
    then have "body = None \<or> (\<exists>b. dial_error (Some e) = Some b)"
      using assms(3)[of "h_world s" e] req dial_error_None_iff[of "Some e"] by auto
    with Some show ?thesis
      unfolding at
      by (cases rsp) (auto simp: do_request_def d req request_world_def retryable_def Let_def)
  qed
qed

lemma attempts_request:
  assumes "\<And>i s. act i s = (let r = req (h_world s) in Some (Ok (again r), \<lparr>h_rsp = fst r, h_err = snd r, h_world = nxt (h_world s)\<rparr>))"
  shows "\<exists>k \<le> n. attempts (Suc n) i act s =
       Some (Ok (), \<lparr>h_rsp = fst (req ((nxt ^^ k) (h_world s))), h_err = snd (req ((nxt ^^ k) (h_world s))),
                     h_world = (nxt ^^ Suc k) (h_world s)\<rparr>) \<and>
     (\<forall>j < k. again (req ((nxt ^^ j) (h_world s)))) \<and> (again (req ((nxt ^^ k) (h_world s))) \<longrightarrow> k = n)"
proof (induction n arbitrary: i s)
  case 0
  show ?case
    by (simp add: assms Let_def)
next
  case (Suc n)
  let ?r = "req (h_world s)" and ?s = "\<lparr>h_rsp = fst (req (h_world s)), h_err = snd (req (h_world s)), h_world = nxt (h_world s)\<rparr>"
  show ?case
  proof (cases "again ?r")
    case False
    then show ?thesis
      by (intro exI[of _ 0]) (simp add: assms Let_def)
  next
    case True
    obtain k where k: "k \<le> n" "attempts (Suc n) (Suc i) act ?s =
        Some (Ok (), \<lparr>h_rsp = fst (req ((nxt ^^ k) (h_world ?s))), h_err = snd (req ((nxt ^^ k) (h_world ?s))),
                      h_world = (nxt ^^ Suc k) (h_world ?s)\<rparr>)"
      "\<forall>j < k. again (req ((nxt ^^ j) (h_world ?s)))" "again (req ((nxt ^^ k) (h_world ?s))) \<longrightarrow> k = n"
      using Suc[of "Suc i" ?s] by blast
    have sh: "(nxt ^^ j) (nxt w) = (nxt ^^ Suc j) w" for j w
      by (simp add: funpow_swap1)
    have "attempts (Suc (Suc n)) i act s = attempts (Suc n) (Suc i) act ?s"
      using True by (simp add: assms Let_def)
    moreover have "\<forall>j < Suc k. again (req ((nxt ^^ j) (h_world s)))"
      using k(3) True by (auto simp: less_Suc_eq_0_disj sh simp del: funpow.simps(2))
    ultimately show ?thesis
      using k by (intro exI[of _ "Suc k"]) (simp add: sh del: funpow.simps(2) attempts.simps)
  qed
qed


subsection \<open>Properties\<close>

text \<open>
  C34. \<^verbatim>\<open>Retry\<close> ends and returns what one of its requests returned: there is a request, at most the \<open>n\<close>-th
  where \<open>n\<close> is the limit, whose response and error are the result; all requests before it asked for
  another try, and it does so too only if it is the last that the limit permits.  A request asks for another try
  when it failed and there is no body, when it failed with an error of dialling or a temporary error of the name
  service, or when its status is 429, 503 or 509; the body of such a response is closed.  With a body this
  needs that it can always be rewound and that no error is of a type the code does not know.
\<close>

theorem retry_result:
  assumes "retry_ok n retry"
    and "\<And>seek w. body = Some seek \<Longrightarrow> fst (seek w) = None"
    and "\<And>w. request body dofn w \<noteq> (None, None)"
    and "\<And>w e. body \<noteq> None \<Longrightarrow> snd (request body dofn w) = Some e \<Longrightarrow> \<not> other_first (Some e)"
  shows "\<exists>k < n. \<exists>r. r = request body dofn ((request_world body_Close body dofn ^^ k) w) \<and>
    Retry retry body_Close body dofn w = Some (Ok r, (request_world body_Close body dofn ^^ Suc k) w) \<and>
    (\<forall>j < k. retryable (body \<noteq> None) (request body dofn ((request_world body_Close body dofn ^^ j) w))) \<and>
    (retryable (body \<noteq> None) r \<longrightarrow> k = n - 1)"
proof -
  obtain m where m: "n = Suc m" "\<And>act s. retry act s = attempts (Suc m) 0 act s"
    using assms(1) by (cases n) (auto simp: retry_ok_def simp del: attempts.simps)
  have step: "attempt body_Close body dofn i s =
      (let r = request body dofn (h_world s)
       in Some (Ok (retryable (body \<noteq> None) r),
                \<lparr>h_rsp = fst r, h_err = snd r, h_world = request_world body_Close body dofn (h_world s)\<rparr>))" for i s
    by (rule attempt_request) (use assms(2-4) in blast)+
  obtain k where k: "k \<le> m" "attempts (Suc m) 0 (attempt body_Close body dofn) \<lparr>h_rsp = None, h_err = None, h_world = w\<rparr> =
      Some (Ok (), \<lparr>h_rsp = fst (request body dofn ((request_world body_Close body dofn ^^ k) w)),
                    h_err = snd (request body dofn ((request_world body_Close body dofn ^^ k) w)),
                    h_world = (request_world body_Close body dofn ^^ Suc k) w\<rparr>)"
    "\<forall>j < k. retryable (body \<noteq> None) (request body dofn ((request_world body_Close body dofn ^^ j) w))"
    "retryable (body \<noteq> None) (request body dofn ((request_world body_Close body dofn ^^ k) w)) \<longrightarrow> k = m"
    using attempts_request[where act = "attempt body_Close body dofn" and req = "request body dofn"
        and again = "retryable (body \<noteq> None)" and nxt = "request_world body_Close body dofn", OF step,
        of m 0 "\<lparr>h_rsp = None, h_err = None, h_world = w\<rparr>"]
    by auto
  then show ?thesis
    by (intro exI[of _ k]) (simp add: Retry_def m del: attempts.simps funpow.simps(2))
qed

definition demo_do :: "nat \<Rightarrow> (response option \<times> httperr option) \<times> nat" where
  "demo_do w =
     (if w = 0 then ((None, Some (UrlError (Some (OpError ''dial'' None)))), 1)
      else if w = 1 then ((Some \<lparr>rsp_StatusCode = 503, rsp_id = 1\<rparr>, None), 2)
      else ((Some \<lparr>rsp_StatusCode = 200, rsp_id = w\<rparr>, None), Suc w))"

theorem retry_result_witness:
  "\<exists>k < 10. \<exists>r. r = request (Some (Pair None)) demo_do ((request_world (\<lambda>_ w. w) (Some (Pair None)) demo_do ^^ k) 0) \<and>
    Retry (attempts 10 0) (\<lambda>_ w. w) (Some (Pair None)) demo_do 0 =
      Some (Ok r, (request_world (\<lambda>_ w. w) (Some (Pair None)) demo_do ^^ Suc k) 0) \<and>
    (\<forall>j < k. retryable (Some (Pair None) \<noteq> (None :: (nat \<Rightarrow> error option \<times> nat) option))
       (request (Some (Pair None)) demo_do ((request_world (\<lambda>_ w. w) (Some (Pair None)) demo_do ^^ j) 0))) \<and>
    (retryable (Some (Pair None) \<noteq> (None :: (nat \<Rightarrow> error option \<times> nat) option)) r \<longrightarrow> k = 10 - 1)"
  by (rule retry_result) (auto simp: retry_ok_def request_def demo_do_def split: if_splits)

text \<open>
  The state of \<^verbatim>\<open>Retry\<close> after \<open>k\<close> requests with a body that all asked for another: the response and the error of
  the last of them.
\<close>

definition retry_result_before ::
  "(response \<Rightarrow> 'w \<Rightarrow> 'w) \<Rightarrow> ('w \<Rightarrow> error option \<times> 'w) \<Rightarrow>
     ('w \<Rightarrow> (response option \<times> httperr option) \<times> 'w) \<Rightarrow> nat \<Rightarrow> 'w \<Rightarrow> response option \<times> httperr option" where
  "retry_result_before body_Close seek dofn k w =
     (case k of
        0 \<Rightarrow> (None, None)
      | Suc j \<Rightarrow> request (Some seek) dofn ((request_world body_Close (Some seek) dofn ^^ j) w))"

definition retry_state ::
  "(response \<Rightarrow> 'w \<Rightarrow> 'w) \<Rightarrow> ('w \<Rightarrow> error option \<times> 'w) \<Rightarrow>
     ('w \<Rightarrow> (response option \<times> httperr option) \<times> 'w) \<Rightarrow> nat \<Rightarrow> 'w \<Rightarrow> 'w http" where
  "retry_state body_Close seek dofn k w =
     \<lparr>h_rsp = fst (retry_result_before body_Close seek dofn k w), h_err = snd (retry_result_before body_Close seek dofn k w),
      h_world = (request_world body_Close (Some seek) dofn ^^ k) w\<rparr>"

lemma attempt_again:
  assumes "fst (seek (h_world s)) = None" "retryable True (request (Some seek) dofn (h_world s))"
  shows "attempt body_Close (Some seek) dofn i s =
    Some (Ok True, \<lparr>h_rsp = fst (request (Some seek) dofn (h_world s)), h_err = snd (request (Some seek) dofn (h_world s)),
                    h_world = request_world body_Close (Some seek) dofn (h_world s)\<rparr>)"
proof -
  obtain w1 where seek: "seek (h_world s) = (None, w1)"
    using assms(1) by (cases "seek (h_world s)") simp
  obtain rsp err w2 where d: "dofn w1 = ((rsp, err), w2)"
    by (metis prod.collapse)
  have req: "request (Some seek) dofn (h_world s) = (rsp, err)"
    by (simp add: request_def rewind_def seek d)
  show ?thesis
    using assms(2) seek
    by (auto simp: attempt_def do_request_def d req request_world_def rewind_def retryable_def Let_def
        split: option.splits)
qed

lemma attempts_again:
  assumes "k \<le> n" "\<forall>j < k. fst (seek ((request_world body_Close (Some seek) dofn ^^ j) w)) = None \<and>
      retryable True (request (Some seek) dofn ((request_world body_Close (Some seek) dofn ^^ j) w))"
  shows "attempts n 0 (attempt body_Close (Some seek) dofn) (retry_state body_Close seek dofn 0 w) =
    attempts (n - k) k (attempt body_Close (Some seek) dofn) (retry_state body_Close seek dofn k w)"
  using assms
proof (induction k)
  case (Suc k)
  let ?s = "retry_state body_Close seek dofn k w"
  have n: "n - k = Suc (n - Suc k)"
    using Suc.prems(1) by simp
  have "attempt body_Close (Some seek) dofn k ?s = Some (Ok True, retry_state body_Close seek dofn (Suc k) w)"
    using attempt_again[of seek ?s dofn body_Close k] Suc.prems(2) by (simp add: retry_state_def retry_result_before_def)
  with Suc.IH Suc.prems n show ?case
    by simp
qed simp

text \<open>
  C35. What \<^verbatim>\<open>Retry\<close> does when something unforeseen fails at a try of a request with a body, after \<open>k\<close> requests that
  all asked for another.  When the body cannot be rewound, it returns the response and the error of the last
  request, and the error of \<^verbatim>\<open>Seek\<close> is lost; before the first request it returns neither a response nor an error.
  When \<^verbatim>\<open>do\<close> returns an error in which no known type of error precedes an unknown one (the end of a connection,
  say), it never returns.
\<close>

theorem retry_body_fails:
  assumes "retry_ok n retry" "k < n"
    and "\<forall>j < k. fst (seek ((request_world body_Close (Some seek) dofn ^^ j) w)) = None \<and>
      retryable True (request (Some seek) dofn ((request_world body_Close (Some seek) dofn ^^ j) w))"
    and "wk = (request_world body_Close (Some seek) dofn ^^ k) w"
  shows "(seek wk = (Some e, w') \<longrightarrow>
       Retry retry body_Close (Some seek) dofn w = Some (Ok (retry_result_before body_Close seek dofn k w), w')) \<and>
    (seek wk = (None, w') \<and> dofn w' = ((rsp, Some err), w'') \<and> other_first (Some err) \<longrightarrow>
       Retry retry body_Close (Some seek) dofn w = None)"
proof -
  let ?act = "attempt body_Close (Some seek) dofn" and ?s = "retry_state body_Close seek dofn k w"
  have "retry ?act \<lparr>h_rsp = None, h_err = None, h_world = w\<rparr> = attempts (n - k) k ?act ?s"
    using assms(1) attempts_again[OF _ assms(3), of n] assms(2)
    by (simp add: retry_ok_def retry_state_def retry_result_before_def)
  moreover have "attempts (n - k) k ?act ?s = attempts (Suc (n - Suc k)) k ?act ?s"
    using assms(2) by (simp add: Suc_diff_Suc)
  ultimately have run: "Retry retry body_Close (Some seek) dofn w =
      (case attempts (Suc (n - Suc k)) k ?act ?s of
         None \<Rightarrow> None
       | Some (Ok _, s) \<Rightarrow> Some (Ok (h_rsp s, h_err s), h_world s)
       | Some (Err e, s) \<Rightarrow> Some (Err e, h_world s)
       | Some (Panic q, s) \<Rightarrow> Some (Panic q, h_world s))"
    by (simp add: Retry_def del: attempts.simps)
  have "h_world ?s = wk"
    by (simp add: retry_state_def assms(4))
  then show ?thesis
    unfolding run by (auto simp: attempt_def do_request_def iffD2[OF dial_error_None_iff] retry_state_def)
qed

text \<open>A body that cannot be rewound after the first request, which was answered with status 503.\<close>

definition demo_seek :: "nat \<Rightarrow> error option \<times> nat" where
  "demo_seek w = (if w = 0 then (None, 1) else (Some (ExtErr 3), w))"

theorem retry_body_fails_witness:
  "Retry (attempts 10 0) (\<lambda>_ w. w) (Some demo_seek) demo_do 0 = Some (Ok (Some \<lparr>rsp_StatusCode = 503, rsp_id = 1\<rparr>, None), 2) \<and>
   Retry (attempts 10 0) (\<lambda>_ w. w) (Some (Pair (Some (ExtErr 3)))) demo_do 0 = Some (Ok (None, None), 0) \<and>
   Retry (attempts 10 0) (\<lambda>_ w. w) (Some (Pair None)) (Pair (None, Some (UrlError (Some (OtherError 1))))) (0 :: nat) = None"
proof (intro conjI)
  have r: "request (Some demo_seek) demo_do 0 = (Some \<lparr>rsp_StatusCode = 503, rsp_id = 1\<rparr>, None)"
    "request_world (\<lambda>_ w. w) (Some demo_seek) demo_do 0 = 2"
    by (simp_all add: request_def request_world_def rewind_def demo_seek_def demo_do_def Let_def)
  show "Retry (attempts 10 0) (\<lambda>_ w. w) (Some demo_seek) demo_do 0 = Some (Ok (Some \<lparr>rsp_StatusCode = 503, rsp_id = 1\<rparr>, None), 2)"
    using retry_body_fails[of 10 "attempts 10 0" 1 demo_seek "\<lambda>_ w. w" demo_do 0 2 "ExtErr 3" 2] r
    by (simp add: retry_ok_def demo_seek_def retryable_def busy_def retry_result_before_def)
  show "Retry (attempts 10 0) (\<lambda>_ w. w) (Some (Pair (Some (ExtErr 3)))) demo_do 0 = Some (Ok (None, None), 0)"
    using retry_body_fails[of 10 "attempts 10 0" 0 "Pair (Some (ExtErr 3))" "\<lambda>_ w. w" demo_do 0 0 "ExtErr 3" 0]
    by (simp add: retry_ok_def retry_result_before_def)
  show "Retry (attempts 10 0) (\<lambda>_ w. w) (Some (Pair None)) (Pair (None, Some (UrlError (Some (OtherError 1))))) (0 :: nat) = None"
    using retry_body_fails[of 10 "attempts 10 0" 0 "Pair None" "\<lambda>_ w. w"
        "Pair (None, Some (UrlError (Some (OtherError 1))))" "0 :: nat" 0 "ExtErr 3" 0 None "UrlError (Some (OtherError 1))" 0]
    by (simp add: retry_ok_def)
qed

end
