(* ===== verification/WindowsOpen.thy ===== *)
theory WindowsOpen
  imports Errno
begin

unbundle bit_operations_syntax

text \<open>
  \<^verbatim>\<open>openFile\<close> on Windows: \<^verbatim>\<open>src/cache/openfile_windows.go\<close>.

  The flags and the constants of the Windows interface have the values that the package \<^verbatim>\<open>syscall\<close> gives them; flags are 64-bit
  integers, the arguments of \<^verbatim>\<open>CreateFile\<close> 32-bit ones.  \<open>utf16\<close> is \<^verbatim>\<open>UTF16PtrFromString\<close>, \<open>sysCreateFile\<close> the system call; both
  are arguments, as is the error \<^verbatim>\<open>ERROR_FILE_NOT_FOUND\<close>, and \<open>wrap\<close> makes the \<^verbatim>\<open>os.PathError\<close>.
\<close>

subsection \<open>Definitions\<close>

abbreviation "sys_O_RDONLY \<equiv> (0 :: i64)"
abbreviation "sys_O_WRONLY \<equiv> (1 :: i64)"
abbreviation "sys_O_RDWR \<equiv> (2 :: i64)"
abbreviation "sys_O_CREAT \<equiv> (0x40 :: i64)"
abbreviation "sys_O_EXCL \<equiv> (0x80 :: i64)"
abbreviation "sys_O_TRUNC \<equiv> (0x200 :: i64)"
abbreviation "sys_O_APPEND \<equiv> (0x400 :: i64)"
abbreviation "sys_O_CLOEXEC \<equiv> (0x80000 :: i64)"
abbreviation "GENERIC_READ \<equiv> (0x80000000 :: u32)"
abbreviation "GENERIC_WRITE \<equiv> (0x40000000 :: u32)"
abbreviation "FILE_APPEND_DATA \<equiv> (4 :: u32)"
abbreviation "FILE_SHARE_READ \<equiv> (1 :: u32)"
abbreviation "FILE_SHARE_WRITE \<equiv> (2 :: u32)"
abbreviation "FILE_SHARE_DELETE \<equiv> (4 :: u32)"
abbreviation "CREATE_NEW \<equiv> (1 :: u32)"
abbreviation "CREATE_ALWAYS \<equiv> (2 :: u32)"
abbreviation "OPEN_EXISTING \<equiv> (3 :: u32)"
abbreviation "OPEN_ALWAYS \<equiv> (4 :: u32)"
abbreviation "TRUNCATE_EXISTING \<equiv> (5 :: u32)"
abbreviation "FILE_ATTRIBUTE_NORMAL \<equiv> (0x80 :: u32)"

text \<open>\<^verbatim>\<open>sa\<close> is nil, or a record that says that the handle is inherited.\<close>

record SecurityAttributes =
  sa_InheritHandle :: u32

definition makeInheritSa :: SecurityAttributes where
  "makeInheritSa = \<lparr>sa_InheritHandle = 1\<rparr>"

record 'p CreateFile_args =
  cf_path :: 'p
  cf_access :: u32
  cf_sharemode :: u32
  cf_sa :: "SecurityAttributes option"
  cf_createmode :: u32
  cf_attrs :: u32

definition win_access :: "i64 \<Rightarrow> u32" where
  "win_access mode =
     (let rw = mode AND (sys_O_RDONLY OR sys_O_WRONLY OR sys_O_RDWR);
          access = (if rw = sys_O_RDONLY then GENERIC_READ
                    else if rw = sys_O_WRONLY then GENERIC_WRITE
                    else if rw = sys_O_RDWR then GENERIC_READ OR GENERIC_WRITE
                    else 0);
          access = (if mode AND sys_O_CREAT \<noteq> 0 then access OR GENERIC_WRITE else access)
      in if mode AND sys_O_APPEND \<noteq> 0 then (access AND NOT GENERIC_WRITE) OR FILE_APPEND_DATA else access)"

definition win_createmode :: "i64 \<Rightarrow> u32" where
  "win_createmode mode =
     (if mode AND (sys_O_CREAT OR sys_O_EXCL) = (sys_O_CREAT OR sys_O_EXCL) then CREATE_NEW
      else if mode AND (sys_O_CREAT OR sys_O_TRUNC) = (sys_O_CREAT OR sys_O_TRUNC) then CREATE_ALWAYS
      else if mode AND sys_O_CREAT = sys_O_CREAT then OPEN_ALWAYS
      else if mode AND sys_O_TRUNC = sys_O_TRUNC then TRUNCATE_EXISTING
      else OPEN_EXISTING)"

definition windowsOpenFile ::
  "error \<Rightarrow> (gostring \<Rightarrow> 'p res) \<Rightarrow> ('p CreateFile_args \<Rightarrow> 'w \<Rightarrow> 'h res \<times> 'w) \<Rightarrow> gostring \<Rightarrow> i64 \<Rightarrow> 'w \<Rightarrow> 'h res \<times> 'w" where
  "windowsOpenFile notfound utf16 sysCreateFile path mode w =
     (if length path = 0 then (Err notfound, w)
      else
        (case utf16 path of
           Err e \<Rightarrow> (Err e, w)
         | Panic q \<Rightarrow> (Panic q, w)
         | Ok pathp \<Rightarrow>
             sysCreateFile
               \<lparr>cf_path = pathp, cf_access = win_access mode,
                cf_sharemode = FILE_SHARE_READ OR FILE_SHARE_WRITE OR FILE_SHARE_DELETE,
                cf_sa = (if mode AND sys_O_CLOEXEC = 0 then Some makeInheritSa else None),
                cf_createmode = win_createmode mode, cf_attrs = FILE_ATTRIBUTE_NORMAL\<rparr> w))"

definition win_openFile ::
  "(error \<Rightarrow> error) \<Rightarrow> error \<Rightarrow> (gostring \<Rightarrow> 'p res) \<Rightarrow> ('p CreateFile_args \<Rightarrow> 'w \<Rightarrow> 'h res \<times> 'w) \<Rightarrow> gostring \<Rightarrow> i64 \<Rightarrow> 'w \<Rightarrow> 'h res \<times> 'w" where
  "win_openFile wrap notfound utf16 sysCreateFile path flag w =
     (case windowsOpenFile notfound utf16 sysCreateFile path (flag OR sys_O_CLOEXEC) w of
        (Err e, w) \<Rightarrow> (Err (wrap e), w)
      | (r, w) \<Rightarrow> (r, w))"

subsection \<open>Properties\<close>

text \<open>A mode of a creation, and flags as bits.\<close>

definition creates :: "u32 \<Rightarrow> bool" where
  "creates m \<longleftrightarrow> m \<in> {CREATE_NEW, CREATE_ALWAYS, OPEN_ALWAYS}"

definition truncates :: "u32 \<Rightarrow> bool" where
  "truncates m \<longleftrightarrow> m \<in> {CREATE_ALWAYS, TRUNCATE_EXISTING}"

lemma and_eq_mask_iff: "m AND k = k \<longleftrightarrow> (\<forall>n. bit k n \<longrightarrow> bit m n)" for m k :: "'a::len word"
proof
  assume "m AND k = k"
  then show "\<forall>n. bit k n \<longrightarrow> bit m n"
    by (metis bit_and_iff)
qed (intro bit_eqI, auto simp: bit_and_iff)

lemma single_bit: "k < 64 \<Longrightarrow> bit (2 ^ k :: i64) n \<longleftrightarrow> n = k"
  by (auto simp: bit_simps)

lemma one_flag: "k < 64 \<Longrightarrow> m AND 2 ^ k = 2 ^ k \<longleftrightarrow> bit m k" for m :: i64
  by (simp add: and_eq_mask_iff single_bit)

lemma two_flags:
  "j < 64 \<Longrightarrow> k < 64 \<Longrightarrow> m AND (2 ^ j OR 2 ^ k) = (2 ^ j OR 2 ^ k) \<longleftrightarrow> bit m j \<and> bit m k" for m :: i64
  by (auto simp: and_eq_mask_iff bit_or_iff single_bit)

lemma flag_bit:
  "mode AND sys_O_CREAT = sys_O_CREAT \<longleftrightarrow> bit mode 6" "mode AND sys_O_TRUNC = sys_O_TRUNC \<longleftrightarrow> bit mode 9"
  "mode AND 192 = 192 \<longleftrightarrow> bit mode 6 \<and> bit mode 7" "mode AND 576 = 576 \<longleftrightarrow> bit mode 6 \<and> bit mode 9" for mode :: i64
  using one_flag[of 6 mode] one_flag[of 9 mode] two_flags[of 6 7 mode] two_flags[of 6 9 mode] by simp_all

text \<open>
  C40. Opening a file on Windows: for every combination of flags the system is asked to create a file exactly when
  \<^verbatim>\<open>O_CREATE\<close> is given, to insist on a new one exactly when \<^verbatim>\<open>O_EXCL\<close> is given with it, and to cut an existing file exactly when \<^verbatim>\<open>O_TRUNC\<close> is given and not
  \<^verbatim>\<open>O_CREATE|O_EXCL\<close>; the handle is never inherited, and others may read, write and delete the file, so that
  the cache can remove a file that is open.
\<close>

theorem windows_open_flags:
  assumes "path \<noteq> []" "utf16 path = Ok pathp"
  shows "\<exists>a. win_openFile wrap notfound utf16 sysCreateFile path flag w =
        (case sysCreateFile a w of (Err e, w) \<Rightarrow> (Err (wrap e), w) | (r, w) \<Rightarrow> (r, w)) \<and>
      (creates (cf_createmode a) \<longleftrightarrow> bit flag 6) \<and>
      (cf_createmode a = CREATE_NEW \<longleftrightarrow> bit flag 6 \<and> bit flag 7) \<and>
      (truncates (cf_createmode a) \<longleftrightarrow> bit flag 9 \<and> \<not> (bit flag 6 \<and> bit flag 7)) \<and>
      cf_sharemode a = 7 \<and> cf_sa a = None \<and> cf_path a = pathp"
proof -
  let ?m = "flag OR sys_O_CLOEXEC"
  let ?a = "\<lparr>cf_path = pathp, cf_access = win_access ?m, cf_sharemode = 7, cf_sa = None, cf_createmode = win_createmode ?m,
    cf_attrs = FILE_ATTRIBUTE_NORMAL\<rparr>"
  have c: "sys_O_CLOEXEC = push_bit 19 1"
    by (simp add: push_bit_eq_mult)
  have b: "bit ?m 6 = bit flag 6" "bit ?m 7 = bit flag 7" "bit ?m 9 = bit flag 9" "bit (?m AND sys_O_CLOEXEC) 19"
    unfolding c by (simp_all add: bit_simps)
  then have "?m AND sys_O_CLOEXEC \<noteq> 0"
    by (metis bit_0_eq bot_apply bot_bool_def)
  then have "win_openFile wrap notfound utf16 sysCreateFile path flag w = (case sysCreateFile ?a w of (Err e, w) \<Rightarrow> (Err (wrap e), w) | (r, w) \<Rightarrow> (r, w))"
    using assms by (simp add: win_openFile_def windowsOpenFile_def)
  moreover have "creates (win_createmode ?m) \<longleftrightarrow> bit flag 6" "win_createmode ?m = CREATE_NEW \<longleftrightarrow> bit flag 6 \<and> bit flag 7"
    "truncates (win_createmode ?m) \<longleftrightarrow> bit flag 9 \<and> \<not> (bit flag 6 \<and> bit flag 7)"
    using b(1-3) by (auto simp: win_createmode_def flag_bit creates_def truncates_def)
  ultimately show ?thesis
    by (intro exI[of _ ?a]) simp
qed

theorem windows_open_flags_witness:
  "\<exists>a :: gostring CreateFile_args. win_openFile id (ExtErr 2) Ok (\<lambda>a w. (Ok (cf_createmode a), w + (1 :: nat))) ''c:/f'' (sys_O_RDWR OR sys_O_CREAT OR sys_O_EXCL) 0 =
      (Ok (cf_createmode a), 1) \<and> cf_createmode a = CREATE_NEW \<and> cf_sharemode a = 7 \<and> cf_path a = ''c:/f''"
proof -
  have "bit (194 :: i64) 6" "bit (194 :: i64) 7"
    by (simp_all add: bit_iff_odd_drop_bit drop_bit_eq_div)
  with windows_open_flags[of "''c:/f''" Ok "''c:/f''" id "ExtErr 2" "\<lambda>a w. (Ok (cf_createmode a), w + (1 :: nat))" 194 0]
  obtain a :: "gostring CreateFile_args" where "win_openFile id (ExtErr 2) Ok (\<lambda>a w. (Ok (cf_createmode a), w + (1 :: nat))) ''c:/f'' 194 0 = (Ok (cf_createmode a), 1)"
    "cf_createmode a = CREATE_NEW" "cf_sharemode a = 7" "cf_path a = ''c:/f''"
    by auto
  then show ?thesis
    by (intro exI[of _ a]) simp
qed

end
