(* ===== verification/Spec2Isabelle.thy ===== *)
theory Spec2Isabelle
  imports Download Namespace Recovery PathLock Shell HttpRetry WindowsOpen
begin

text \<open>
  A verification development of objfs, the object storage file system: a program in Go that mounts an object
  storage (OneDrive, Dropbox, ...) as a file system, and works on it by commands.

  \<^bold>\<open>The parts and how they interact.\<close>  A command (\<^verbatim>\<open>src/commands.go\<close>, \<^verbatim>\<open>src/cache_commands.go\<close>) is dispatched by \<^verbatim>\<open>run\<close> (\<^verbatim>\<open>src/objfs.go\<close>) and first initialises
  the variables it needs by \<^verbatim>\<open>needvar\<close>: configuration, credentials (\<^verbatim>\<open>src/auth\<close>), and the storage, which a factory of a registry (\<^verbatim>\<open>src/objreg\<close>)
  makes and which may be traced (\<^verbatim>\<open>src/objio\<close>).  \<^verbatim>\<open>mount\<close> opens the cache (\<^verbatim>\<open>src/cache\<close>) over the storage, makes a file system over it (\<^verbatim>\<open>src/fs/objfs\<close>)
  and hands it to FUSE (\<^verbatim>\<open>src/fs\<close>).  The cache keeps a record per object (a node) in a database and the contents of files in local
  files named by inode numbers; operations work on open nodes under locks of paths, and a goroutine uploads changed files and evicts others,
  taking inodes from two queues.  Errors are mapped to error numbers (\<^verbatim>\<open>src/errno\<close>) and codes of FUSE (\<^verbatim>\<open>src/fs/errc.go\<close>).

  \<^bold>\<open>How the code is represented.\<close>  A string or byte slice is a list of characters; fixed-size integers are words, so that they wrap; a
  time is an integer of nanoseconds; a struct is a record, a Go map a finite map.  A fallible function returns \<open>res\<close>: a value, an error or a
  panic.  A stateful function takes and returns the state it works on: \<open>cache\<close> (the fields of \<^verbatim>\<open>Cache\<close> with the database, the storage and
  the operating system), or \<open>program\<close> (the package variables and everything the program can touch).  \<^const>\<open>None\<close> is a call
  that does not return.  What is not in the repository (the database bolt, the storages, golib, FUSE, unicode tables, SHA-256) is a
  parameter, and what the theorems need of it is a named hypothesis, with an instance in the witnesses (\<open>Demo\<close>, and the \<open>demo_\<close> constants).

  \<^bold>\<open>The theories.\<close>
  \<^item> \<open>Prelude\<close>: types, lists, maps and words; the collections of rules.
  \<^item> \<open>Errno\<close>: errors, panics, \<^verbatim>\<open>ErrnoFromErr\<close>, \<^verbatim>\<open>FuseErrc\<close>.
  \<^item> \<open>Link\<close>: the intrusive list of \<^verbatim>\<open>src/cache/link.go\<close> in a heap; the locale \<open>ring_list\<close> is its contract.
  \<^item> \<open>Presence\<close>, \<open>Lru\<close>: the path presence cache and the two queues of inodes over such lists, with the locales \<open>presence\<close> and \<open>work_queues\<close> and
    refinements to plain lists.
  \<^item> \<open>Paths\<close>, \<open>Casefold\<close>: partial paths, the prefix test, names of local files, and the normalisation of case.
  \<^item> \<open>LocalFs\<close>, \<open>WindowsOpen\<close>: local files with a failure at any call, and the opening of files on Windows.
  \<^item> \<open>Node\<close>, \<open>NodeStore\<close>: \<^verbatim>\<open>src/cache/node.go\<close>, the encoding of a node and the catalogue and index in the database; the locale
    \<open>catalogue\<close>.
  \<^item> \<open>Storage\<close>, \<open>Trace\<close>: the interface of a storage, and the tracing storage.
  \<^item> \<open>CacheState\<close>, \<open>CacheOps\<close>, \<open>Background\<close>: \<^verbatim>\<open>src/cache/cache.go\<close>, one definition per method; opening, closing and the background work are in
    \<open>Background\<close>.
  \<^item> \<open>Demo\<close>: a concrete cache.
  \<^item> \<open>Pending\<close>, \<open>UploadFile\<close>, \<open>Interleave\<close>, \<open>Flush\<close>, \<open>Upload\<close>, \<open>Download\<close>, \<open>Namespace\<close>, \<open>Recovery\<close>: what the operations of the cache keep
    and achieve.
  \<^item> \<open>PathLock\<close>: the locking of paths as steps of goroutines over reader-writer locks.
  \<^item> \<open>ObjFs\<close>, \<open>MountFs\<close>: the methods that FUSE calls, the tracing file system, the factory and \<^verbatim>\<open>Mount\<close>.
  \<^item> \<open>Registry\<close> (the locale \<open>registry\<close>), \<open>Credentials\<close>, \<open>HttpRetry\<close>: the packages \<^verbatim>\<open>objreg\<close>, \<^verbatim>\<open>auth\<close> and \<^verbatim>\<open>httputil\<close>.
  \<^item> \<open>Program\<close>, \<open>Vars\<close>, \<open>Commands\<close>, \<open>CacheCommands\<close>, \<open>Shell\<close>: the program: \<^verbatim>\<open>run\<close> and the ways to end, \<^verbatim>\<open>needvar\<close>, the commands, the tables of
    commands, the shell and \<^verbatim>\<open>main\<close>.

  Every locale is interpreted on the definitions of the model in the theory that provides them (\<open>link\<close>, \<open>pres\<close>, \<open>queues\<close>, \<open>nodes\<close>, \<open>objreg\<close>).

  \<^bold>\<open>What is shown.\<close>
  \<^item> No update is lost: in every interleaving of writes with steps of the background work an inode that was written to stays queued for
    upload until the storage has exactly the bytes of its local file, or its node or its local file is gone; the state of the system records this
    by what the storage has, not by what the code reports (\<open>Interleave\<close>, over \<open>UploadFile\<close>).  An upload stores the bytes of the file and
    the hash (\<open>Upload\<close>); an eviction spares an inode that was written to meanwhile (\<open>Interleave\<close>); when a cache is started again the changed files are
    queued for upload, unless they cannot be read (\<open>Recovery\<close>); the loops end, and a reset empties the queues (\<open>Flush\<close>).
  \<^item> What is written is read back, through the cache and through FUSE (below); a download is a copy of the object unless a longer local file was
    there (\<open>Download\<close>); references to open nodes are balanced by every method (\<open>ObjFs\<close>); when the removal of a directory
    finds its children and when it cannot (\<open>Namespace\<close>).
  \<^item> The locking of paths: exclusion, progress and termination, and the deadlock of two nested lockings in \<^verbatim>\<open>renameNode\<close> (\<open>PathLock\<close>).
  \<^item> Refinements of the presence cache and the queues to lists; round trips of the node encoding, file names, credentials, \<^verbatim>\<open>put\<close> and \<^verbatim>\<open>get\<close>,
    \<^verbatim>\<open>cache-put\<close> and \<^verbatim>\<open>cache-get\<close>; the store as a map from keys to nodes; equality of names up to case.
  \<^item> The precedence and the types of options, the initialisation of variables, retrying of HTTP requests, commands that go on after an error,
    tracing that changes nothing, the shell that outlives its commands, the flags of a file on Windows.

  \<^bold>\<open>Loops.\<close>  No fuel is used.  A loop that is bounded by its data is a total function.  The loops that may not end are partial functions with the value
  \<^const>\<open>None\<close>: \<^verbatim>\<open>uploadAll\<close> and \<^verbatim>\<open>evictAll\<close> (which are shown to end), the copying of \<^verbatim>\<open>cache-get\<close> (shown to end when the disk does not fail), the search along the causes of an
  error (ends when the chain is finite), the listing of pages of a storage and the loop over the types of an HTTP error (which
  does not end for some errors).  The lines of the shell, the events of the background goroutine and the steps of other goroutines are explicit lists or the
  choices of a step relation.

  \<^bold>\<open>Not modelled.\<close>  The layout of printed lines; the registration of command-line flags, whose parsing is a parameter; the objects
  that configure HTTP connections; the generated texts of error numbers; \<^verbatim>\<open>src/registry.go\<close> (generated), \<^verbatim>\<open>src/debug.go\<close> (a profiling
  server), \<^verbatim>\<open>src/assets\<close> (not used in the repository) and the tools of the build and the tests.  Methods of the cache are atomic but for the path locks, which have
  a model of their own, and the steps of the background work; the order of memory accesses is not modelled.
\<close>

subsection \<open>The mounted file system\<close>

lemma errnomap_negative:
  assumes "errnomap k x = Some rc" "\<And>x. 0 < k x"
  shows "rc < 0"
  using map_of_SomeD[OF assms(1)[unfolded errnomap_def]] assms(2) by auto

lemma FuseErrc_negative:
  assumes "FuseErrc g k (Some e) = Some rc" "\<And>x. 0 < k x"
  shows "rc < 0"
  using assms errnomap_negative[of k _ rc] by (auto simp: FuseErrc_def split: option.splits)

lemma map_res_OkD: "map_res f r = Ok y \<Longrightarrow> \<exists>x. r = Ok x \<and> y = f x"
  by (cases r) auto

lemma fs_Write_OkD:
  assumes "fs_Write F E buf ofst h c = Some (Ok n, c')" "0 \<le> n" "\<And>x. 0 < fuse_const F x"
  shows "WriteAt E h buf ofst c = (Ok (nat n, None), c')"
proof -
  obtain r c1 where w: "flat (WriteAt E h buf ofst c) = (r, c1)"
    by (cases "flat (WriteAt E h buf ofst c)")
  have "r = Ok (nat n)" "c1 = c'"
    using assms FuseErrc_negative[of "e_golib E" "fuse_const F" _ n]
    by (cases r; force simp: fs_Write_def reply_def errc_def w)+
  with w show ?thesis
    by (auto simp: flat_def split: prod.splits res.splits option.splits)
qed

text \<open>
  C4. What is written through the mounted file system is read back: when \<^verbatim>\<open>write\<close> on a handle returns a count and not an error code,
  then it has taken all bytes, and \<^verbatim>\<open>read\<close> of as many bytes at the same offset of the same handle returns exactly these
  bytes, through the FUSE methods, the cache and the local file, unless the operating system fails at that moment.
\<close>

theorem mounted_read_your_writes:
  assumes "open_inv (c_openmap c)" "\<And>x. 0 < fuse_const F x"
    and "fs_run (objfs_fs F E base) [FWrite path buf ofst h] c = Some ([Ok (RErrc n)], c')" "0 \<le> n"
    and "os_fails (c_os c') = None"
  shows "n = int (length buf) \<and>
    (\<exists>c2. fs_run (objfs_fs F E base) [FRead path (length buf) ofst h] c' = Some ([Ok (RData (n, buf))], c2))"
proof -
  have "fs_Write F E buf ofst h c = Some (Ok n, c')"
    using assms(3) by (auto simp: objfs_fs_def ret_map_def split: option.splits prod.splits res.splits dest!: map_res_OkD)
  then have w: "WriteAt E h buf ofst c = (Ok (nat n, None), c')"
    by (rule fs_Write_OkD[OF _ assms(4,2)])
  note rw = read_your_writes[OF assms(1) w assms(5)]
  then obtain c2 where "ReadAt E h (length buf) ofst c' = (Ok (buf, None), c2)"
    by (metis prod.collapse)
  with rw assms(4) show ?thesis
    by (auto simp: objfs_fs_def ret_map_def fs_Read_def)
qed

theorem mounted_read_your_writes_witness:
  "\<exists>c' c2. fs_run (objfs_fs (demo_fuse\<lparr>fuse_const := (\<lambda>_. 5)\<rparr>) demo_env (demo_base :: (unit, _) FileSystemInterface)) [FWrite ''/a/b'' ''new'' 1 7] demo_cache =
      Some ([Ok (RErrc 3)], c') \<and>
    fs_run (objfs_fs (demo_fuse\<lparr>fuse_const := (\<lambda>_. 5)\<rparr>) demo_env (demo_base :: (unit, _) FileSystemInterface)) [FRead ''/a/b'' 3 1 7] c' =
      Some ([Ok (RData (3, ''new''))], c2)"
proof -
  let ?F = "demo_fuse\<lparr>fuse_const := (\<lambda>_. 5)\<rparr>"
  define c' where "c' = snd (WriteAt demo_env 7 ''new'' 1 demo_cache)"
  have "fst (WriteAt demo_env 7 ''new'' 1 demo_cache) = Ok (3, None)"
    by (simp add: WriteAt_def with_open_def performFileIoOnNode_def node_at_def on_os_def file_WriteAt_def
        demo_os_def Let_def)
  then have "WriteAt demo_env 7 ''new'' 1 demo_cache = (Ok (3, None), c')"
    by (simp add: c'_def prod_eq_iff)
  then have w: "fs_run (objfs_fs ?F demo_env (demo_base :: (unit, _) FileSystemInterface)) [FWrite ''/a/b'' ''new'' 1 7] demo_cache = Some ([Ok (RErrc 3)], c')"
    by (simp add: objfs_fs_def ret_map_def fs_Write_def flat_def reply_def)
  have "os_fails (c_os c') = None"
    by (simp add: c'_def WriteAt_def with_open_def performFileIoOnNode_def node_at_def on_os_def file_WriteAt_def
        demo_os_def os_fails_def touch_def time_now_def time_Now_def os_tick_def set_data_def Let_def)
  from mounted_read_your_writes[OF demo_open_inv _ w _ this] w show ?thesis
    by (auto simp: numeral_3_eq_3)
qed

end
